(* ===== verification/Rust_Prelude.thy ===== *)
theory Rust_Prelude
  imports
    Complex_Main
    "HOL-Library.State_Monad"
    "HOL-Library.Option_ord"
begin

text \<open>
  What the components share: the parts of Rust's standard library that the code uses, and the
  collections of rules that the component proofs draw on.

  Strings. A Rust \<open>String\<close> is a sequence of UTF-8 bytes, and so is a HOL \<open>string\<close> here: one
  \<open>char\<close> per byte. The code searches and splits strings at ASCII characters only, which in
  UTF-8 is the same on bytes as on characters; the one Unicode property it uses,
  \<open>char::is_whitespace\<close>, is \<open>ws_len\<close>, exact for every White\_Space code point.
  \<open>to_lowercase\<close> is only ever compared with ASCII keywords without the letter \<open>k\<close>, so it may be
  modelled by its ASCII part (the Kelvin sign is the only non-ASCII character whose lower case is
  an ASCII string).

  Floating point. \<open>f64\<close> has NaN, both infinities and exact finite values: NaN propagation and
  IEEE comparisons are modelled, rounding is not.

  Integers. \<open>i64\<close> values are \<open>int\<close> with the range written out where an operation saturates or
  wraps; \<open>usize\<close>, \<open>u32\<close> and \<open>u64\<close> counters are \<open>nat\<close>.
\<close>

section \<open>Rule collections\<close>

named_theorems emits_intros \<open>how the effects of a composite program follow from its parts\<close>
named_theorems string_defs \<open>definitions of the string functions, for evaluation\<close>

section \<open>Strings\<close>

abbreviation dquote :: char where "dquote \<equiv> CHR 0x22"
abbreviation squote :: char where "squote \<equiv> CHR 0x27"
abbreviation backslash :: char where "backslash \<equiv> CHR 0x5C"
abbreviation space :: char where "space \<equiv> CHR 0x20"
abbreviation slash :: char where "slash \<equiv> CHR 0x2F"
abbreviation colon :: char where "colon \<equiv> CHR 0x3A"
abbreviation newline :: char where "newline \<equiv> CHR 0x0A"
abbreviation equals_sign :: char where "equals_sign \<equiv> CHR 0x3D"

definition ascii_lower :: "char \<Rightarrow> char" where
  "ascii_lower c = (let n = of_char c :: nat in if 65 \<le> n \<and> n \<le> 90 then char_of (n + 32) else c)"

definition to_lower :: "string \<Rightarrow> string" where
  "to_lower s = map ascii_lower s"

definition starts_with :: "string \<Rightarrow> string \<Rightarrow> bool" where
  "starts_with p s = (take (length p) s = p)"

text \<open>\<open>str::split_once\<close> at a character.\<close>

definition split_once :: "char \<Rightarrow> string \<Rightarrow> (string \<times> string) option" where
  "split_once c s =
     (if c \<in> set s
      then Some (takeWhile (\<lambda>x. x \<noteq> c) s, tl (dropWhile (\<lambda>x. x \<noteq> c) s))
      else None)"

text \<open>\<open>str::rfind\<close> at a character, as the pair of the text before and after its last occurrence.\<close>

definition rsplit_once :: "char \<Rightarrow> string \<Rightarrow> (string \<times> string) option" where
  "rsplit_once c s =
     (case split_once c (rev s) of None \<Rightarrow> None | Some (a, b) \<Rightarrow> Some (rev b, rev a))"

text \<open>\<open>str::split\<close> at a character: always at least one piece.\<close>

fun split_on :: "char \<Rightarrow> string \<Rightarrow> string list" where
  "split_on c [] = [[]]"
| "split_on c (x # xs) =
     (if x = c then [] # split_on c xs
      else (case split_on c xs of [] \<Rightarrow> [[x]] | y # ys \<Rightarrow> (x # y) # ys))"

fun join :: "string \<Rightarrow> string list \<Rightarrow> string" where
  "join sep [] = []"
| "join sep [x] = x"
| "join sep (x # y # zs) = x @ sep @ join sep (y # zs)"

text \<open>\<open>str::replace\<close> of one character by a string.\<close>

definition replace_char :: "char \<Rightarrow> string \<Rightarrow> string \<Rightarrow> string" where
  "replace_char c r s = concat (map (\<lambda>x. if x = c then r else [x]) s)"

text \<open>Decimal printing of integers, as \<open>format!\<close> does.\<close>

fun dec :: "nat \<Rightarrow> string" where
  "dec n = (if n < 10 then [char_of (48 + n)] else dec (n div 10) @ [char_of (48 + n mod 10)])"

declare dec.simps [simp del]

definition dec_int :: "int \<Rightarrow> string" where
  "dec_int i = (if i < 0 then ''-'' @ dec (nat (- i)) else dec (nat i))"

subsection \<open>White space\<close>

text \<open>
  The number of bytes of the White\_Space character at the head of a string, 0 if there is none:
  U+0009 to U+000D, U+0020, U+0085, U+00A0, U+1680, U+2000 to U+200A, U+2028, U+2029, U+202F,
  U+205F and U+3000.
\<close>

definition ascii_ws :: "char \<Rightarrow> bool" where
  "ascii_ws c = (c \<in> set [CHR 0x09, CHR 0x0A, CHR 0x0B, CHR 0x0C, CHR 0x0D, CHR 0x20])"

definition ws2 :: "char \<Rightarrow> char \<Rightarrow> bool" where
  "ws2 a b = (a = CHR 0xC2 \<and> b \<in> set [CHR 0x85, CHR 0xA0])"

definition ws3 :: "char \<Rightarrow> char \<Rightarrow> char \<Rightarrow> bool" where
  "ws3 a b c =
     (a = CHR 0xE1 \<and> b = CHR 0x9A \<and> c = CHR 0x80
      \<or> a = CHR 0xE2 \<and> b = CHR 0x80
         \<and> c \<in> set [CHR 0x80, CHR 0x81, CHR 0x82, CHR 0x83, CHR 0x84, CHR 0x85, CHR 0x86,
                    CHR 0x87, CHR 0x88, CHR 0x89, CHR 0x8A, CHR 0xA8, CHR 0xA9, CHR 0xAF]
      \<or> a = CHR 0xE2 \<and> b = CHR 0x81 \<and> c = CHR 0x9F
      \<or> a = CHR 0xE3 \<and> b = CHR 0x80 \<and> c = CHR 0x80)"

definition ws_len :: "string \<Rightarrow> nat" where
  "ws_len s =
     (case s of [] \<Rightarrow> 0
      | a # t \<Rightarrow> if ascii_ws a then 1 else
         (case t of [] \<Rightarrow> 0
          | b # u \<Rightarrow> if ws2 a b then 2 else
             (case u of [] \<Rightarrow> 0 | c # _ \<Rightarrow> if ws3 a b c then 3 else 0)))"

text \<open>Bytes below 0x80 are whole characters; every other byte is part of a longer one.\<close>

definition is_ascii :: "char \<Rightarrow> bool" where
  "is_ascii c = (of_char c < (128 :: nat))"

function skip_ws :: "string \<Rightarrow> string" where
  "skip_ws s = (if ws_len s = 0 then s else skip_ws (drop (ws_len s) s))"
  by pat_completeness auto
termination
  by (relation "measure length") (auto simp: ws_len_def split: list.splits if_splits)

declare skip_ws.simps [simp del]

fun has_ws :: "string \<Rightarrow> bool" where
  "has_ws [] = False"
| "has_ws (c # cs) = (0 < ws_len (c # cs) \<or> has_ws cs)"

fun trim_end :: "string \<Rightarrow> string" where
  "trim_end [] = []"
| "trim_end (c # cs) = (if skip_ws (c # cs) = [] then [] else c # trim_end cs)"

definition trim :: "string \<Rightarrow> string" where
  "trim s = trim_end (skip_ws s)"

lemmas [string_defs] =
  ascii_lower_def to_lower_def starts_with_def split_once_def rsplit_once_def replace_char_def
  ascii_ws_def ws2_def ws3_def ws_len_def trim_def is_ascii_def

lemma ws_len_Nil [simp]: "ws_len [] = 0"
  by (simp add: ws_len_def)

lemma skip_ws_Nil [simp]: "skip_ws [] = []"
  by (subst skip_ws.simps) simp

lemma skip_ws_none: "ws_len s = 0 \<Longrightarrow> skip_ws s = s"
  by (subst skip_ws.simps) simp

lemma ws2_not_ascii: "ws2 a b \<Longrightarrow> \<not> is_ascii a \<and> \<not> is_ascii b"
  unfolding ws2_def by (elim conjE) (auto simp: is_ascii_def)

lemma ws3_not_ascii: "ws3 a b c \<Longrightarrow> \<not> is_ascii a \<and> \<not> is_ascii b \<and> \<not> is_ascii c"
  unfolding ws3_def by (elim disjE conjE) (auto simp: is_ascii_def)

text \<open>
  A multi-byte white-space character never extends over an ASCII byte, so what follows an ASCII
  byte does not change how the text before it is read.
\<close>

lemma ws_len_before_ascii:
  assumes "is_ascii c" and "xs \<noteq> []"
  shows "ws_len (xs @ c # ys) = ws_len xs"
proof -
  from assms(2) obtain a t where xs: "xs = a # t" by (cases xs) auto
  show ?thesis
  proof (cases t)
    case Nil
    with xs assms(1) show ?thesis
      by (auto simp: ws_len_def dest: ws2_not_ascii ws3_not_ascii split: list.splits)
  next
    case (Cons b u)
    with xs assms(1) show ?thesis
      by (cases u) (auto simp: ws_len_def dest: ws3_not_ascii)
  qed
qed

lemma ws_len_ascii: "is_ascii c \<Longrightarrow> \<not> ascii_ws c \<Longrightarrow> ws_len (c # s) = 0"
  by (auto simp: ws_len_def dest: ws2_not_ascii ws3_not_ascii split: list.splits)

lemma ws_len_space [simp]: "ws_len (space # s) = 1"
  by (simp add: ws_len_def ascii_ws_def)

lemma is_ascii_simps [simp]:
  "is_ascii dquote" "is_ascii squote" "is_ascii backslash" "is_ascii space" "is_ascii equals_sign"
  "is_ascii (CHR 0x2E)" "is_ascii (CHR 0x2C)"
  by (simp_all add: is_ascii_def)

lemma skip_ws_space: "skip_ws (space # s) = skip_ws s"
  by (subst skip_ws.simps) simp

subsection \<open>Splitting and joining\<close>

lemma split_once_Some:
  "split_once c s = Some (a, b) \<longleftrightarrow> s = a @ c # b \<and> c \<notin> set a"
proof
  assume "split_once c s = Some (a, b)"
  then have c: "c \<in> set s" and a: "a = takeWhile (\<lambda>x. x \<noteq> c) s"
    and b: "b = tl (dropWhile (\<lambda>x. x \<noteq> c) s)"
    by (auto simp: split_once_def split: if_splits)
  from c have "dropWhile (\<lambda>x. x \<noteq> c) s \<noteq> []" by (auto simp: dropWhile_eq_Nil_conv)
  moreover from this have "hd (dropWhile (\<lambda>x. x \<noteq> c) s) = c"
    using hd_dropWhile [of "\<lambda>x. x \<noteq> c" s] by simp
  ultimately have "dropWhile (\<lambda>x. x \<noteq> c) s = c # b" using b by (metis list.collapse)
  then have "s = a @ c # b" using a takeWhile_dropWhile_id [of "\<lambda>x. x \<noteq> c" s] by simp
  moreover have "c \<notin> set a" using a by (auto dest: set_takeWhileD)
  ultimately show "s = a @ c # b \<and> c \<notin> set a" by simp
next
  assume s: "s = a @ c # b \<and> c \<notin> set a"
  then have a: "\<forall>x\<in>set a. x \<noteq> c" by auto
  then have "takeWhile (\<lambda>x. x \<noteq> c) s = a" using s by (simp add: takeWhile_append)
  moreover from s a have "dropWhile (\<lambda>x. x \<noteq> c) s = c # b"
    by (simp add: dropWhile_append)
  ultimately show "split_once c s = Some (a, b)" using s by (simp add: split_once_def)
qed

lemma split_once_None: "split_once c s = None \<longleftrightarrow> c \<notin> set s"
  by (simp add: split_once_def)

lemma rsplit_once_Some:
  "rsplit_once c s = Some (a, b) \<longleftrightarrow> s = a @ c # b \<and> c \<notin> set b"
proof -
  have "rsplit_once c s = Some (a, b) \<longleftrightarrow> split_once c (rev s) = Some (rev b, rev a)"
    by (auto simp: rsplit_once_def split: option.splits)
  also have "\<dots> \<longleftrightarrow> rev s = rev b @ c # rev a \<and> c \<notin> set b"
    by (simp add: split_once_Some)
  also have "rev s = rev b @ c # rev a \<longleftrightarrow> s = a @ c # b"
    by (metis append.assoc append_Cons append_Nil rev_append rev_rev_ident rev_singleton_conv rev.simps(2))
  finally show ?thesis .
qed

lemma rsplit_once_None: "rsplit_once c s = None \<longleftrightarrow> c \<notin> set s"
  by (auto simp: rsplit_once_def split_once_def split: option.splits)

lemma split_on_nonempty [simp]: "split_on c s \<noteq> []"
  by (cases s) (auto split: list.splits)

lemma split_on_no_sep: "c \<notin> set s \<Longrightarrow> split_on c s = [s]"
  by (induction s) auto

lemma split_on_pieces: "x \<in> set (split_on c s) \<Longrightarrow> c \<notin> set x"
proof (induction s arbitrary: x)
  case Nil
  then show ?case by simp
next
  case (Cons a s)
  obtain y ys where y: "split_on c s = y # ys" by (metis list.exhaust split_on_nonempty)
  with Cons show ?case by (auto split: if_splits)
qed

lemma split_on_append: "c \<notin> set x \<Longrightarrow> split_on c (x @ c # s) = x # split_on c s"
  by (induction x) auto

lemma split_on_join:
  "xs \<noteq> [] \<Longrightarrow> \<forall>x\<in>set xs. c \<notin> set x \<Longrightarrow> split_on c (join [c] xs) = xs"
  by (induction "[c]" xs rule: join.induct) (auto simp: split_on_no_sep split_on_append)

lemma join_split_on: "join [c] (split_on c s) = s"
proof (induction s)
  case Nil
  show ?case by simp
next
  case (Cons a s)
  obtain y ys where y: "split_on c s = y # ys" by (metis list.exhaust split_on_nonempty)
  with Cons show ?case by (cases ys) auto
qed

lemma dec_nonempty [simp]: "dec n \<noteq> []"
  by (subst dec.simps) simp

subsection \<open>Reading numbers back\<close>

text \<open>The number a string of decimal digits stands for, leading zeros allowed.\<close>

definition read_nat :: "string \<Rightarrow> nat" where
  "read_nat s = foldl (\<lambda>n c. n * 10 + (of_char c - 48)) 0 s"

lemma dec_digits: "c \<in> set (dec n) \<Longrightarrow> of_char c \<in> {48..57::nat}"
proof (induction n rule: dec.induct)
  case (1 n)
  have "of_char (char_of (48 + m) :: char) = 48 + m" if "m < 10" for m :: nat
    using that by simp
  with 1 show ?case by (subst (asm) dec.simps) (auto split: if_splits)
qed

lemma read_nat_append: "read_nat (xs @ [c]) = read_nat xs * 10 + (of_char c - 48)"
  by (simp add: read_nat_def)

lemma read_nat_dec [simp]: "read_nat (dec n) = n"
proof (induction n rule: dec.induct)
  case (1 n)
  show ?case
  proof (cases "n < 10")
    case True
    then show ?thesis by (subst dec.simps) (simp add: read_nat_def)
  next
    case False
    with 1 show ?thesis by (subst dec.simps) (simp add: read_nat_append)
  qed
qed

section \<open>Results\<close>

text \<open>\<open>r?\<close>: an error returns at once.\<close>

definition and_then :: "'e + 'a \<Rightarrow> ('a \<Rightarrow> 'e + 'b) \<Rightarrow> 'e + 'b" where
  "and_then r f = (case r of Inl e \<Rightarrow> Inl e | Inr x \<Rightarrow> f x)"

lemma and_then_simps [simp]: "and_then (Inl e) f = Inl e" "and_then (Inr x) f = f x"
  by (simp_all add: and_then_def)

lemma and_then_Inr: "and_then r f = Inr y \<longleftrightarrow> (\<exists>x. r = Inr x \<and> f x = Inr y)"
  by (cases r) simp_all

lemma map_sum_Inr: "map_sum f g r = Inr y \<longleftrightarrow> (\<exists>x. r = Inr x \<and> y = g x)"
  by (cases r) auto

end
