(* ===== verification/Binary64.thy ===== *)
theory Binary64
  imports "HOL-Library.Log_Nat"
    Rust_Prelude
begin

text \<open>
  Rounding to IEEE binary64, the format of Rust's \<open>f64\<close> and of PostgreSQL's \<open>float8\<close>: \<open>rnd\<close> takes the exact
  result of an operation to the nearest number of the format, ties to even, with subnormal numbers; overflow
  is the concern of the type \<open>f64\<close> (theory \<open>Rust_Numbers\<close>). Proved here: rounding is monotone and odd,
  leaves the numbers of the format alone (so all integers up to 2 to the 53), and moves no number below a power of
  two by more than half of the spacing there.
\<close>

section \<open>Definitions\<close>

text \<open>The exponent of a positive number in a base: \<open>b powi e \<le> a < b powi (e + 1)\<close>.\<close>

definition exponent_of :: "nat \<Rightarrow> rat \<Rightarrow> int" where
  "exponent_of b a =
     (if 1 \<le> a then int (floorlog b (nat \<lfloor>a\<rfloor>)) - 1 else - int (floorlog b (nat (\<lceil>1 / a\<rceil> - 1))))"

definition round_even :: "rat \<Rightarrow> int" where
  "round_even r =
     (let n = \<lfloor>r\<rfloor>; d = r - of_int n
      in if d < 1 / 2 then n else if 1 / 2 < d then n + 1 else if even n then n else n + 1)"

text \<open>The distance of neighbouring numbers of the format at \<open>a > 0\<close>.\<close>

definition spacing :: "rat \<Rightarrow> rat" where
  "spacing a = 2 powi max (exponent_of 2 a - 52) (-1074)"

definition rnd_pos :: "rat \<Rightarrow> rat" where
  "rnd_pos a = of_int (round_even (a / spacing a)) * spacing a"

definition rnd :: "rat \<Rightarrow> rat" where
  "rnd r = (if r = 0 then 0 else if 0 < r then rnd_pos r else - rnd_pos (- r))"

section \<open>Rounding to an integer\<close>

lemma round_even_near: "\<bar>of_int (round_even r) - r\<bar> \<le> 1 / 2"
proof -
  have "of_int \<lfloor>r\<rfloor> \<le> r" "r < of_int \<lfloor>r\<rfloor> + 1" by linarith+
  then show ?thesis by (auto simp: round_even_def Let_def abs_le_iff)
qed

lemma round_even_of_int [simp]: "round_even (of_int k) = k"
  by (simp add: round_even_def)

lemma round_even_mono:
  assumes "x \<le> y"
  shows "round_even x \<le> round_even y"
proof (cases "\<lfloor>x\<rfloor> = \<lfloor>y\<rfloor>")
  case True
  with assms show ?thesis by (auto simp: round_even_def Let_def)
next
  case False
  with floor_mono [OF assms] have "\<lfloor>x\<rfloor> + 1 \<le> \<lfloor>y\<rfloor>" by linarith
  moreover have "round_even x \<le> \<lfloor>x\<rfloor> + 1" "\<lfloor>y\<rfloor> \<le> round_even y"
    by (auto simp: round_even_def Let_def)
  ultimately show ?thesis by linarith
qed

section \<open>The exponent\<close>

lemma floorlog_rat:
  assumes "0 < n" "1 < b"
  shows "(of_nat b :: rat) ^ (floorlog b n - 1) \<le> of_nat n" "of_nat n < (of_nat b :: rat) ^ floorlog b n"
    "(of_nat n :: rat) + 1 \<le> of_nat b ^ floorlog b n" "0 < floorlog b n"
proof -
  from floorlog_bounds [OF assms] have n: "b ^ (floorlog b n - 1) \<le> n" "n < b ^ floorlog b n" by blast+
  then show "(of_nat b :: rat) ^ (floorlog b n - 1) \<le> of_nat n" "of_nat n < (of_nat b :: rat) ^ floorlog b n"
    by (metis of_nat_le_iff of_nat_power, metis of_nat_less_iff of_nat_power)
  from n(2) have "n + 1 \<le> b ^ floorlog b n" by simp
  then show "(of_nat n :: rat) + 1 \<le> of_nat b ^ floorlog b n" by (metis of_nat_1 of_nat_add of_nat_le_iff of_nat_power)
  show "0 < floorlog b n" using assms by (metis floorlog_eq_zero_iff gr0I not_le)
qed

lemma powi_nat_pred: "0 < m \<Longrightarrow> (b :: rat) powi (int m - 1) = b ^ (m - 1)"
  by (metis One_nat_def Suc_leI of_nat_1 of_nat_diff power_int_of_nat)

lemma exponent_of_large:
  assumes "1 \<le> a" "1 < b"
  shows "of_nat b powi exponent_of b a \<le> a \<and> a < of_nat b powi (exponent_of b a + 1)"
proof -
  let ?n = "nat \<lfloor>a\<rfloor>"
  from assms(1) have "1 \<le> \<lfloor>a\<rfloor>" by simp
  then have n: "0 < ?n" "of_nat ?n \<le> a" "a < of_nat ?n + 1" by (simp, linarith+)
  note log = floorlog_rat [OF n(1) assms(2)]
  have "of_nat b powi (int (floorlog b ?n) - 1) \<le> a"
    using log(1) n(2) by (simp add: powi_nat_pred [OF log(4)])
  moreover have "a < of_nat b ^ floorlog b ?n" using log(3) n(3) by linarith
  ultimately show ?thesis using assms(1) by (simp add: exponent_of_def)
qed

lemma exponent_of_small:
  assumes "0 < a" "a < 1" "1 < b"
  shows "of_nat b powi exponent_of b a \<le> a \<and> a < of_nat b powi (exponent_of b a + 1)"
proof -
  let ?c = "\<lceil>1 / a\<rceil>" and ?n = "nat (\<lceil>1 / a\<rceil> - 1)"
  have "1 < 1 / a" using assms by simp
  then have "2 \<le> ?c" by linarith
  then have n: "0 < ?n" "1 / a \<le> of_nat ?n + 1" "of_nat ?n < 1 / a" by (simp, linarith+)
  note log = floorlog_rat [OF n(1) assms(3)]
  have "1 / a \<le> of_nat b ^ floorlog b ?n" using log(3) n(2) by linarith
  then have lo: "of_nat b powi - int (floorlog b ?n) \<le> a"
    using assms(1,3) by (simp add: power_int_minus field_simps)
  have "of_nat b ^ (floorlog b ?n - 1) < 1 / a" using log(1) n(3) by linarith
  then have "a < of_nat b powi - (int (floorlog b ?n) - 1)"
    using assms(1,3) unfolding power_int_minus powi_nat_pred [OF log(4)] by (simp add: field_simps)
  then have "a < of_nat b powi (- int (floorlog b ?n) + 1)" by simp
  with lo assms(2) show ?thesis by (simp add: exponent_of_def)
qed

lemma exponent_of_bounds:
  assumes "0 < a" "1 < b"
  shows "of_nat b powi exponent_of b a \<le> a" "a < of_nat b powi (exponent_of b a + 1)"
  using exponent_of_large exponent_of_small assms by (metis not_le)+

lemma exponent_2:
  assumes "0 < a"
  shows "2 powi exponent_of 2 a \<le> a" "a < 2 powi (exponent_of 2 a + 1)"
  using exponent_of_bounds [OF assms, of 2] by simp_all

lemma exponent_of_mono:
  assumes "0 < a" "a \<le> c"
  shows "exponent_of 2 a \<le> exponent_of 2 c"
proof (rule ccontr)
  assume "\<not> ?thesis"
  then have "(2 :: rat) powi (exponent_of 2 c + 1) \<le> 2 powi exponent_of 2 a"
    by (intro power_int_increasing) auto
  with exponent_2 [of a] exponent_2 [of c] assms show False by linarith
qed

lemma exponent_of_less:
  assumes "0 < a" "a < 2 powi z"
  shows "exponent_of 2 a < z"
proof (rule ccontr)
  assume "\<not> ?thesis"
  then have "(2 :: rat) powi z \<le> 2 powi exponent_of 2 a" by (intro power_int_increasing) auto
  with exponent_2 [OF assms(1)] assms(2) show False by linarith
qed

section \<open>Rounding to the format\<close>

text \<open>The numbers of the format, without a bound on the exponent from above.\<close>

definition binary64 :: "rat \<Rightarrow> bool" where
  "binary64 r \<longleftrightarrow> (\<exists>m z. r = of_int m * 2 powi z \<and> \<bar>m\<bar> \<le> 2 ^ 53 \<and> -1074 \<le> z)"

lemma binary64I: "r = of_int m * 2 powi z \<Longrightarrow> \<bar>m\<bar> \<le> 2 ^ 53 \<Longrightarrow> -1074 \<le> z \<Longrightarrow> binary64 r"
  unfolding binary64_def by blast

lemma binary64_uminus:
  assumes "binary64 r"
  shows "binary64 (- r)"
proof -
  from assms obtain m z where "r = of_int m * 2 powi z" "\<bar>m\<bar> \<le> 2 ^ 53" "-1074 \<le> z"
    unfolding binary64_def by blast
  then show ?thesis by (intro binary64I [of _ "- m" z]) simp_all
qed

lemma binary64_of_int: "\<bar>k\<bar> \<le> 2 ^ 53 \<Longrightarrow> binary64 (of_int k)"
  by (rule binary64I [of _ k 0]) simp_all

lemma binary64_power: "-1074 \<le> z \<Longrightarrow> binary64 (2 powi z)"
  by (rule binary64I [of _ 1 z]) simp_all

lemma spacing_pos: "0 < spacing a"
  by (simp add: spacing_def)

lemma spacing_mono: "0 < a \<Longrightarrow> a \<le> c \<Longrightarrow> spacing a \<le> spacing c"
  unfolding spacing_def by (intro power_int_increasing max.mono) (simp_all add: exponent_of_mono)

lemma multiple_of_spacing:
  assumes "max (exponent_of 2 a - 52) (-1074) \<le> z"
  shows "\<exists>k. of_int m * 2 powi z / spacing a = of_int k"
proof -
  let ?q = "max (exponent_of 2 a - 52) (-1074)"
  have "2 powi z / spacing a = (2 :: rat) powi (z - ?q)"
    unfolding spacing_def by (simp add: power_int_diff)
  also have "\<dots> = of_int (2 ^ nat (z - ?q))" using assms by (simp add: power_int_nonneg_exp)
  finally show ?thesis by (metis of_int_mult times_divide_eq_right)
qed

lemma rnd_pos_exact:
  assumes "of_int k = a / spacing a"
  shows "rnd_pos a = a"
  using spacing_pos [of a] by (simp add: rnd_pos_def flip: assms) (simp add: assms)

lemma rnd_pos_fix:
  assumes "0 < a" "binary64 a"
  shows "rnd_pos a = a"
proof -
  from assms(2) obtain m z where a: "a = of_int m * 2 powi z" "\<bar>m\<bar> \<le> 2 ^ 53" "-1074 \<le> z"
    unfolding binary64_def by blast
  have "\<exists>m z. a = of_int m * 2 powi z \<and> \<bar>m\<bar> < 2 ^ 53 \<and> -1074 \<le> z"
  proof (cases "\<bar>m\<bar> = 2 ^ 53")
    case True
    then have "m = 2 ^ 53 \<or> m = - (2 ^ 53)" by linarith
    moreover have "0 < (of_int m :: rat)"
      using assms(1) unfolding a(1) by (rule zero_less_mult_pos2) simp
    ultimately have "m = 2 ^ 53" by auto
    then have "a = of_int (2 ^ 52) * 2 powi (z + 1)" unfolding a(1) by (simp add: power_int_add)
    moreover have "\<bar>2 ^ 52 :: int\<bar> < 2 ^ 53" "-1074 \<le> z + 1" using a(3) by simp_all
    ultimately show ?thesis by blast
  next
    case False
    with a(2) have "\<bar>m\<bar> < 2 ^ 53" by linarith
    with a(1,3) show ?thesis by blast
  qed
  then obtain n y where n: "a = of_int n * 2 powi y" "\<bar>n\<bar> < 2 ^ 53" "-1074 \<le> y" by blast
  have "(of_int n :: rat) < of_int (2 ^ 53)" using n(2) by (intro iffD2 [OF of_int_less_iff]) simp
  then have "a < 2 ^ 53 * 2 powi y" unfolding n(1) by (intro mult_strict_right_mono) simp_all
  also have "\<dots> = 2 powi (53 + y)" by (simp add: power_int_add)
  finally have "exponent_of 2 a < 53 + y" by (rule exponent_of_less [OF assms(1)])
  then obtain k where "a / spacing a = of_int k"
    using multiple_of_spacing [of a y n] n(1,3) by auto
  then show ?thesis by (metis rnd_pos_exact)
qed

text \<open>Rounding stays on its side of every power of two.\<close>

lemma rnd_pos_mono:
  assumes "0 < a" "a \<le> c"
  shows "rnd_pos a \<le> rnd_pos c"
proof (cases "spacing a = spacing c")
  case True
  have "a / spacing c \<le> c / spacing c" using assms(2) spacing_pos by (simp add: divide_right_mono less_imp_le)
  with True show ?thesis
    unfolding rnd_pos_def by (simp add: mult_right_mono round_even_mono spacing_pos less_imp_le)
next
  case False
  let ?p = "2 powi exponent_of 2 c :: rat"
  from False have "exponent_of 2 a \<noteq> exponent_of 2 c" by (auto simp: spacing_def)
  with exponent_of_mono [OF assms] have less: "exponent_of 2 a < exponent_of 2 c" by simp
  with False have norm: "-1074 < exponent_of 2 c - 52" by (auto simp: spacing_def max_def split: if_splits)
  have pow: "\<exists>k. ?p / spacing b = of_int k" if "b = a \<or> b = c" for b
    using that less norm multiple_of_spacing [of b "exponent_of 2 c" 1] by auto
  have "a < 2 powi (exponent_of 2 a + 1)" by (rule exponent_2(2) [OF assms(1)])
  also have "\<dots> \<le> ?p" using less by (intro power_int_increasing) auto
  finally have "a / spacing a \<le> ?p / spacing a" using spacing_pos by (simp add: divide_right_mono less_imp_le)
  then have "of_int (round_even (a / spacing a)) \<le> ?p / spacing a"
    using pow [of a] round_even_mono [of "a / spacing a" "?p / spacing a"] by auto
  then have up: "rnd_pos a \<le> ?p" unfolding rnd_pos_def by (simp add: pos_le_divide_eq spacing_pos)
  have "0 < c" using assms by linarith
  then have "?p / spacing c \<le> c / spacing c"
    using exponent_2(1) spacing_pos by (simp add: divide_right_mono less_imp_le)
  then have "?p / spacing c \<le> of_int (round_even (c / spacing c))"
    using pow [of c] round_even_mono [of "?p / spacing c" "c / spacing c"] by auto
  then have "?p \<le> rnd_pos c" unfolding rnd_pos_def by (simp add: pos_divide_le_eq spacing_pos)
  with up show ?thesis by linarith
qed

lemma rnd_pos_nonneg:
  assumes "0 < a"
  shows "0 \<le> rnd_pos a"
proof -
  have "round_even (of_int 0) \<le> round_even (a / spacing a)"
    using assms spacing_pos [of a] by (intro round_even_mono) simp
  then show ?thesis unfolding rnd_pos_def round_even_of_int
    by (simp add: spacing_pos less_imp_le)
qed

lemma rnd_uminus: "rnd (- r) = - rnd r"
  by (simp add: rnd_def)

lemma rnd_zero [simp]: "rnd 0 = 0"
  by (simp add: rnd_def)

lemma rnd_nonneg: "0 \<le> r \<Longrightarrow> 0 \<le> rnd r"
  by (simp add: rnd_def rnd_pos_nonneg)

lemma rnd_fix:
  assumes "binary64 r"
  shows "rnd r = r"
  using assms rnd_pos_fix [of r] rnd_pos_fix [of "- r"] binary64_uminus [of r] by (auto simp: rnd_def)

lemma rnd_mono:
  assumes "x \<le> y"
  shows "rnd x \<le> rnd y"
proof -
  have "- rnd_pos (- x) \<le> - rnd_pos (- y)" if "y < 0"
    using that assms by (simp add: rnd_pos_mono)
  moreover have "rnd x \<le> 0 \<and> 0 \<le> rnd y" if "x \<le> 0" "0 \<le> y"
    using that rnd_nonneg [of y] rnd_nonneg [of "- x"] by (simp add: rnd_uminus)
  moreover have "rnd x \<le> rnd y" if "0 < x" using that assms by (simp add: rnd_def rnd_pos_mono)
  ultimately show ?thesis
    using assms by (cases "0 < x"; cases "y < 0") (fastforce simp: rnd_def)+
qed

lemma rnd_le: "x \<le> c \<Longrightarrow> binary64 c \<Longrightarrow> rnd x \<le> c"
  using rnd_mono rnd_fix by metis

lemma rnd_ge: "c \<le> x \<Longrightarrow> binary64 c \<Longrightarrow> c \<le> rnd x"
  using rnd_mono rnd_fix by metis

lemma rnd_of_int: "\<bar>k\<bar> \<le> 2 ^ 53 \<Longrightarrow> rnd (of_int k) = of_int k"
  by (intro rnd_fix binary64_of_int)

lemma rnd_numerals [simp]:
  "rnd 1 = 1" "numeral n \<le> (2 ^ 53 :: int) \<Longrightarrow> rnd (numeral n) = numeral n"
  using rnd_of_int [of 1] rnd_of_int [of "numeral n"] by simp_all

lemma rnd_pos_error: "\<bar>rnd_pos a - a\<bar> \<le> spacing a / 2"
proof -
  let ?k = "of_int (round_even (a / spacing a)) :: rat"
  have "rnd_pos a - a = (?k - a / spacing a) * spacing a"
    using spacing_pos [of a] by (simp add: rnd_pos_def left_diff_distrib)
  then have "\<bar>rnd_pos a - a\<bar> = \<bar>?k - a / spacing a\<bar> * spacing a"
    using spacing_pos [of a] by (simp add: abs_mult)
  also have "\<dots> \<le> 1 / 2 * spacing a"
    using spacing_pos [of a] by (intro mult_right_mono round_even_near) simp
  finally show ?thesis by simp
qed

lemma rnd_error:
  assumes "0 \<le> r" "r \<le> 2 powi z" "-1021 \<le> z"
  shows "\<bar>rnd r - r\<bar> \<le> 2 powi (z - 54)"
proof (cases "r = 2 powi z \<or> r = 0")
  case True
  with assms(3) show ?thesis by (auto simp: rnd_fix binary64_power)
next
  case False
  with assms have r: "0 < r" "r < 2 powi z" by auto
  from exponent_of_less [OF this] assms(3) have "max (exponent_of 2 r - 52) (-1074) \<le> z - 53" by simp
  then have "spacing r \<le> 2 powi (z - 53)" unfolding spacing_def by (intro power_int_increasing) auto
  also have "\<dots> = 2 * 2 powi (z - 54)" using power_int_add_1' [of "2 :: rat" "z - 54"] by simp
  finally show ?thesis using rnd_pos_error [of r] r(1) by (simp add: rnd_def)
qed

lemma binary64_rnd_pos:
  assumes "0 < a"
  shows "binary64 (rnd_pos a)"
proof (rule binary64I)
  let ?q = "max (exponent_of 2 a - 52) (-1074)"
  show "rnd_pos a = of_int (round_even (a / spacing a)) * 2 powi ?q" by (simp add: rnd_pos_def spacing_def)
  have "a / spacing a < 2 powi (exponent_of 2 a + 1) / spacing a"
    using exponent_2(2) [OF assms] spacing_pos by (simp add: divide_strict_right_mono)
  also have "\<dots> = 2 powi (exponent_of 2 a + 1 - ?q)" unfolding spacing_def by (simp add: power_int_diff)
  also have "\<dots> \<le> 2 powi 53" by (intro power_int_increasing) auto
  finally have "a / spacing a \<le> of_int (2 ^ 53)" by simp
  from round_even_mono [OF this] have "round_even (a / spacing a) \<le> 2 ^ 53" unfolding round_even_of_int .
  moreover have "0 \<le> a / spacing a" using assms spacing_pos [of a] by simp
  then have "round_even (of_int 0) \<le> round_even (a / spacing a)" by (intro round_even_mono) simp
  ultimately show "\<bar>round_even (a / spacing a)\<bar> \<le> 2 ^ 53" unfolding round_even_of_int by linarith
qed simp

lemma binary64_rnd: "binary64 (rnd r)"
  using binary64_rnd_pos [of r] binary64_rnd_pos [of "- r"] binary64_of_int [of 0]
  by (auto simp: rnd_def intro: binary64_uminus)

lemma rnd_rnd [simp]: "rnd (rnd r) = rnd r"
  by (rule rnd_fix [OF binary64_rnd])

end
