(* ===== verification/Rust_Numbers.thy ===== *)
theory Rust_Numbers
  imports Binary64
begin

text \<open>
  The numbers of the Rust code: \<open>f64\<close> with its IEEE comparisons (NaN compares false with
  everything) and its arithmetic, rounded as in theory \<open>Binary64\<close> and infinite on overflow, the
  conversions between \<open>f64\<close> and \<open>i64\<close>, and the \<open>i64\<close> and \<open>u64\<close> operations that wrap or saturate.
  Negative zero is not distinguished from zero.
\<close>

section \<open>Floating point\<close>

datatype f64 = NaN | PInf | NInf | Fin rat

fun f64_le :: "f64 \<Rightarrow> f64 \<Rightarrow> bool" where
  "f64_le NaN y = False"
| "f64_le x NaN = False"
| "f64_le NInf y = True"
| "f64_le x PInf = True"
| "f64_le (Fin a) (Fin b) = (a \<le> b)"
| "f64_le x y = False"

fun f64_lt :: "f64 \<Rightarrow> f64 \<Rightarrow> bool" where
  "f64_lt NaN y = False"
| "f64_lt x NaN = False"
| "f64_lt NInf NInf = False"
| "f64_lt NInf y = True"
| "f64_lt PInf y = False"
| "f64_lt x PInf = True"
| "f64_lt (Fin a) (Fin b) = (a < b)"
| "f64_lt x y = False"

text \<open>
  The comparison operators of \<open>f64\<close> are not an order: NaN is not even below itself. So the type is
  an instance of the syntactic class only.
\<close>

instantiation f64 :: ord
begin

definition less_eq_f64 :: "f64 \<Rightarrow> f64 \<Rightarrow> bool" where "x \<le> y = f64_le x y"

definition less_f64 :: "f64 \<Rightarrow> f64 \<Rightarrow> bool" where "x < y = f64_lt x y"

instance ..

end

lemma f64_compare_simps [simp]:
  "(Fin a \<le> Fin b) = (a \<le> b)" "(Fin a < Fin b) = (a < b)"
  "\<not> NaN \<le> y" "\<not> y \<le> NaN" "\<not> NaN < y" "\<not> y < NaN"
  "Fin a \<le> PInf" "\<not> PInf \<le> Fin a" "NInf \<le> Fin a" "\<not> Fin a \<le> NInf"
  "Fin a < PInf" "\<not> PInf < Fin a" "NInf < Fin a" "\<not> Fin a < NInf"
  "PInf \<le> PInf" "NInf \<le> NInf" "NInf \<le> PInf" "\<not> PInf \<le> NInf"
  "\<not> PInf < y" "\<not> y < NInf" "NInf < PInf"
  by (cases y; simp add: less_eq_f64_def less_f64_def)+

lemma f64_not_le: "x \<noteq> NaN \<Longrightarrow> y \<noteq> NaN \<Longrightarrow> \<not> x \<le> y \<longleftrightarrow> y < (x :: f64)"
  by (cases x; cases y) (auto simp: less_eq_f64_def less_f64_def)

text \<open>\<open>f64::max\<close> returns the other operand when one is NaN.\<close>

definition f64_max :: "f64 \<Rightarrow> f64 \<Rightarrow> f64" where
  "f64_max x y = (if x = NaN then y else if y = NaN then x else if x \<le> y then y else x)"

text \<open>\<open>f64::total_cmp\<close>: NaN (positive, as databases send it) is above everything.\<close>

fun f64_total_le :: "f64 \<Rightarrow> f64 \<Rightarrow> bool" where
  "f64_total_le x NaN = True"
| "f64_total_le NaN y = False"
| "f64_total_le x y = (x \<le> y)"

text \<open>The \<open>f64\<close> nearest to the exact result of an operation; a result too large for the format is infinite.\<close>

definition f64_limit :: rat where "f64_limit = 2 ^ 1024"

definition f64_of :: "rat \<Rightarrow> f64" where
  "f64_of r =
     (if f64_limit \<le> rnd r then PInf else if rnd r \<le> - f64_limit then NInf else Fin (rnd r))"

text \<open>\<open>x as f64\<close> for an \<open>i64\<close>, which never overflows.\<close>

definition i64_as_f64 :: "int \<Rightarrow> rat" where
  "i64_as_f64 k = rnd (of_int k)"

text \<open>Multiplication and division by a finite number.\<close>

fun f64_times :: "f64 \<Rightarrow> rat \<Rightarrow> f64" where
  "f64_times NaN r = NaN"
| "f64_times (Fin a) r = f64_of (a * r)"
| "f64_times PInf r = (if r = 0 then NaN else if r > 0 then PInf else NInf)"
| "f64_times NInf r = (if r = 0 then NaN else if r > 0 then NInf else PInf)"

definition f64_over :: "f64 \<Rightarrow> rat \<Rightarrow> f64" where
  "f64_over x r = (case x of Fin a \<Rightarrow> f64_of (a / r) | y \<Rightarrow> f64_times y r)"

lemma i64_as_f64_exact: "0 \<le> x \<Longrightarrow> x \<le> 2 ^ 53 \<Longrightarrow> i64_as_f64 x = of_int x"
  by (simp add: i64_as_f64_def rnd_of_int)

lemma f64_of_mono: "x \<le> y \<Longrightarrow> f64_of x \<le> f64_of y"
  using rnd_mono [of x y] by (auto simp: f64_of_def)

lemma f64_of_not_NaN [simp]: "f64_of r \<noteq> NaN"
  by (simp add: f64_of_def)

lemma f64_of_between [simp]: "NInf \<le> f64_of r" "f64_of r \<le> PInf"
  by (simp_all add: f64_of_def)

lemma f64_limit_pos: "0 < f64_limit"
  by (simp add: f64_limit_def)

lemma f64_of_less: "f64_of x < Fin y \<Longrightarrow> 0 \<le> rnd x \<Longrightarrow> rnd x < y"
  using f64_limit_pos by (auto simp: f64_of_def split: if_splits)

lemma f64_of_small: "\<bar>rnd r\<bar> < f64_limit \<Longrightarrow> f64_of r = Fin (rnd r)"
  by (auto simp: f64_of_def abs_less_iff)

lemma f64_of_fix: "binary64 r \<Longrightarrow> \<bar>r\<bar> < f64_limit \<Longrightarrow> f64_of r = Fin r"
  by (simp add: f64_of_small rnd_fix)

lemma f64_of_of_int:
  assumes "\<bar>k\<bar> \<le> 2 ^ 53"
  shows "f64_of (of_int k) = Fin (of_int k)"
proof (rule f64_of_fix [OF binary64_of_int [OF assms]])
  have "of_int \<bar>k\<bar> \<le> (of_int (2 ^ 53) :: rat)" using assms by (simp only: of_int_le_iff)
  then show "\<bar>of_int k :: rat\<bar> < f64_limit" by (simp add: f64_limit_def)
qed

lemma f64_of_numerals [simp]:
  "f64_of 0 = Fin 0" "f64_of 1 = Fin 1" "numeral n \<le> (2 ^ 53 :: int) \<Longrightarrow> f64_of (numeral n) = Fin (numeral n)"
  using f64_of_of_int [of 0] f64_of_of_int [of 1] f64_of_of_int [of "numeral n"] by simp_all

lemma f64_of_nonneg: "0 \<le> r \<Longrightarrow> Fin 0 \<le> f64_of r"
  using f64_of_mono [of 0 r] by simp

lemma f64_times_mono:
  assumes "x \<le> y" "0 < r"
  shows "f64_times x r \<le> f64_times y r"
  using assms by (cases x; cases y) (auto simp: mult_right_mono intro!: f64_of_mono)

section \<open>Machine integers\<close>

definition i64_max :: int where "i64_max = 9223372036854775807"
definition i64_min :: int where "i64_min = -9223372036854775808"
definition i32_max :: int where "i32_max = 2147483647"
definition u64_max :: nat where "u64_max = 18446744073709551615"

definition in_i64 :: "int \<Rightarrow> bool" where
  "in_i64 x = (i64_min \<le> x \<and> x \<le> i64_max)"

definition i64_clamp :: "int \<Rightarrow> int" where
  "i64_clamp x = max i64_min (min i64_max x)"

text \<open>Two's complement wrap-around, as \<open>+\<close> on \<open>i64\<close> does in a release build.\<close>

definition i64_wrap :: "int \<Rightarrow> int" where
  "i64_wrap x = (x + 9223372036854775808) mod 18446744073709551616 - 9223372036854775808"

definition i64_add :: "int \<Rightarrow> int \<Rightarrow> int" where "i64_add a b = i64_wrap (a + b)"

definition i64_saturating_sub :: "int \<Rightarrow> int \<Rightarrow> int" where
  "i64_saturating_sub a b = i64_clamp (a - b)"

definition u64_saturating_mul :: "nat \<Rightarrow> nat \<Rightarrow> nat" where
  "u64_saturating_mul a b = min u64_max (a * b)"

definition u64_wrapping_add :: "nat \<Rightarrow> nat \<Rightarrow> nat" where
  "u64_wrapping_add a b = (a + b) mod 18446744073709551616"

lemma i64_wrap_id: "in_i64 x \<Longrightarrow> i64_wrap x = x"
  by (simp add: i64_wrap_def in_i64_def i64_min_def i64_max_def)

lemma i64_wrap_range: "in_i64 (i64_wrap x)"
proof -
  have "0 \<le> (x + 9223372036854775808) mod 18446744073709551616"
    and "(x + 9223372036854775808) mod 18446744073709551616 < 18446744073709551616" by simp_all
  then show ?thesis
    unfolding in_i64_def i64_wrap_def i64_min_def i64_max_def by linarith
qed

lemma i64_clamp_id: "in_i64 x \<Longrightarrow> i64_clamp x = x"
  by (simp add: i64_clamp_def in_i64_def)

lemma i64_clamp_range: "in_i64 (i64_clamp x)"
  by (auto simp: i64_clamp_def in_i64_def i64_min_def i64_max_def)

text \<open>Rust's \<open>as i64\<close> on floats truncates towards zero and saturates; NaN becomes 0.\<close>

definition rat_trunc :: "rat \<Rightarrow> int" where
  "rat_trunc r = (if r \<ge> 0 then \<lfloor>r\<rfloor> else \<lceil>r\<rceil>)"

fun f64_as_i64 :: "f64 \<Rightarrow> int" where
  "f64_as_i64 NaN = 0"
| "f64_as_i64 PInf = i64_max"
| "f64_as_i64 NInf = i64_min"
| "f64_as_i64 (Fin r) = i64_clamp (rat_trunc r)"

text \<open>\<open>f64::round\<close>: to the nearest integer, halves away from zero.\<close>

definition rat_round :: "rat \<Rightarrow> rat" where
  "rat_round r = of_int (if r \<ge> 0 then \<lfloor>r + 1 / 2\<rfloor> else \<lceil>r - 1 / 2\<rceil>)"

fun f64_round :: "f64 \<Rightarrow> f64" where
  "f64_round (Fin r) = Fin (rat_round r)"
| "f64_round x = x"

lemma f64_as_i64_range: "in_i64 (f64_as_i64 x)"
  by (cases x) (simp_all add: i64_clamp_range, simp_all add: in_i64_def i64_min_def i64_max_def)

lemma rat_trunc_mono: "x \<le> y \<Longrightarrow> rat_trunc x \<le> rat_trunc y"
  unfolding rat_trunc_def
  by (auto intro: floor_mono ceiling_mono)
    (meson ceiling_le_zero le_less_linear less_imp_le order_trans zero_le_floor)

lemma i64_clamp_mono: "x \<le> y \<Longrightarrow> i64_clamp x \<le> i64_clamp y"
  by (auto simp: i64_clamp_def)

lemma f64_as_i64_mono: "x \<le> y \<Longrightarrow> f64_as_i64 x \<le> f64_as_i64 y"
proof -
  have hi: "i64_clamp z \<le> i64_max" and lo: "i64_min \<le> i64_clamp z" for z
    using i64_clamp_range [of z] by (auto simp: in_i64_def)
  have mm: "i64_min \<le> i64_max" by (simp add: i64_min_def i64_max_def)
  assume "x \<le> y"
  then show ?thesis
    by (cases x; cases y)
      (auto simp: hi lo mm intro: i64_clamp_mono rat_trunc_mono)
qed

lemma rat_trunc_of_int [simp]: "rat_trunc (of_int k) = k"
  by (simp add: rat_trunc_def)

end
