(* ===== verification/Float_Text.thy ===== *)
theory Float_Text
  imports Rust_Numbers
begin

text \<open>
  Floating-point numbers as text. \<open>show_f64\<close> is \<open>Display\<close> of an \<open>f64\<close> (\<open>format!("{x}")\<close>): the shortest decimal
  from which the number can be recovered, never with an exponent. \<open>show_fixed\<close> is \<open>format!("{x:.p}")\<close>: the exact
  value rounded to \<open>p\<close> digits after the point, ties to even. Proved here: the shortest decimal exists with at
  most 17 digits, and reading the text of a number back gives that number again.
\<close>

section \<open>Decimals\<close>

text \<open>The decimal \<open>m / 10 ^ p\<close> with \<open>p\<close> digits after the point.\<close>

definition dec_pad :: "nat \<Rightarrow> nat \<Rightarrow> string" where
  "dec_pad p n = replicate (p - length (dec n)) (CHR ''0'') @ dec n"

definition decimal_text :: "nat \<Rightarrow> nat \<Rightarrow> string" where
  "decimal_text p m =
     (if p = 0 then dec m else dec (m div 10 ^ p) @ ''.'' @ dec_pad p (m mod 10 ^ p))"

text \<open>The neighbours of \<open>a > 0\<close> among the decimals of \<open>n\<close> digits, as a whole number of units.\<close>

definition unit_exponent :: "nat \<Rightarrow> rat \<Rightarrow> int" where
  "unit_exponent n a = exponent_of 10 a - int n + 1"

definition decimal_value :: "int \<Rightarrow> int \<Rightarrow> rat" where
  "decimal_value m k = of_int m * 10 powi k"

definition recovers :: "rat \<Rightarrow> int \<Rightarrow> int \<Rightarrow> bool" where
  "recovers a k m = (rnd (decimal_value m k) = a)"

text \<open>The digits of \<open>a\<close> when \<open>n\<close> of them are enough: the closer of the neighbours from which \<open>a\<close> is recovered.\<close>

definition shortest_at :: "nat \<Rightarrow> rat \<Rightarrow> int option" where
  "shortest_at n a =
     (let k = unit_exponent n a; x = a / 10 powi k; m = \<lfloor>x\<rfloor>
      in if recovers a k m \<and> (\<not> recovers a k (m + 1) \<or> x - of_int m < 1 / 2) then Some m
         else if recovers a k (m + 1) then Some (m + 1)
         else None)"

definition shortest :: "rat \<Rightarrow> int \<times> int" where
  "shortest a =
     (case find (\<lambda>n. shortest_at n a \<noteq> None) [1..<18] of
        Some n \<Rightarrow> (the (shortest_at n a), unit_exponent n a)
      | None \<Rightarrow> (0, 0))"

definition show_positive :: "rat \<Rightarrow> string" where
  "show_positive a =
     (let (m, k) = shortest a
      in if 0 \<le> k then dec (nat m * 10 ^ nat k) else decimal_text (nat (- k)) (nat m))"

fun show_f64 :: "f64 \<Rightarrow> string" where
  "show_f64 NaN = ''NaN''"
| "show_f64 PInf = ''inf''"
| "show_f64 NInf = ''-inf''"
| "show_f64 (Fin r) =
     (if r = 0 then ''0'' else if 0 < r then show_positive r else ''-'' @ show_positive (- r))"

fun show_fixed :: "nat \<Rightarrow> f64 \<Rightarrow> string" where
  "show_fixed p NaN = ''NaN''"
| "show_fixed p PInf = ''inf''"
| "show_fixed p NInf = ''-inf''"
| "show_fixed p (Fin r) =
     (if r < 0 then ''-'' else []) @ decimal_text p (nat (round_even (\<bar>r\<bar> * 10 ^ p)))"

section \<open>Seventeen digits are enough\<close>

text \<open>A number close enough to one of the format is rounded to it.\<close>

lemma rnd_pos_unique:
  assumes "c = of_int k * spacing y" "\<bar>y - c\<bar> < spacing y / 2"
  shows "rnd_pos y = c"
proof -
  have "y / spacing y - of_int k = (y - c) / spacing y"
    using spacing_pos [of y] by (simp add: assms(1) diff_divide_distrib)
  then have "\<bar>y / spacing y - of_int k\<bar> = \<bar>y - c\<bar> / spacing y"
    using spacing_pos [of y] by (simp add: abs_divide)
  also have "\<dots> < 1 / 2" using assms(2) spacing_pos [of y] by (simp add: pos_divide_less_eq)
  finally have near: "\<bar>y / spacing y - of_int k\<bar> < 1 / 2" .
  with round_even_near [of "y / spacing y"]
  have "\<bar>of_int (round_even (y / spacing y)) - of_int k\<bar> < (1 :: rat)" by linarith
  then have "round_even (y / spacing y) = k" by linarith
  then show ?thesis by (simp add: rnd_pos_def assms(1))
qed

text \<open>The numbers of the format are whole multiples of the spacing at any smaller number.\<close>

lemma binary64_multiple:
  assumes "binary64 c" "0 < y" "y < c"
  shows "\<exists>k. c = of_int k * spacing y"
proof -
  have "0 < c" using assms by linarith
  then obtain k where "c = of_int k * spacing c"
    using rnd_pos_fix [OF _ assms(1)] unfolding rnd_pos_def by metis
  moreover obtain j where "of_int 1 * spacing c / spacing y = of_int j"
    using multiple_of_spacing [of y "max (exponent_of 2 c - 52) (-1074)" 1]
      exponent_of_mono [of y c] assms(2,3) unfolding spacing_def by fastforce
  then have "spacing c = of_int j * spacing y" using spacing_pos [of y] by (simp add: field_simps)
  ultimately have "c = of_int (k * j) * spacing y" by simp
  then show ?thesis ..
qed

lemma exponent_of_unique:
  assumes "2 powi e \<le> a" "a < 2 powi (e + 1)"
  shows "exponent_of 2 a = e"
proof -
  have a: "0 < a" using assms(1) by (meson order_less_le_trans zero_less_numeral zero_less_power_int)
  have "exponent_of 2 a < e + 1" by (rule exponent_of_less [OF a assms(2)])
  moreover have "\<not> exponent_of 2 a + 1 \<le> e"
  proof
    assume "exponent_of 2 a + 1 \<le> e"
    then have "(2 :: rat) powi (exponent_of 2 a + 1) \<le> 2 powi e" by (intro power_int_increasing) auto
    with exponent_2(2) [OF a] assms(1) show False by linarith
  qed
  ultimately show ?thesis by linarith
qed

lemma half_spacing: "a * 2 powi -54 < spacing a / 2" if "0 < a"
proof -
  have "a < 2 powi (exponent_of 2 a + 1)" by (rule exponent_2(2) [OF that])
  also have "\<dots> \<le> 2 powi (max (exponent_of 2 a - 52) (-1074) + 53)" by (intro power_int_increasing) auto
  also have "\<dots> = spacing a * 2 powi 53" unfolding spacing_def by (simp add: power_int_add)
  finally show ?thesis by (simp add: power_int_minus divide_simps)
qed

lemma spacing_multiple:
  assumes "binary64 a" "0 < a"
  obtains k where "a = of_int k * spacing a" "spacing a \<le> a" "-1074 \<le> exponent_of 2 a"
proof -
  obtain k where k: "a = of_int k * spacing a"
    using rnd_pos_fix [OF assms(2,1)] unfolding rnd_pos_def by metis
  have "0 < (of_int k :: rat)" using assms(2) spacing_pos [of a] k by (metis zero_less_mult_pos2)
  then have "1 \<le> (of_int k :: rat)" by simp
  then have "1 * spacing a \<le> of_int k * spacing a" using spacing_pos [of a] by (intro mult_right_mono) simp_all
  then have le: "spacing a \<le> a" using k by linarith
  have "-1074 \<le> exponent_of 2 a"
  proof (rule ccontr)
    assume "\<not> ?thesis"
    then have "(2 :: rat) powi (exponent_of 2 a + 1) \<le> 2 powi -1074" by (intro power_int_increasing) auto
    also have "\<dots> \<le> spacing a" unfolding spacing_def by (intro power_int_increasing) auto
    finally show False using le exponent_2(2) [OF assms(2)] by linarith
  qed
  with k le that show ?thesis by blast
qed

lemma rnd_pos_above:
  assumes "binary64 a" "0 < a" "a \<le> y" "y - a < a * 2 powi -54"
  shows "rnd_pos y = a"
proof -
  let ?P = "2 powi (exponent_of 2 a + 1) :: rat"
  obtain k where k: "a = of_int k * spacing a" "-1074 \<le> exponent_of 2 a"
    by (rule spacing_multiple [OF assms(1,2)])
  have half: "y - a < spacing a / 2" using assms(4) half_spacing [OF assms(2)] by linarith
  obtain j where "of_int 1 * ?P / spacing a = of_int j"
    using multiple_of_spacing [of a "exponent_of 2 a + 1" 1] k(2) by auto
  then have j: "?P = of_int j * spacing a" using spacing_pos [of a] by (simp add: field_simps)
  have "of_int k * spacing a < of_int j * spacing a"
    using exponent_2(2) [OF assms(2)] unfolding j k(1) [symmetric] .
  then have "k + 1 \<le> j" using spacing_pos [of a] by (simp add: mult_less_cancel_right)
  then have "of_int (k + 1) * spacing a \<le> ?P"
    unfolding j using spacing_pos [of a] by (intro mult_right_mono) (simp_all only: of_int_le_iff less_imp_le)
  then have "a + spacing a \<le> ?P" using k(1) by (simp add: algebra_simps)
  then have "y < ?P" using half spacing_pos [of a] by linarith
  then have "exponent_of 2 y = exponent_of 2 a"
    using exponent_2(1) [OF assms(2)] assms(3) by (intro exponent_of_unique) linarith+
  then have same: "spacing y = spacing a" by (simp add: spacing_def)
  show ?thesis
  proof (rule rnd_pos_unique)
    show "a = of_int k * spacing y" unfolding same by (rule k(1))
    show "\<bar>y - a\<bar> < spacing y / 2" unfolding same using half assms(3) by linarith
  qed
qed

lemma below_gap:
  assumes "binary64 a" "0 < y" "y < a" "a - y < a * 2 powi -54"
  shows "a - y < spacing y / 2"
proof (cases "2 powi exponent_of 2 a \<le> y")
  case True
  have a: "0 < a" using assms(2,3) by linarith
  have "exponent_of 2 y = exponent_of 2 a"
    using True exponent_2(2) [OF a] assms(3) by (intro exponent_of_unique) linarith+
  then have "spacing y = spacing a" by (simp add: spacing_def)
  with half_spacing [OF a] assms(4) show ?thesis by linarith
next
  case False
  let ?P = "2 powi exponent_of 2 a :: rat"
  have a: "0 < a" using assms(2,3) by linarith
  obtain k where k: "a = of_int k * spacing a" "-1074 \<le> exponent_of 2 a"
    by (rule spacing_multiple [OF assms(1) a])
  obtain j where "of_int 1 * ?P / spacing a = of_int j"
    using multiple_of_spacing [of a "exponent_of 2 a" 1] k(2) by auto
  then have j: "?P = of_int j * spacing a" using spacing_pos [of a] by (simp add: field_simps)
  have "a = ?P"
  proof (rule ccontr)
    assume "a \<noteq> ?P"
    then have "of_int j * spacing a < of_int k * spacing a"
      using exponent_2(1) [OF a] unfolding j [symmetric] k(1) [symmetric] by simp
    then have "j + 1 \<le> k" using spacing_pos [of a] by (simp add: mult_less_cancel_right)
    then have "of_int (j + 1) * spacing a \<le> a"
      by (subst (2) k(1)) (use spacing_pos [of a] in \<open>intro mult_right_mono; simp\<close>)
    then have "?P + spacing a \<le> a" using j by (simp add: algebra_simps)
    with False assms(4) half_spacing [OF a] spacing_pos [of a] show False by linarith
  qed
  have "a * 2 powi -54 \<le> a / 2" using a by (simp add: power_int_minus)
  moreover have "2 powi (exponent_of 2 a - 1) = a / 2" using \<open>a = ?P\<close> by (simp add: power_int_diff)
  ultimately have "2 powi (exponent_of 2 a - 1) \<le> y" using assms(4) by linarith
  then have "exponent_of 2 y = exponent_of 2 a - 1"
    using False by (intro exponent_of_unique) simp_all
  then have "2 powi (exponent_of 2 a - 53) \<le> spacing y"
    unfolding spacing_def by (intro power_int_increasing) auto
  moreover have "a * 2 powi -54 = 2 powi (exponent_of 2 a - 53) / 2"
    using \<open>a = ?P\<close> by (simp add: power_int_diff power_int_minus)
  ultimately show ?thesis using assms(4) by linarith
qed

lemma rnd_close:
  assumes "binary64 a" "0 < a" "\<bar>y - a\<bar> < a * 2 powi -54"
  shows "rnd y = a"
proof -
  have "a * 2 powi -54 < a" using assms(2) by (simp add: power_int_minus)
  then have y: "0 < y" using assms(3) by linarith
  have "rnd_pos y = a"
  proof (cases "a \<le> y")
    case True
    with assms show ?thesis by (intro rnd_pos_above) simp_all
  next
    case False
    with assms(3) have "a - y < a * 2 powi -54" by linarith
    moreover from False obtain k where "a = of_int k * spacing y"
      using binary64_multiple [OF assms(1) y] by auto
    ultimately show ?thesis
      using below_gap [OF assms(1) y] False by (intro rnd_pos_unique [of _ k]) simp_all
  qed
  with y show ?thesis by (simp add: rnd_def)
qed

section \<open>The text of a number\<close>

lemma exponent_10: "0 < a \<Longrightarrow> 10 powi exponent_of 10 a \<le> a"
  using exponent_of_bounds [of a 10] by simp

lemma decimal_near:
  assumes "0 < a" "\<bar>of_int m - a / 10 powi k\<bar> \<le> 1 / 2" "k = unit_exponent 17 a"
  shows "\<bar>decimal_value m k - a\<bar> < a * 2 powi -54"
proof -
  have "decimal_value m k - a = (of_int m - a / 10 powi k) * 10 powi k"
    by (simp add: decimal_value_def left_diff_distrib)
  then have "\<bar>decimal_value m k - a\<bar> = \<bar>of_int m - a / 10 powi k\<bar> * 10 powi k" by (simp add: abs_mult)
  also have "\<dots> \<le> 1 / 2 * 10 powi k" using assms(2) by (intro mult_right_mono) simp_all
  also have "10 powi k = 10 powi exponent_of 10 a / (10 :: rat) ^ 16"
    by (simp add: assms(3) unit_exponent_def power_int_diff)
  also have "1 / 2 * (10 powi exponent_of 10 a / 10 ^ 16) \<le> 1 / 2 * (a / 10 ^ 16)"
    using exponent_10 [OF assms(1)] by (simp add: divide_right_mono)
  also have "\<dots> < a * 2 powi -54" using assms(1) by (simp add: power_int_minus)
  finally show ?thesis .
qed

lemma seventeen_digits:
  assumes "binary64 a" "0 < a"
  shows "shortest_at 17 a \<noteq> None"
proof -
  let ?k = "unit_exponent 17 a"
  let ?x = "a / 10 powi ?k"
  have rec: "recovers a ?k m" if "\<bar>of_int m - ?x\<bar> \<le> 1 / 2" for m
    unfolding recovers_def using decimal_near [OF assms(2) that refl] by (rule rnd_close [OF assms])
  have "\<bar>of_int \<lfloor>?x\<rfloor> - ?x\<bar> \<le> 1 / 2 \<or> \<bar>of_int (\<lfloor>?x\<rfloor> + 1) - ?x\<bar> \<le> 1 / 2"
    by linarith
  then have "recovers a ?k \<lfloor>?x\<rfloor> \<or> recovers a ?k (\<lfloor>?x\<rfloor> + 1)" using rec by blast
  then show ?thesis by (auto simp: shortest_at_def Let_def)
qed

lemma digits_recover: "shortest_at n a = Some m \<Longrightarrow> recovers a (unit_exponent n a) m"
  by (auto simp: shortest_at_def Let_def split: if_splits)

lemma digits_nonneg: "0 < a \<Longrightarrow> shortest_at n a = Some m \<Longrightarrow> 0 \<le> m"
  by (auto simp: shortest_at_def Let_def split: if_splits)

lemma shortest_recovers:
  assumes "binary64 a" "0 < a"
  shows "\<exists>m k. shortest a = (m, k) \<and> 0 \<le> m \<and> rnd (decimal_value m k) = a"
proof -
  have "17 \<in> set [1..<18]" by simp
  have "find (\<lambda>n. shortest_at n a \<noteq> None) [1..<18] \<noteq> None"
    using seventeen_digits [OF assms] \<open>17 \<in> set [1..<18]\<close> unfolding find_None_iff by blast
  then obtain n where n: "find (\<lambda>n. shortest_at n a \<noteq> None) [1..<18] = Some n" by blast
  then obtain m where m: "shortest_at n a = Some m" by (auto simp: find_Some_iff)
  with n digits_recover [OF m] digits_nonneg [OF assms(2) m] show ?thesis by (simp add: shortest_def recovers_def)
qed

text \<open>Reading a decimal, and \<open>FromStr\<close> of an \<open>f64\<close> on the texts that \<open>Display\<close> writes.\<close>

definition read_decimal :: "string \<Rightarrow> rat" where
  "read_decimal s =
     (case split_once (CHR ''.'') s of
        None \<Rightarrow> of_nat (read_nat s)
      | Some (i, f) \<Rightarrow> of_nat (read_nat i) + of_nat (read_nat f) / 10 ^ length f)"

definition parse_f64 :: "string \<Rightarrow> f64" where
  "parse_f64 s =
     (if s = ''NaN'' then NaN else if s = ''inf'' then PInf else if s = ''-inf'' then NInf
      else if starts_with ''-'' s then f64_of (- read_decimal (tl s))
      else f64_of (read_decimal s))"

lemma read_nat_zeros [simp]: "read_nat (replicate n (CHR ''0'') @ s) = read_nat s"
  by (induction n) (simp_all add: read_nat_def)

lemma length_dec: "n < 10 ^ p \<Longrightarrow> 0 < p \<Longrightarrow> length (dec n) \<le> p"
proof (induction p arbitrary: n)
  case (Suc p)
  show ?case
  proof (cases "n < 10")
    case True
    then show ?thesis by (subst dec.simps) simp
  next
    case False
    with Suc.prems have "n div 10 < 10 ^ p" "0 < p" by (auto intro: gr0I)
    with Suc.IH False show ?thesis by (subst dec.simps) simp
  qed
qed simp

lemma dec_pad_facts:
  assumes "n < 10 ^ p" "0 < p"
  shows "length (dec_pad p n) = p" "read_nat (dec_pad p n) = n"
  using length_dec [OF assms] by (simp_all add: dec_pad_def)

definition is_digit_char :: "char \<Rightarrow> bool" where
  "is_digit_char c \<longleftrightarrow> of_char c \<in> {48..57 :: nat}"

lemma dec_no_dot: "CHR ''.'' \<notin> set (dec n)" "is_digit_char (hd (dec n))"
  using dec_digits [of "CHR ''.''" n] dec_digits [of "hd (dec n)" n] by (auto simp: is_digit_char_def)

lemma decimal_text_digit: "is_digit_char (hd (decimal_text p m))"
  using dec_no_dot(2) by (simp add: decimal_text_def)

lemma read_decimal_text: "read_decimal (decimal_text p m) = of_nat m / 10 ^ p"
proof (cases "p = 0")
  case True
  have "split_once (CHR ''.'') (dec m) = None" using dec_no_dot(1) by (simp add: split_once_None)
  with True show ?thesis by (simp add: decimal_text_def read_decimal_def)
next
  case False
  let ?i = "m div 10 ^ p" and ?f = "m mod 10 ^ p"
  have f: "length (dec_pad p ?f) = p" "read_nat (dec_pad p ?f) = ?f" using False by (intro dec_pad_facts; simp)+
  have "split_once (CHR ''.'') (decimal_text p m) = Some (dec ?i, dec_pad p ?f)"
    using False dec_no_dot(1) by (simp add: decimal_text_def split_once_Some)
  then have "read_decimal (decimal_text p m) = of_nat ?i + of_nat ?f / 10 ^ p"
    using f by (simp add: read_decimal_def)
  also have "\<dots> = of_nat (?i * 10 ^ p + ?f) / 10 ^ p" by (simp add: add_divide_distrib)
  finally show ?thesis by (simp only: div_mult_mod_eq)
qed

lemma show_positive_recovers:
  assumes "binary64 a" "0 < a"
  shows "rnd (read_decimal (show_positive a)) = a \<and> show_positive a \<noteq> [] \<and> is_digit_char (hd (show_positive a))"
proof -
  from shortest_recovers [OF assms] obtain m k where mk: "shortest a = (m, k)" "0 \<le> m"
    "rnd (decimal_value m k) = a" by blast
  obtain p n where t: "show_positive a = decimal_text p n" "of_nat n / 10 ^ p = decimal_value m k"
  proof (cases "0 \<le> k")
    case True
    with mk that [of 0 "nat m * 10 ^ nat k"] show ?thesis
      by (simp add: show_positive_def decimal_text_def decimal_value_def power_int_nonneg_exp)
  next
    case False
    then have "k = - int (nat (- k))" by simp
    then have "(10 :: rat) powi k = inverse (10 ^ nat (- k))" by (metis power_int_minus power_int_of_nat)
    with mk that [of "nat (- k)" "nat m"] False show ?thesis
      by (simp add: show_positive_def decimal_value_def divide_inverse)
  qed
  have "decimal_text p n \<noteq> []" by (simp add: decimal_text_def)
  with t mk(3) decimal_text_digit [of p n] read_decimal_text [of p n] show ?thesis by simp
qed

text \<open>The values of an \<open>f64\<close>.\<close>

definition is_f64 :: "f64 \<Rightarrow> bool" where
  "is_f64 x = (case x of Fin r \<Rightarrow> binary64 r \<and> \<bar>r\<bar> < f64_limit | _ \<Rightarrow> True)"

lemma is_f64_f64_of: "is_f64 (f64_of r)"
  by (auto simp: is_f64_def f64_of_def binary64_rnd abs_less_iff)

lemma parse_number:
  assumes "s \<noteq> []" "is_digit_char (hd s)"
  shows "parse_f64 s = f64_of (read_decimal s)" "parse_f64 (''-'' @ s) = f64_of (- read_decimal s)"
  using assms by (cases s; auto simp: parse_f64_def is_digit_char_def starts_with_def)+

text \<open>
  The text of a number identifies it: what \<open>Display\<close> writes for an \<open>f64\<close>, read back, is the same \<open>f64\<close>.
\<close>

theorem show_f64_recovers:
  assumes "is_f64 x"
  shows "parse_f64 (show_f64 x) = x"
proof (cases x)
  case (Fin r)
  with assms have r: "binary64 r" "\<bar>r\<bar> < f64_limit" by (simp_all add: is_f64_def)
  have read: "f64_of y = Fin (rnd y)" if "rnd y = r" for y using that r(2) by (intro f64_of_small) simp
  consider "r = 0" | "0 < r" | "r < 0" by linarith
  then show ?thesis
  proof cases
    case 1
    with Fin show ?thesis
      by (simp add: parse_f64_def starts_with_def read_decimal_def split_once_def read_nat_def)
  next
    case 2
    from show_positive_recovers [OF r(1) 2] Fin 2 read show ?thesis by (simp add: parse_number)
  next
    case 3
    from show_positive_recovers [OF binary64_uminus [OF r(1)]] 3
    have t: "rnd (read_decimal (show_positive (- r))) = - r" "show_positive (- r) \<noteq> []"
      "is_digit_char (hd (show_positive (- r)))" by simp_all
    from t(1) have "rnd (- read_decimal (show_positive (- r))) = r" by (simp add: rnd_uminus)
    with t(2,3) Fin 3 read show ?thesis by (simp add: parse_number(2) [simplified])
  qed
qed (simp_all add: parse_f64_def starts_with_def)

end
