(* ===== verification/Config.thy ===== *)
theory Config
  imports Float_Text
begin

text \<open>
  The constants of \<open>src/config.rs\<close>, under the source's names. \<open>config_defs\<close> collects their
  definitions, for evaluation.
\<close>

named_theorems config_defs \<open>the constants of src/config.rs\<close>

definition DEFAULT_POSTGRES_HOST :: string where
  [config_defs]: "DEFAULT_POSTGRES_HOST = ''localhost''"
definition DEFAULT_POSTGRES_PORT :: nat where
  [config_defs]: "DEFAULT_POSTGRES_PORT = 5432"
definition DEFAULT_POSTGRES_DATABASE :: string where
  [config_defs]: "DEFAULT_POSTGRES_DATABASE = ''postgres''"
definition DEFAULT_POSTGRES_USERNAME :: string where
  [config_defs]: "DEFAULT_POSTGRES_USERNAME = ''postgres''"
definition DEFAULT_CONNECT_TIMEOUT_SECONDS :: nat where
  [config_defs]: "DEFAULT_CONNECT_TIMEOUT_SECONDS = 10"
definition MAX_VACUUM_PARALLEL :: nat where
  [config_defs]: "MAX_VACUUM_PARALLEL = 1024"
definition TCP_KEEPALIVE_IDLE_SECONDS :: nat where
  [config_defs]: "TCP_KEEPALIVE_IDLE_SECONDS = 30"
definition TCP_KEEPALIVE_INTERVAL_SECONDS :: nat where
  [config_defs]: "TCP_KEEPALIVE_INTERVAL_SECONDS = 10"
definition TCP_KEEPALIVE_RETRIES :: nat where
  [config_defs]: "TCP_KEEPALIVE_RETRIES = 3"
definition DEFAULT_SHUTDOWN_GRACE_SECONDS :: nat where
  [config_defs]: "DEFAULT_SHUTDOWN_GRACE_SECONDS = 10"
definition CONTROL_CONNECT_TIMEOUT_SECONDS :: nat where
  [config_defs]: "CONTROL_CONNECT_TIMEOUT_SECONDS = 5"
definition MAX_SHUTDOWN_GRACE_SECONDS :: nat where
  [config_defs]: "MAX_SHUTDOWN_GRACE_SECONDS = 300"
definition DEFAULT_MAINTENANCE_WORK_MEM_GB :: nat where
  [config_defs]: "DEFAULT_MAINTENANCE_WORK_MEM_GB = 1"
definition MAX_MAINTENANCE_WORK_MEM_GB :: nat where
  [config_defs]: "MAX_MAINTENANCE_WORK_MEM_GB = 32"
definition DEFAULT_WRAPAROUND_MIN_AGE :: int where
  [config_defs]: "DEFAULT_WRAPAROUND_MIN_AGE = 200000000"
definition DEFAULT_BLOAT_THRESHOLD_PCT :: f64 where
  [config_defs]: "DEFAULT_BLOAT_THRESHOLD_PCT = Fin 80"
definition DEFAULT_BLOAT_MIN_DEAD_TUP :: int where
  [config_defs]: "DEFAULT_BLOAT_MIN_DEAD_TUP = 1000"
definition DEFAULT_VACUUM_THRESHOLD :: int where
  [config_defs]: "DEFAULT_VACUUM_THRESHOLD = 50"
definition DEFAULT_VACUUM_SCALE_FACTOR :: f64 where
  [config_defs]: "DEFAULT_VACUUM_SCALE_FACTOR = f64_of (1 / 5)"
definition DEFAULT_VACUUM_MAX_THRESHOLD_PRE18 :: int where
  [config_defs]: "DEFAULT_VACUUM_MAX_THRESHOLD_PRE18 = 100000000"
definition MAX_THRESHOLD_FACTOR :: rat where
  [config_defs]: "MAX_THRESHOLD_FACTOR = rnd (4 / 5)"
definition PG18_VERSION_NUM :: int where
  [config_defs]: "PG18_VERSION_NUM = 180000"
definition DEFAULT_XMIN_HORIZON_WARN_AGE :: int where
  [config_defs]: "DEFAULT_XMIN_HORIZON_WARN_AGE = 1000000"
definition MAX_VACUUM_COST_DELAY_MS :: f64 where
  [config_defs]: "MAX_VACUUM_COST_DELAY_MS = Fin 100"
definition MIN_VACUUM_COST_LIMIT :: int where
  [config_defs]: "MIN_VACUUM_COST_LIMIT = 1"
definition MAX_VACUUM_COST_LIMIT :: int where
  [config_defs]: "MAX_VACUUM_COST_LIMIT = 10000"
definition GENTLE_VACUUM_COST_DELAY_MS :: f64 where
  [config_defs]: "GENTLE_VACUUM_COST_DELAY_MS = Fin 10"
definition GENTLE_VACUUM_COST_LIMIT :: int where
  [config_defs]: "GENTLE_VACUUM_COST_LIMIT = 200"
definition MIN_SUPPORTED_PG_VERSION_NUM :: int where
  [config_defs]: "MIN_SUPPORTED_PG_VERSION_NUM = 140000"
definition LOGBOOK_SCHEMA_NAME :: string where
  [config_defs]: "LOGBOOK_SCHEMA_NAME = ''maintainer_logbook''"
definition DEFAULT_REPLICA_LAG_WAIT_SECONDS :: nat where
  [config_defs]: "DEFAULT_REPLICA_LAG_WAIT_SECONDS = 300"
definition REPLICA_LAG_POLL_INTERVAL_SECONDS :: nat where
  [config_defs]: "REPLICA_LAG_POLL_INTERVAL_SECONDS = 5"
definition DEFAULT_LOCK_TIMEOUT_RETRIES :: nat where
  [config_defs]: "DEFAULT_LOCK_TIMEOUT_RETRIES = 0"
definition MAX_LOCK_TIMEOUT_RETRIES :: nat where
  [config_defs]: "MAX_LOCK_TIMEOUT_RETRIES = 20"
definition DEFAULT_LOCK_TIMEOUT_RETRY_DELAY_MS :: nat where
  [config_defs]: "DEFAULT_LOCK_TIMEOUT_RETRY_DELAY_MS = 50"
definition MAX_LOCK_TIMEOUT_RETRY_DELAY_MS :: nat where
  [config_defs]: "MAX_LOCK_TIMEOUT_RETRY_DELAY_MS = 60000"
definition DEFAULT_LOCK_TIMEOUT_MS :: nat where
  [config_defs]: "DEFAULT_LOCK_TIMEOUT_MS = 10"
definition MAX_LOCK_TIMEOUT_MS :: nat where
  [config_defs]: "MAX_LOCK_TIMEOUT_MS = 60000"

definition MIN_SUPPORTED_PG_VERSION_LABEL :: string where
  [config_defs]: "MIN_SUPPORTED_PG_VERSION_LABEL = ''PostgreSQL 14''"

end
