(* ===== verification/Types.thy ===== *)
theory Types
  imports Config
begin

text \<open>
  The data of \<open>src/types.rs\<close>: the enumerations with their \<open>Display\<close> and \<open>FromStr\<close>, the run-level
  settings, the candidate records, the explicit table list, the replication-lag observation and
  the state of the lag gate. Structs that share fields are record extensions of one another, so
  that \<open>schema_name\<close> and \<open>table_name\<close> apply to every candidate.
\<close>

section \<open>Enumerations\<close>

datatype ssl_mode = SslDisable | SslRequire | SslVerifyCa | SslVerifyFull

fun ssl_mode_to_string :: "ssl_mode \<Rightarrow> string" where
  "ssl_mode_to_string SslDisable = ''disable''"
| "ssl_mode_to_string SslRequire = ''require''"
| "ssl_mode_to_string SslVerifyCa = ''verify-ca''"
| "ssl_mode_to_string SslVerifyFull = ''verify-full''"

definition ssl_mode_from_str :: "string \<Rightarrow> string + ssl_mode" where
  "ssl_mode_from_str s =
     (let l = to_lower s in
      if l = ''disable'' then Inr SslDisable
      else if l = ''require'' then Inr SslRequire
      else if l = ''verify-ca'' then Inr SslVerifyCa
      else if l = ''verify-full'' then Inr SslVerifyFull
      else Inl (''Invalid sslmode '' @ [squote] @ s @ [squote] @
                ''. Must be one of: disable, require, verify-ca, verify-full''))"

datatype log_format = TextFormat | JsonFormat

fun log_format_to_string :: "log_format \<Rightarrow> string" where
  "log_format_to_string TextFormat = ''text''"
| "log_format_to_string JsonFormat = ''json''"

definition log_format_from_str :: "string \<Rightarrow> string + log_format" where
  "log_format_from_str s =
     (let l = to_lower s in
      if l = ''text'' then Inr TextFormat
      else if l = ''json'' then Inr JsonFormat
      else Inl (''Invalid log format '' @ [squote] @ s @ [squote] @
                ''. Must be one of: '' @ [squote] @ ''text'' @ [squote] @ '', '' @
                [squote] @ ''json'' @ [squote]))"

datatype shutdown_mode = Finish | Cancel | Terminate

definition default_shutdown_mode :: shutdown_mode where
  "default_shutdown_mode = Cancel"

fun shutdown_mode_to_string :: "shutdown_mode \<Rightarrow> string" where
  "shutdown_mode_to_string Finish = ''finish''"
| "shutdown_mode_to_string Cancel = ''cancel''"
| "shutdown_mode_to_string Terminate = ''terminate''"

definition shutdown_mode_from_str :: "string \<Rightarrow> string + shutdown_mode" where
  "shutdown_mode_from_str s =
     (let l = to_lower s in
      if l = ''finish'' then Inr Finish
      else if l = ''cancel'' then Inr Cancel
      else if l = ''terminate'' then Inr Terminate
      else Inl (''Invalid shutdown mode '' @ [squote] @ s @ [squote] @
                ''. Must be one of: '' @ [squote] @ ''finish'' @ [squote] @ '', '' @
                [squote] @ ''cancel'' @ [squote] @ '', '' @ [squote] @ ''terminate'' @ [squote]))"

datatype log_rotation = NoRotation | Daily

fun log_rotation_to_string :: "log_rotation \<Rightarrow> string" where
  "log_rotation_to_string NoRotation = ''none''"
| "log_rotation_to_string Daily = ''daily''"

definition log_rotation_from_str :: "string \<Rightarrow> string + log_rotation" where
  "log_rotation_from_str s =
     (let l = to_lower s in
      if l = ''none'' then Inr NoRotation
      else if l = ''daily'' then Inr Daily
      else Inl (''Invalid log rotation '' @ [squote] @ s @ [squote] @
                ''. Must be one of: '' @ [squote] @ ''none'' @ [squote] @ '', '' @
                [squote] @ ''daily'' @ [squote]))"

datatype mode =
  NeverVacuumed | NeverAnalyzed | PreventWraparound | PreventBloat
| NeedsVacuum | VacuumOverdue | AnalyzeOverdue

fun mode_to_string :: "mode \<Rightarrow> string" where
  "mode_to_string NeverVacuumed = ''never-vacuumed''"
| "mode_to_string NeverAnalyzed = ''never-analyzed''"
| "mode_to_string PreventWraparound = ''prevent-wraparound''"
| "mode_to_string PreventBloat = ''prevent-bloat''"
| "mode_to_string NeedsVacuum = ''needs-vacuum''"
| "mode_to_string VacuumOverdue = ''vacuum-overdue''"
| "mode_to_string AnalyzeOverdue = ''analyze-overdue''"

definition mode_from_str :: "string \<Rightarrow> string + mode" where
  "mode_from_str s =
     (let l = to_lower s in
      if l = ''never-vacuumed'' then Inr NeverVacuumed
      else if l = ''never-analyzed'' then Inr NeverAnalyzed
      else if l = ''prevent-wraparound'' then Inr PreventWraparound
      else if l = ''prevent-bloat'' then Inr PreventBloat
      else if l = ''needs-vacuum'' then Inr NeedsVacuum
      else if l = ''vacuum-overdue'' then Inr VacuumOverdue
      else if l = ''analyze-overdue'' then Inr AnalyzeOverdue
      else Inl (''Invalid mode '' @ [squote] @ s @ [squote] @
                ''. Must be one of: never-vacuumed, never-analyzed, prevent-wraparound, '' @
                ''prevent-bloat, needs-vacuum, vacuum-overdue, analyze-overdue''))"

datatype order_by = BySize | ByLastMaintained

fun order_by_to_string :: "order_by \<Rightarrow> string" where
  "order_by_to_string BySize = ''size''"
| "order_by_to_string ByLastMaintained = ''last-maintained''"

definition order_by_from_str :: "string \<Rightarrow> string + order_by" where
  "order_by_from_str s =
     (let l = to_lower s in
      if l = ''size'' then Inr BySize
      else if l = ''last-maintained'' then Inr ByLastMaintained
      else Inl (''Invalid order-by '' @ [squote] @ s @ [squote] @
                ''. Must be one of: size, last-maintained''))"

lemmas from_str_defs =
  ssl_mode_from_str_def log_format_from_str_def shutdown_mode_from_str_def
  log_rotation_from_str_def mode_from_str_def order_by_from_str_def

text \<open>
  The contract the six enumerations share: printing gives a lower-case keyword, and parsing
  accepts exactly the strings whose lower case is that keyword.
\<close>

locale text_enum =
  fixes print :: "'a \<Rightarrow> string"
    and parse :: "string \<Rightarrow> string + 'a"
  assumes print_lower: "to_lower (print x) = print x"
    and parse_iff: "parse s = Inr x \<longleftrightarrow> to_lower s = print x"
begin

lemma parse_print: "parse (print x) = Inr x"
  by (simp add: parse_iff print_lower)

lemma print_inj: "print x = print y \<longleftrightarrow> x = y"
  by (metis parse_print sum.inject(2))

lemma parse_case: "to_lower s = to_lower t \<Longrightarrow> parse s = Inr x \<longleftrightarrow> parse t = Inr x"
  by (simp add: parse_iff)

lemma parse_upper: "parse s = Inr x \<Longrightarrow> parse (to_lower s) = Inr x"
  by (metis parse_iff parse_print)

lemma parse_reject: "(\<exists>e. parse s = Inl e) \<longleftrightarrow> (\<forall>x. to_lower s \<noteq> print x)"
  by (metis parse_iff sum.distinct(1) sum.exhaust)

end

interpretation ssl_mode_enum: text_enum ssl_mode_to_string ssl_mode_from_str
proof unfold_locales
  show "to_lower (ssl_mode_to_string x) = ssl_mode_to_string x" for x
    by (cases x) (simp_all add: to_lower_def ascii_lower_def)
  show "ssl_mode_from_str s = Inr x \<longleftrightarrow> to_lower s = ssl_mode_to_string x" for s x
    by (cases x) (simp_all add: ssl_mode_from_str_def Let_def)
qed

interpretation log_format_enum: text_enum log_format_to_string log_format_from_str
proof unfold_locales
  show "to_lower (log_format_to_string x) = log_format_to_string x" for x
    by (cases x) (simp_all add: to_lower_def ascii_lower_def)
  show "log_format_from_str s = Inr x \<longleftrightarrow> to_lower s = log_format_to_string x" for s x
    by (cases x) (simp_all add: log_format_from_str_def Let_def)
qed

interpretation shutdown_mode_enum: text_enum shutdown_mode_to_string shutdown_mode_from_str
proof unfold_locales
  show "to_lower (shutdown_mode_to_string x) = shutdown_mode_to_string x" for x
    by (cases x) (simp_all add: to_lower_def ascii_lower_def)
  show "shutdown_mode_from_str s = Inr x \<longleftrightarrow> to_lower s = shutdown_mode_to_string x" for s x
    by (cases x) (simp_all add: shutdown_mode_from_str_def Let_def)
qed

interpretation log_rotation_enum: text_enum log_rotation_to_string log_rotation_from_str
proof unfold_locales
  show "to_lower (log_rotation_to_string x) = log_rotation_to_string x" for x
    by (cases x) (simp_all add: to_lower_def ascii_lower_def)
  show "log_rotation_from_str s = Inr x \<longleftrightarrow> to_lower s = log_rotation_to_string x" for s x
    by (cases x) (simp_all add: log_rotation_from_str_def Let_def)
qed

interpretation mode_enum: text_enum mode_to_string mode_from_str
proof unfold_locales
  show "to_lower (mode_to_string x) = mode_to_string x" for x
    by (cases x) (simp_all add: to_lower_def ascii_lower_def)
  show "mode_from_str s = Inr x \<longleftrightarrow> to_lower s = mode_to_string x" for s x
    by (cases x) (simp_all add: mode_from_str_def Let_def)
qed

interpretation order_by_enum: text_enum order_by_to_string order_by_from_str
proof unfold_locales
  show "to_lower (order_by_to_string x) = order_by_to_string x" for x
    by (cases x) (simp_all add: to_lower_def ascii_lower_def)
  show "order_by_from_str s = Inr x \<longleftrightarrow> to_lower s = order_by_to_string x" for s x
    by (cases x) (simp_all add: order_by_from_str_def Let_def)
qed

end
