(* ===== verification/Settings.thy ===== *)
theory Settings
  imports Types
begin

text \<open>
  The run-level settings of \<open>src/types.rs\<close>: VACUUM options, the run policy and the I/O throttle.
  Usage errors are a datatype with the offending value instead of the message text.
\<close>

record vacuum_options =
  vo_truncate :: bool
  disable_page_skipping :: bool
  skip_locked :: bool
  index_cleanup :: "bool option"
  parallel :: "nat option"

record run_policy =
  dry_run :: bool
  force :: bool
  skip_active_vacuum :: bool
  check_xmin_horizon :: bool
  lock_timeout_ms :: nat
  lock_timeout_retries :: nat
  lock_timeout_retry_delay_ms :: nat

record throttle_settings =
  cost_delay_ms :: "f64 option"
  cost_limit :: "int option"

datatype throttle_error = CostDelayOutOfRange f64 | CostLimitOutOfRange int

text \<open>\<open>Option::or\<close>.\<close>

definition option_or :: "'a option \<Rightarrow> 'a option \<Rightarrow> 'a option" where
  "option_or a b = (case a of None \<Rightarrow> b | Some x \<Rightarrow> Some x)"

lemma option_or_simps [simp]: "option_or None b = b" "option_or (Some x) b = Some x"
  by (simp_all add: option_or_def)

lemma option_or_None [simp]: "option_or a None = a"
  by (cases a) simp_all

definition throttle_resolve :: "f64 option \<Rightarrow> int option \<Rightarrow> bool \<Rightarrow> throttle_settings" where
  "throttle_resolve delay lmt gentle =
     (if gentle
      then \<lparr>cost_delay_ms = option_or delay (Some GENTLE_VACUUM_COST_DELAY_MS),
            cost_limit = option_or lmt (Some GENTLE_VACUUM_COST_LIMIT)\<rparr>
      else \<lparr>cost_delay_ms = delay, cost_limit = lmt\<rparr>)"

text \<open>\<open>RangeInclusive::contains\<close>.\<close>

definition f64_in_range :: "f64 \<Rightarrow> f64 \<Rightarrow> f64 \<Rightarrow> bool" where
  "f64_in_range lo hi x = (lo \<le> x \<and> x \<le> hi)"

definition throttle_validate :: "throttle_settings \<Rightarrow> throttle_error + unit" where
  "throttle_validate t =
     (case cost_delay_ms t of
        Some delay \<Rightarrow>
          if \<not> f64_in_range (Fin 0) MAX_VACUUM_COST_DELAY_MS delay
          then Inl (CostDelayOutOfRange delay)
          else (case cost_limit t of
                  Some lmt \<Rightarrow>
                    if \<not> (MIN_VACUUM_COST_LIMIT \<le> lmt \<and> lmt \<le> MAX_VACUUM_COST_LIMIT)
                    then Inl (CostLimitOutOfRange lmt) else Inr ()
                | None \<Rightarrow> Inr ())
      | None \<Rightarrow>
          (case cost_limit t of
             Some lmt \<Rightarrow>
               if \<not> (MIN_VACUUM_COST_LIMIT \<le> lmt \<and> lmt \<le> MAX_VACUUM_COST_LIMIT)
               then Inl (CostLimitOutOfRange lmt) else Inr ()
           | None \<Rightarrow> Inr ()))"

definition throttle_is_enabled :: "throttle_settings \<Rightarrow> bool" where
  "throttle_is_enabled t = (cost_delay_ms t \<noteq> None \<or> cost_limit t \<noteq> None)"

definition throttle_is_active :: "throttle_settings \<Rightarrow> bool" where
  "throttle_is_active t = (case cost_delay_ms t of None \<Rightarrow> False | Some d \<Rightarrow> Fin 0 < d)"

lemma throttle_validate_Ok:
  "throttle_validate t = Inr () \<longleftrightarrow>
     (\<forall>d. cost_delay_ms t = Some d \<longrightarrow> (\<exists>r. d = Fin r \<and> 0 \<le> r \<and> r \<le> 100)) \<and>
     (\<forall>l. cost_limit t = Some l \<longrightarrow> 1 \<le> l \<and> l \<le> 10000)"
proof -
  have range: "f64_in_range (Fin 0) (Fin 100) d \<longleftrightarrow> (\<exists>r. d = Fin r \<and> 0 \<le> r \<and> r \<le> 100)" for d
    by (cases d) (auto simp: f64_in_range_def)
  show ?thesis
    by (auto simp: throttle_validate_def config_defs range split: option.splits if_splits)
qed

text \<open>
  The \<open>--gentle\<close> preset never overrides an explicit value, fills in both values otherwise, and
  any combination of explicit values that validates without the preset still validates with it;
  whatever validates has a delay between 0 and 100 ms (so never NaN) and a limit between 1 and
  10000, the ranges PostgreSQL accepts.
\<close>

theorem throttle_gentle_safe:
  assumes "throttle_validate (throttle_resolve delay lmt False) = Inr ()"
  shows "throttle_validate (throttle_resolve delay lmt True) = Inr ()
       \<and> cost_delay_ms (throttle_resolve delay lmt True) \<noteq> None
       \<and> cost_limit (throttle_resolve delay lmt True) \<noteq> None
       \<and> (\<forall>d. delay = Some d \<longrightarrow> cost_delay_ms (throttle_resolve delay lmt True) = Some d
             \<and> (\<exists>r. d = Fin r \<and> 0 \<le> r \<and> r \<le> 100))
       \<and> (\<forall>l. lmt = Some l \<longrightarrow> cost_limit (throttle_resolve delay lmt True) = Some l
             \<and> 1 \<le> l \<and> l \<le> 10000)
       \<and> throttle_is_active (throttle_resolve delay lmt True) = (delay \<noteq> Some (Fin 0))"
  using assms unfolding throttle_validate_Ok
  by (cases delay; cases lmt)
    (auto simp: throttle_resolve_def config_defs throttle_is_active_def)

theorem throttle_gentle_safe_witness:
  "throttle_validate (throttle_resolve (Some (Fin 0)) None True) = Inr ()
   \<and> \<not> throttle_is_active (throttle_resolve (Some (Fin 0)) None True)"
proof -
  have "throttle_validate (throttle_resolve (Some (Fin 0)) None False) = Inr ()"
    by (simp add: throttle_validate_Ok throttle_resolve_def)
  from throttle_gentle_safe [OF this] show ?thesis by simp
qed

end
