(* ===== verification/Tables.thy ===== *)
theory Tables
  imports Settings
begin

text \<open>
  The tables a run works on: the candidate records of \<open>src/types.rs\<close> with the figures derived from
  them, the explicit list of \<open>--also-tables\<close>, and the dead-tuple estimate of
  \<open>src/vacuum_output.rs\<close>. Time stamps are microseconds since the epoch.
\<close>

section \<open>Candidates\<close>

record table_key =
  schema_name :: string
  table_name :: string

record table_info = table_key +
  n_live_tup :: int
  n_dead_tup :: int
  size_bytes :: int
  last_maintained :: "int option"

text \<open>\<open>BloatTableInfo\<close> has exactly the fields of \<open>TableInfo\<close>.\<close>

type_synonym bloat_table_info = table_info

record needs_vacuum_table_info = table_info +
  via_max_threshold :: bool

record freeze_table_info = table_key +
  xid_age :: int
  freeze_max_age :: int
  freeze_size_bytes :: int
  freeze_last_maintained :: "int option"

record overdue_vacuum_table_info = table_key +
  overdue_n_live_tup :: int
  overdue_n_dead_tup :: int
  days_since_vacuum :: f64

record overdue_analyze_table_info = table_key +
  analyze_n_live_tup :: int
  n_mod_since_analyze :: int
  days_since_analyze :: f64

definition table_id :: "'a table_key_scheme \<Rightarrow> string \<times> string" where
  "table_id t = (schema_name t, table_name t)"

definition pct_toward_wraparound :: "freeze_table_info \<Rightarrow> f64" where
  "pct_toward_wraparound t =
     (if freeze_max_age t = 0 then Fin 100
      else f64_times (f64_of (i64_as_f64 (xid_age t) / i64_as_f64 (freeze_max_age t))) 100)"

definition pct_bloat :: "bloat_table_info \<Rightarrow> f64" where
  "pct_bloat t =
     (let total = i64_add (n_live_tup t) (n_dead_tup t)
      in if total = 0 then Fin 0
         else f64_times (f64_of (i64_as_f64 (n_dead_tup t) / i64_as_f64 total)) 100)"

definition effective_threshold :: "needs_vacuum_table_info \<Rightarrow> int \<Rightarrow> f64 \<Rightarrow> int" where
  "effective_threshold t vacuum_threshold vacuum_scale_factor =
     i64_add vacuum_threshold
       (f64_as_i64 (f64_round (f64_times vacuum_scale_factor (i64_as_f64 (n_live_tup t)))))"

section \<open>The dead-tuple estimate\<close>

definition estimate_dead_tuples_reduced :: "int \<Rightarrow> int \<Rightarrow> int option" where
  "estimate_dead_tuples_reduced n_dead_before n_dead_after =
     (let reduced = i64_saturating_sub n_dead_before n_dead_after in
      if reduced = 0 \<and> n_dead_before > 0 then Some 0
      else if reduced > 0 then Some reduced
      else None)"

text \<open>
  On row counts (non-negative \<open>i64\<close> values) the estimate is \<open>Some\<close> of the decrease exactly when
  the count went down, \<open>Some 0\<close> exactly when it stayed equal and positive, and \<open>None\<close> otherwise; in
  particular a table whose dead-tuple estimate grew during the VACUUM is reported with no figure at
  all, although it had dead tuples before.
\<close>

theorem estimate_spec:
  assumes "0 \<le> before" "before \<le> i64_max" "0 \<le> after" "after \<le> i64_max"
  shows "estimate_dead_tuples_reduced before after =
           (if after < before then Some (before - after)
            else if after = before \<and> 0 < before then Some 0
            else None)"
proof -
  from assms have "i64_saturating_sub before after = before - after"
    by (simp add: i64_saturating_sub_def i64_clamp_id in_i64_def i64_min_def i64_max_def)
  then show ?thesis by (auto simp: estimate_dead_tuples_reduced_def Let_def)
qed

theorem estimate_spec_witness:
  "estimate_dead_tuples_reduced 1000 400 = Some 600
   \<and> estimate_dead_tuples_reduced 1000 1200 = None"
proof -
  have b: "(1200::int) \<le> i64_max" "(1000::int) \<le> i64_max" "(400::int) \<le> i64_max"
    by (simp_all add: i64_max_def)
  show ?thesis
    using estimate_spec [of 1000 400] estimate_spec [of 1000 1200] b by simp
qed

section \<open>The explicit table list\<close>

datatype explicit_error =
  NotSchemaQualified string | NotASchemaTableName string | MoreThanOneDot string

abbreviation dot :: char where "dot \<equiv> CHR 0x2E"

fun parse_list_from ::
  "table_key list \<Rightarrow> string list \<Rightarrow> explicit_error + table_key list" where
  "parse_list_from out [] = Inr out"
| "parse_list_from out (raw # entries) =
     (let entry = trim raw in
      if entry = [] then parse_list_from out entries
      else (case split_once dot entry of
              None \<Rightarrow> Inl (NotSchemaQualified entry)
            | Some (schema, table) \<Rightarrow>
                if schema = [] \<or> table = [] then Inl (NotASchemaTableName entry)
                else if dot \<in> set table then Inl (MoreThanOneDot entry)
                else let candidate = \<lparr>schema_name = schema, table_name = table\<rparr> in
                     parse_list_from
                       (if candidate \<notin> set out then out @ [candidate] else out) entries))"

definition parse_list :: "string list \<Rightarrow> explicit_error + table_key list" where
  "parse_list entries = parse_list_from [] entries"

text \<open>What a qualified name is, and how it is written.\<close>

definition well_named :: "table_key \<Rightarrow> bool" where
  "well_named t = (schema_name t \<noteq> [] \<and> table_name t \<noteq> [] \<and>
                  dot \<notin> set (schema_name t) \<and> dot \<notin> set (table_name t))"

definition render :: "table_key \<Rightarrow> string" where
  "render t = schema_name t @ dot # table_name t"

lemma split_well_named:
  "(\<exists>t. well_named t \<and> e = render t \<and> s = schema_name t \<and> b = table_name t) \<longleftrightarrow>
   split_once dot e = Some (s, b) \<and> s \<noteq> [] \<and> b \<noteq> [] \<and> dot \<notin> set b"
proof
  assume "split_once dot e = Some (s, b) \<and> s \<noteq> [] \<and> b \<noteq> [] \<and> dot \<notin> set b"
  then show "\<exists>t. well_named t \<and> e = render t \<and> s = schema_name t \<and> b = table_name t"
    by (intro exI [of _ "\<lparr>schema_name = s, table_name = b\<rparr>"])
      (auto simp: well_named_def render_def split_once_Some)
qed (auto simp: well_named_def render_def split_once_Some)

lemma render_inj: "well_named t \<Longrightarrow> well_named u \<Longrightarrow> render t = render u \<Longrightarrow> t = u"
proof -
  assume "well_named t" "well_named u" "render t = render u"
  then have "split_once dot (render t) = Some (schema_name t, table_name t)"
    and "split_once dot (render t) = Some (schema_name u, table_name u)"
    by (auto simp: split_once_Some well_named_def render_def)
  then show "t = u" by simp
qed

lemma parse_list_from_step:
  assumes "well_named t" "trim e = render t"
  shows "parse_list_from out (e # es) =
           parse_list_from (if t \<in> set out then out else out @ [t]) es"
proof -
  obtain sc tb where t: "t = \<lparr>schema_name = sc, table_name = tb\<rparr>" by (cases t)
  with assms(1) have "split_once dot (render t) = Some (sc, tb)"
    and "tb \<noteq> []" "sc \<noteq> []" "dot \<notin> set tb" "render t \<noteq> []"
    by (auto simp: split_once_Some well_named_def render_def)
  with t show ?thesis by (simp add: Let_def assms(2))
qed

lemma parse_list_from_skip: "trim e = [] \<Longrightarrow> parse_list_from out (e # es) = parse_list_from out es"
  by simp

lemma parse_list_from_bad:
  assumes "trim e \<noteq> []" "\<not> (\<exists>t. well_named t \<and> trim e = render t)"
  shows "\<exists>err. parse_list_from out (e # es) = Inl err"
proof (cases "split_once dot (trim e)")
  case None
  with assms show ?thesis by (simp add: Let_def)
next
  case (Some p)
  obtain s b where p: "p = (s, b)" by (cases p)
  with Some assms(2) have "s = [] \<or> b = [] \<or> dot \<in> set b"
    using split_well_named [of "trim e" s b] by blast
  with Some p assms(1) show ?thesis by (auto simp: Let_def)
qed

text \<open>The tables that a list of entries names.\<close>

definition named :: "string list \<Rightarrow> table_key set" where
  "named es = {t. well_named t \<and> (\<exists>e\<in>set es. trim e = render t)}"

lemma named_Nil [simp]: "named [] = {}"
  by (simp add: named_def)

lemma named_blank: "trim e = [] \<Longrightarrow> named (e # es) = named es"
  by (auto simp: named_def render_def)

lemma named_Cons: "well_named t \<Longrightarrow> trim e = render t \<Longrightarrow> named (e # es) = insert t (named es)"
  using render_inj [of t] by (auto simp: named_def)

lemma parse_list_from_Inr:
  "parse_list_from out es = Inr ts \<Longrightarrow> distinct out \<Longrightarrow>
     distinct ts \<and> set ts = set out \<union> named es
     \<and> (\<forall>e\<in>set es. trim e = [] \<or> (\<exists>t. well_named t \<and> trim e = render t))"
proof (induction es arbitrary: out)
  case Nil
  then show ?case by simp
next
  case (Cons e es)
  show ?case
  proof (cases "trim e = []")
    case True
    with Cons.prems have "parse_list_from out es = Inr ts" by simp
    from Cons.IH [OF this Cons.prems(2)] True show ?thesis by (simp add: named_blank)
  next
    case False
    with Cons.prems(1) obtain t where t: "well_named t" "trim e = render t"
      using parse_list_from_bad [of e out es] by auto
    let ?out = "if t \<in> set out then out else out @ [t]"
    from Cons.prems(1) have "parse_list_from ?out es = Inr ts"
      unfolding parse_list_from_step [OF t] .
    moreover have "distinct ?out" using Cons.prems(2) by simp
    moreover have "set ?out = insert t (set out)" by auto
    ultimately show ?thesis
      using Cons.IH [of ?out] t by (auto simp: named_Cons [OF t])
  qed
qed

lemma parse_list_from_names:
  "parse_list_from out es = Inr ts \<Longrightarrow>
     \<exists>ns. list_all well_named ns \<and> filter (\<lambda>s. s \<noteq> []) (map trim es) = map render ns
       \<and> ts = fold (\<lambda>t out. if t \<in> set out then out else out @ [t]) ns out"
proof (induction es arbitrary: out)
  case Nil
  then show ?case by simp
next
  case (Cons e es)
  show ?case
  proof (cases "trim e = []")
    case True
    with Cons.prems have "parse_list_from out es = Inr ts" by simp
    from Cons.IH [OF this] True show ?thesis by simp
  next
    case False
    with Cons.prems obtain t where t: "well_named t" "trim e = render t"
      using parse_list_from_bad [of e out es] by auto
    from Cons.prems [unfolded parse_list_from_step [OF t]] Cons.IH obtain ns where
      "list_all well_named ns" "filter (\<lambda>s. s \<noteq> []) (map trim es) = map render ns"
      "ts = fold (\<lambda>t out. if t \<in> set out then out else out @ [t]) ns (if t \<in> set out then out else out @ [t])"
      by blast
    with t False show ?thesis by (intro exI [of _ "t # ns"]) simp
  qed
qed

text \<open>Noting each table when it comes first.\<close>

lemma fold_first:
  "fold (\<lambda>t out. if t \<in> set out then out else out @ [t]) ns [] = rev (remdups (rev ns))"
  by (induction ns rule: rev_induct) simp_all

text \<open>What is wrong with an entry.\<close>

definition entry_error :: "string \<Rightarrow> explicit_error \<Rightarrow> bool" where
  "entry_error e err =
     (e \<noteq> []
      \<and> (err = NotSchemaQualified e \<and> dot \<notin> set e
        \<or> (\<exists>s b. e = s @ dot # b \<and> dot \<notin> set s
             \<and> (err = NotASchemaTableName e \<and> (s = [] \<or> b = [])
               \<or> err = MoreThanOneDot e \<and> s \<noteq> [] \<and> b \<noteq> [] \<and> dot \<in> set b))))"

lemma parse_list_from_error:
  assumes "trim e \<noteq> []" "\<not> (\<exists>t. well_named t \<and> trim e = render t)" "parse_list_from out (e # es) = Inl err"
  shows "entry_error (trim e) err"
proof (cases "split_once dot (trim e)")
  case None
  with assms show ?thesis by (simp add: Let_def entry_error_def split_once_None)
next
  case (Some p)
  obtain s b where p: "p = (s, b)" by (cases p)
  with Some have split: "trim e = s @ dot # b" "dot \<notin> set s" by (simp_all add: split_once_Some)
  from Some p assms(2) have bad: "s = [] \<or> b = [] \<or> dot \<in> set b"
    using split_well_named [of "trim e" s b] by blast
  with assms(1,3) Some p have "err = (if s = [] \<or> b = [] then NotASchemaTableName (trim e) else MoreThanOneDot (trim e))"
    by (auto simp: Let_def)
  with bad split assms(1) show ?thesis unfolding entry_error_def by (cases "s = [] \<or> b = []") auto
qed

lemma parse_list_from_Inl:
  "parse_list_from out es = Inl err \<Longrightarrow>
     \<exists>good bad rest. es = good @ bad # rest \<and> entry_error (trim bad) err
       \<and> list_all (\<lambda>e. trim e = [] \<or> (\<exists>t. well_named t \<and> trim e = render t)) good
       \<and> trim bad \<noteq> [] \<and> \<not> (\<exists>t. well_named t \<and> trim bad = render t)"
proof (induction es arbitrary: out)
  case Nil
  then show ?case by simp
next
  case (Cons e es)
  show ?case
  proof (cases "trim e = [] \<or> (\<exists>t. well_named t \<and> trim e = render t)")
    case True
    with Cons.prems obtain out' where "parse_list_from out' es = Inl err"
      by (metis parse_list_from_skip parse_list_from_step)
    from Cons.IH [OF this] obtain good bad rest where "es = good @ bad # rest" "entry_error (trim bad) err"
      "list_all (\<lambda>e. trim e = [] \<or> (\<exists>t. well_named t \<and> trim e = render t)) good"
      "trim bad \<noteq> []" "\<not> (\<exists>t. well_named t \<and> trim bad = render t)" by blast
    with True show ?thesis by (intro exI [of _ "e # good"] exI [of _ bad] exI [of _ rest]) simp
  next
    case False
    with parse_list_from_error [of e out es err] Cons.prems show ?thesis
      by (intro exI [of _ "[]"] exI [of _ e] exI [of _ es]) simp
  qed
qed

text \<open>
  C29: \<open>--also-tables\<close> is accepted exactly when every entry that is not blank is, after trimming, one
  schema-qualified name \<open>schema.table\<close> with both parts non-empty and no further dot. The accepted list holds the
  tables named, each once, in the order in which they first come. A refused list is refused with the error of
  its first bad entry: one without a dot is not schema-qualified, one with an empty part around its first dot is
  no table name, and otherwise it has more than one dot.
\<close>

theorem parse_list_spec:
  "(case parse_list entries of
      Inr ts \<Rightarrow> distinct ts \<and> set ts = {t. well_named t \<and> (\<exists>e\<in>set entries. trim e = render t)}
        \<and> (\<exists>ns. list_all well_named ns \<and> filter (\<lambda>s. s \<noteq> []) (map trim entries) = map render ns
             \<and> ts = rev (remdups (rev ns)))
    | Inl err \<Rightarrow>
        \<exists>good bad rest. entries = good @ bad # rest
          \<and> list_all (\<lambda>e. trim e = [] \<or> (\<exists>t. well_named t \<and> trim e = render t)) good
          \<and> trim bad \<noteq> []
          \<and> (err = NotSchemaQualified (trim bad) \<and> dot \<notin> set (trim bad)
            \<or> (\<exists>s b. trim bad = s @ dot # b \<and> dot \<notin> set s
                 \<and> (err = NotASchemaTableName (trim bad) \<and> (s = [] \<or> b = [])
                   \<or> err = MoreThanOneDot (trim bad) \<and> s \<noteq> [] \<and> b \<noteq> [] \<and> dot \<in> set b))))
   \<and> ((\<exists>ts. parse_list entries = Inr ts) =
       list_all (\<lambda>e. trim e = [] \<or> (\<exists>t. well_named t \<and> trim e = render t)) entries)"
proof (cases "parse_list entries")
  case (Inl err)
  then have "parse_list_from [] entries = Inl err" by (simp add: parse_list_def)
  from parse_list_from_Inl [OF this] obtain good bad rest where *: "entries = good @ bad # rest"
    "entry_error (trim bad) err" "list_all (\<lambda>e. trim e = [] \<or> (\<exists>t. well_named t \<and> trim e = render t)) good"
    "trim bad \<noteq> []" "\<not> (\<exists>t. well_named t \<and> trim bad = render t)" by blast
  have "\<not> list_all (\<lambda>e. trim e = [] \<or> (\<exists>t. well_named t \<and> trim e = render t)) entries"
    unfolding *(1) using *(4,5) by simp
  moreover note *(2) [unfolded entry_error_def]
  ultimately show ?thesis unfolding Inl sum.case using *(1,3,4) by blast
next
  case (Inr ts)
  then have ok: "parse_list_from [] entries = Inr ts" by (simp add: parse_list_def)
  have "distinct ([] :: table_key list)" by simp
  note sets = parse_list_from_Inr [OF ok this]
  from parse_list_from_names [OF ok] obtain ns where "list_all well_named ns"
    "filter (\<lambda>s. s \<noteq> []) (map trim entries) = map render ns" "ts = rev (remdups (rev ns))"
    unfolding fold_first by blast
  with sets show ?thesis unfolding Inr sum.case by (auto simp: list_all_iff named_def)
qed

lemma has_ws_ascii_append:
  "is_ascii c \<Longrightarrow> \<not> ascii_ws c \<Longrightarrow> has_ws (xs @ c # ys) = (has_ws xs \<or> has_ws ys)"
proof (induction xs)
  case Nil
  then show ?case by (simp add: ws_len_ascii)
next
  case (Cons x xs)
  then show ?case using ws_len_before_ascii [of c "x # xs" ys] by simp
qed

lemma skip_ws_no_ws: "\<not> has_ws s \<Longrightarrow> skip_ws s = s"
  by (cases s) (auto intro: skip_ws_none)

lemma trim_no_ws: "\<not> has_ws s \<Longrightarrow> trim s = s"
proof -
  assume *: "\<not> has_ws s"
  then have "trim_end s = s"
    by (induction s) (auto simp: skip_ws_none)
  with * show ?thesis by (simp add: trim_def skip_ws_no_ws)
qed

lemma parse_list_from_render:
  "\<forall>t\<in>set ts. well_named t \<and> trim (render t) = render t \<Longrightarrow> distinct (out @ ts) \<Longrightarrow>
     parse_list_from out (map render ts) = Inr (out @ ts)"
proof (induction ts arbitrary: out)
  case Nil
  then show ?case by simp
next
  case (Cons t ts)
  then have "parse_list_from out (map render (t # ts)) = parse_list_from (out @ [t]) (map render ts)"
    using parse_list_from_step [of t "render t" out "map render ts"]
    by (simp del: parse_list_from.simps)
  also have "\<dots> = Inr ((out @ [t]) @ ts)" by (rule Cons.IH) (use Cons.prems in auto)
  finally show ?case by simp
qed

text \<open>
  Writing a list of distinct tables as \<open>schema.table\<close> entries (the names without white space,
  non-empty and without dots) and parsing it gives the same tables back, in the same order.
\<close>

theorem parse_list_roundtrip:
  assumes "distinct ts" "\<forall>t\<in>set ts. well_named t"
    "\<forall>t\<in>set ts. \<not> has_ws (schema_name t) \<and> \<not> has_ws (table_name t)"
  shows "parse_list (map render ts) = Inr ts"
proof -
  have "\<not> ascii_ws dot" by (simp add: ascii_ws_def)
  with assms(3) have "\<forall>t\<in>set ts. trim (render t) = render t"
    by (auto simp: render_def has_ws_ascii_append intro!: trim_no_ws)
  with assms show ?thesis
    using parse_list_from_render [of ts "[]"] by (simp add: parse_list_def)
qed

theorem parse_list_roundtrip_witness:
  "parse_list [''public.orders'', ''public.customers'']
     = Inr [\<lparr>schema_name = ''public'', table_name = ''orders''\<rparr>,
            \<lparr>schema_name = ''public'', table_name = ''customers''\<rparr>]"
  using parse_list_roundtrip
    [of "[\<lparr>schema_name = ''public'', table_name = ''orders''\<rparr>,
          \<lparr>schema_name = ''public'', table_name = ''customers''\<rparr>]"]
  by (simp add: render_def well_named_def ws_len_def ascii_ws_def ws2_def ws3_def)

end
