(* ===== verification/Db_Error.thy ===== *)
theory Db_Error
  imports Tables
begin

text \<open>
  Errors (\<open>src/db_error.rs\<close>, the exit code of \<open>src/shutdown.rs\<close>): which database errors mean that
  the session is gone, how an error chain maps to the exit code of the process, and how a failed
  table operation is classified (\<open>classify_op_error\<close> of \<open>src/operations.rs\<close>).

  A \<open>tokio_postgres::Error\<close> is a record of what the code reads of it: whether the connection was
  closed, the server's message and SQLSTATE if the server reported it, its own text, and the chain
  of its sources, each with its I/O error kind if it is an I/O error. An \<open>anyhow::Error\<close> is the
  list of its causes, outermost first.
\<close>

section \<open>Database errors\<close>

datatype io_kind =
  NotFound | PermissionDenied | ConnectionRefused | ConnectionReset | ConnectionAborted
  | NotConnected | BrokenPipe | TimedOut | UnexpectedEof | WouldBlock | InvalidData | OtherIo

record db_error =
  db_message :: string
  db_code :: string

record pg_error =
  closed :: bool
  db_part :: "db_error option"
  own_text :: string
  source_chain :: "(io_kind option \<times> string) list"

definition sqlstate :: "pg_error \<Rightarrow> string option" where
  "sqlstate e = map_option db_code (db_part e)"

record connection_lost =
  lost_operation :: string
  lost_schema :: string
  lost_table :: string
  lost_position :: "(nat \<times> nat) option"
  lost_cause :: string

datatype cause = CLost connection_lost | CPg pg_error | CIo io_kind string | CMsg string

type_synonym error = "cause list"

definition sqlstate_is_connection_loss :: "string \<Rightarrow> bool" where
  "sqlstate_is_connection_loss c =
     (starts_with ''08'' c \<or> c \<in> set [''57P01'', ''57P02'', ''57P03'', ''57P05''])"

definition io_kind_is_connection_loss :: "io_kind \<Rightarrow> bool" where
  "io_kind_is_connection_loss k =
     (k \<in> set [BrokenPipe, ConnectionReset, ConnectionAborted, UnexpectedEof, NotConnected, TimedOut])"

fun source_is_lost :: "(io_kind option \<times> string) list \<Rightarrow> bool" where
  "source_is_lost [] = False"
| "source_is_lost ((Some k, _) # rest) = (io_kind_is_connection_loss k \<or> source_is_lost rest)"
| "source_is_lost ((None, _) # rest) = source_is_lost rest"

definition is_connection_lost_pg :: "pg_error \<Rightarrow> bool" where
  "is_connection_lost_pg e =
     (if closed e then True
      else (case sqlstate e of
              Some c \<Rightarrow> sqlstate_is_connection_loss c
            | None \<Rightarrow> source_is_lost (source_chain e)))"

fun cause_is_lost :: "cause \<Rightarrow> bool" where
  "cause_is_lost (CLost _) = True"
| "cause_is_lost (CPg e) = is_connection_lost_pg e"
| "cause_is_lost (CIo k _) = io_kind_is_connection_loss k"
| "cause_is_lost (CMsg _) = False"

definition is_connection_lost :: "error \<Rightarrow> bool" where
  "is_connection_lost err = list_ex cause_is_lost err"

definition format_server_cause :: "string \<Rightarrow> string \<Rightarrow> string" where
  "format_server_cause message state = message @ '' (SQLSTATE '' @ state @ '')''"

definition describe_pg_error :: "pg_error \<Rightarrow> string" where
  "describe_pg_error e =
     (case db_part e of
        Some db \<Rightarrow> format_server_cause (db_message db) (db_code db)
      | None \<Rightarrow> (case source_chain e of
                   (_, source) # _ \<Rightarrow> own_text e @ '': '' @ source
                 | [] \<Rightarrow> own_text e))"

definition exit_code_for :: "error \<Rightarrow> nat" where
  "exit_code_for err = (if is_connection_lost err then 3 else 1)"

definition exit_code :: "error \<Rightarrow> bool \<Rightarrow> nat" where
  "exit_code err shutdown_requested = (if shutdown_requested then 130 else exit_code_for err)"

text \<open>
  How errors are wrapped: \<open>anyhow::Error\<close> of a database error lists its sources behind it,
  \<open>.context(\<dots>)\<close> puts a message in front, and \<open>anyhow!("\<dots>{e}")\<close> keeps the text only.
\<close>

definition from_pg :: "pg_error \<Rightarrow> error" where
  "from_pg e = CPg e # map (\<lambda>(k, t). case k of Some k' \<Rightarrow> CIo k' t | None \<Rightarrow> CMsg t) (source_chain e)"

definition with_context :: "string \<Rightarrow> error \<Rightarrow> error" where
  "with_context msg err = CMsg msg # err"

definition context_pg :: "string \<Rightarrow> pg_error \<Rightarrow> error" where
  "context_pg msg e = with_context msg (from_pg e)"

definition error_from_text :: "string \<Rightarrow> error" where
  "error_from_text text = [CMsg text]"

definition connection_lost_display :: "connection_lost \<Rightarrow> string" where
  "connection_lost_display l =
     ''Database connection lost during '' @ lost_operation l @ '' on '' @
     [dquote] @ lost_schema l @ [dquote] @ ''.'' @ [dquote] @ lost_table l @ [dquote] @
     (case lost_position l of
        Some (i, n) \<Rightarrow> '' (table '' @ dec i @ ''/'' @ dec n @ '')''
      | None \<Rightarrow> '''') @
     '': '' @ lost_cause l @ ''. Remaining tables and phases were NOT processed. '' @
     ''The advisory lock was released with the session; '' @
     ''re-running is safe (candidates are re-discovered).''"

section \<open>Failed table operations\<close>

definition LOCK_NOT_AVAILABLE :: string where "LOCK_NOT_AVAILABLE = ''55P03''"
definition QUERY_CANCELED :: string where "QUERY_CANCELED = ''57014''"

definition is_lock_timeout :: "pg_error \<Rightarrow> bool" where
  "is_lock_timeout e = (sqlstate e = Some LOCK_NOT_AVAILABLE)"

datatype op_error_kind = LockTimeout | ConnectionLost | ShutdownInterrupted | OtherError

definition classify_op_error :: "pg_error \<Rightarrow> bool \<Rightarrow> op_error_kind" where
  "classify_op_error e shutdown_requested =
     (let lost = is_connection_lost_pg e in
      if shutdown_requested \<and> (lost \<or> sqlstate e = Some QUERY_CANCELED) then ShutdownInterrupted
      else if lost then ConnectionLost
      else if is_lock_timeout e then LockTimeout
      else OtherError)"

section \<open>Facts\<close>

lemma not_lost_codes [simp]:
  "\<not> sqlstate_is_connection_loss LOCK_NOT_AVAILABLE"
  "\<not> sqlstate_is_connection_loss QUERY_CANCELED"
  by (simp_all add: sqlstate_is_connection_loss_def starts_with_def LOCK_NOT_AVAILABLE_def
      QUERY_CANCELED_def)

lemma source_is_lost_iff:
  "source_is_lost ss = (\<exists>(k, t)\<in>set ss. case k of Some k' \<Rightarrow> io_kind_is_connection_loss k' | None \<Rightarrow> False)"
  by (induction ss rule: source_is_lost.induct) auto

lemma is_connection_lost_Cons [simp]:
  "is_connection_lost (c # err) = (cause_is_lost c \<or> is_connection_lost err)"
  "\<not> is_connection_lost []"
  by (simp_all add: is_connection_lost_def)

lemma classify_OtherError_iff:
  "classify_op_error e sd \<in> {LockTimeout, OtherError} \<longleftrightarrow>
     \<not> is_connection_lost_pg e \<and> \<not> (sd \<and> sqlstate e = Some QUERY_CANCELED)"
  by (auto simp: classify_op_error_def Let_def)

lemma is_connection_lost_append [simp]:
  "is_connection_lost (a @ b) = (is_connection_lost a \<or> is_connection_lost b)"
  by (simp add: is_connection_lost_def)

lemma wrapped_error_lost: "is_connection_lost (fold with_context msgs err) = is_connection_lost err"
  by (induction msgs arbitrary: err) (simp_all add: with_context_def)

lemma from_pg_lost:
  "is_connection_lost (from_pg e) \<longleftrightarrow> is_connection_lost_pg e \<or> source_is_lost (source_chain e)"
  by (force simp: from_pg_def is_connection_lost_def list_ex_iff source_is_lost_iff split: option.splits)

lemma starts_with_iff: "starts_with p s \<longleftrightarrow> (\<exists>rest. s = p @ rest)"
  unfolding starts_with_def by (metis append_take_drop_id append_eq_conv_conj)

lemma code_lost_iff:
  "sqlstate_is_connection_loss c \<longleftrightarrow>
     (\<exists>rest. c = ''08'' @ rest) \<or> c \<in> {''57P01'', ''57P02'', ''57P03'', ''57P05''}"
  by (simp add: sqlstate_is_connection_loss_def starts_with_iff)

lemma io_lost_iff:
  "io_kind_is_connection_loss k \<longleftrightarrow>
     k \<in> {BrokenPipe, ConnectionReset, ConnectionAborted, UnexpectedEof, NotConnected, TimedOut}"
  by (simp add: io_kind_is_connection_loss_def)

lemma source_lost_iff:
  "source_is_lost ss \<longleftrightarrow> (\<exists>(k, t)\<in>set ss. k \<in> Some ` {BrokenPipe, ConnectionReset,
     ConnectionAborted, UnexpectedEof, NotConnected, TimedOut})"
  by (induction ss rule: source_is_lost.induct) (simp_all add: io_lost_iff image_iff)

lemma lost_pg_iff:
  "is_connection_lost_pg e \<longleftrightarrow>
     closed e
   \<or> (\<exists>db. db_part e = Some db \<and> ((\<exists>rest. db_code db = ''08'' @ rest)
        \<or> db_code db \<in> {''57P01'', ''57P02'', ''57P03'', ''57P05''}))
   \<or> db_part e = None \<and> (\<exists>(k, t)\<in>set (source_chain e). k \<in> Some ` {BrokenPipe, ConnectionReset,
        ConnectionAborted, UnexpectedEof, NotConnected, TimedOut})"
  unfolding code_lost_iff [symmetric] source_lost_iff [symmetric]
  by (cases "db_part e") (simp_all add: is_connection_lost_pg_def sqlstate_def)

text \<open>
  C28: The exit code of an error, whatever chain of causes it has: 130 after a shutdown; otherwise 3 exactly
  when some cause is the runners' own lost connection, or a database error that closed the connection, or
  one that the server reported with an SQLSTATE of class 08 or one of 57P01, 57P02, 57P03, 57P05, or one that
  it did not report and that has one of six kinds of I/O error among its sources, or such an I/O error itself;
  and 1 in every other case. Messages wrapped around an error do not change it. A database error in a
  chain brings its sources with it. A lock timeout (55P03) or a cancelled statement (57014) on an open session,
  without an I/O error behind it, gives 1; and so does an error that was turned into text before it was
  wrapped, even when the session is lost.
\<close>

theorem exit_code_of_wrapped_error:
  "exit_code err True = 130
   \<and> exit_code err False =
       (if \<exists>c\<in>set err.
             (\<exists>l. c = CLost l)
           \<or> (\<exists>e. c = CPg e
                \<and> (closed e
                   \<or> (\<exists>db. db_part e = Some db \<and> ((\<exists>rest. db_code db = ''08'' @ rest)
                         \<or> db_code db \<in> {''57P01'', ''57P02'', ''57P03'', ''57P05''}))
                   \<or> db_part e = None \<and> (\<exists>(k, t)\<in>set (source_chain e). k \<in> Some ` {BrokenPipe, ConnectionReset,
                         ConnectionAborted, UnexpectedEof, NotConnected, TimedOut})))
           \<or> (\<exists>k t. c = CIo k t \<and> k \<in> {BrokenPipe, ConnectionReset, ConnectionAborted, UnexpectedEof,
                         NotConnected, TimedOut})
        then 3 else 1)
   \<and> exit_code (fold with_context msgs err) sd = exit_code err sd
   \<and> exit_code (fold with_context msgs (from_pg e)) False =
       (if is_connection_lost_pg e \<or> source_is_lost (source_chain e) then 3 else 1)
   \<and> (\<not> closed e \<and> sqlstate e \<in> {Some ''55P03'', Some ''57014''} \<and> \<not> source_is_lost (source_chain e) \<longrightarrow>
        exit_code (fold with_context msgs (from_pg e)) False = 1)
   \<and> exit_code (fold with_context msgs (error_from_text (describe_pg_error e))) False = 1"
proof -
  have cause: "cause_is_lost c \<longleftrightarrow>
        (\<exists>l. c = CLost l)
      \<or> (\<exists>e. c = CPg e
           \<and> (closed e
              \<or> (\<exists>db. db_part e = Some db \<and> ((\<exists>rest. db_code db = ''08'' @ rest)
                    \<or> db_code db \<in> {''57P01'', ''57P02'', ''57P03'', ''57P05''}))
              \<or> db_part e = None \<and> (\<exists>(k, t)\<in>set (source_chain e). k \<in> Some ` {BrokenPipe, ConnectionReset,
                    ConnectionAborted, UnexpectedEof, NotConnected, TimedOut})))
      \<or> (\<exists>k t. c = CIo k t \<and> k \<in> {BrokenPipe, ConnectionReset, ConnectionAborted, UnexpectedEof,
                    NotConnected, TimedOut})" for c
  proof (cases c)
    case (CPg e)
    show ?thesis unfolding CPg cause_is_lost.simps lost_pg_iff by blast
  qed (simp_all add: io_lost_iff)
  have code: "exit_code err False = (if is_connection_lost err then 3 else 1)" for err
    by (simp add: exit_code_def exit_code_for_def)
  then have any: "exit_code err False = (if \<exists>c\<in>set err. cause_is_lost c then 3 else 1)"
    by (simp add: is_connection_lost_def list_ex_iff)
  have wrapped: "exit_code (fold with_context msgs err) sd = exit_code err sd" for err sd
    by (simp add: exit_code_def exit_code_for_def wrapped_error_lost)
  have pg: "exit_code (fold with_context msgs (from_pg e)) False =
      (if is_connection_lost_pg e \<or> source_is_lost (source_chain e) then 3 else 1)"
    by (simp add: code wrapped_error_lost from_pg_lost)
  have still_open: "\<not> is_connection_lost_pg e" if "\<not> closed e" "sqlstate e \<in> {Some ''55P03'', Some ''57014''}"
    using that by (auto simp: is_connection_lost_pg_def sqlstate_is_connection_loss_def starts_with_def)
  have lock: "exit_code (fold with_context msgs (from_pg e)) False = 1"
    if "\<not> closed e \<and> sqlstate e \<in> {Some ''55P03'', Some ''57014''} \<and> \<not> source_is_lost (source_chain e)"
  proof -
    from that still_open have "\<not> (is_connection_lost_pg e \<or> source_is_lost (source_chain e))" by blast
    with pg show ?thesis by (simp only: if_False)
  qed
  have as_text: "exit_code (fold with_context msgs (error_from_text (describe_pg_error e))) False = 1"
    by (simp add: code wrapped_error_lost error_from_text_def)
  have shutdown: "exit_code err True = 130" by (simp add: exit_code_def)
  from any have "exit_code err False = (if \<exists>c\<in>set err. cause_is_lost c then 3 else 1)" .
  from shutdown this [unfolded cause] wrapped pg lock as_text show ?thesis by (intro conjI impI)
qed

theorem exit_code_of_wrapped_error_witness:
  "exit_code (fold with_context [''Failed to read server_version_num'', ''connect'']
     (from_pg \<lparr>closed = False, db_part = Some \<lparr>db_message = ''shutdown'', db_code = ''57P01''\<rparr>,
               own_text = ''db error'', source_chain = [(None, ''shutdown'')]\<rparr>)) False = 3
   \<and> exit_code (fold with_context [''connect'']
     (from_pg \<lparr>closed = False, db_part = Some \<lparr>db_message = ''lock'', db_code = ''55P03''\<rparr>,
               own_text = ''db error'', source_chain = [(None, ''lock'')]\<rparr>)) False = 1
   \<and> exit_code [CMsg ''phase failed'', CIo BrokenPipe ''broken pipe''] False = 3"
proof (intro conjI)
  let ?gone = "\<lparr>closed = False, db_part = Some \<lparr>db_message = ''shutdown'', db_code = ''57P01''\<rparr>,
    own_text = ''db error'', source_chain = [(None, ''shutdown'')]\<rparr>"
  let ?lock = "\<lparr>closed = False, db_part = Some \<lparr>db_message = ''lock'', db_code = ''55P03''\<rparr>,
    own_text = ''db error'', source_chain = [(None, ''lock'')]\<rparr>"
  note all = exit_code_of_wrapped_error
  show "exit_code (fold with_context [''Failed to read server_version_num'', ''connect''] (from_pg ?gone)) False = 3"
    by (subst all [THEN conjunct2, THEN conjunct2, THEN conjunct2, THEN conjunct1])
      (simp add: is_connection_lost_pg_def sqlstate_def sqlstate_is_connection_loss_def)
  show "exit_code (fold with_context [''connect''] (from_pg ?lock)) False = 1"
    by (rule all [THEN conjunct2, THEN conjunct2, THEN conjunct2, THEN conjunct2, THEN conjunct1, THEN mp])
      (simp add: sqlstate_def)
  show "exit_code [CMsg ''phase failed'', CIo BrokenPipe ''broken pipe''] False = 3"
    by (subst all [THEN conjunct2, THEN conjunct1]) simp
qed

end
