(* ===== verification/Vacuum_Sql.thy ===== *)
theory Vacuum_Sql
  imports Db_Error
begin

text \<open>
  The statements of \<open>src/operations.rs\<close>: how VACUUM and ANALYZE commands are put together from the
  options and the names of a table. The reference point is a reader of such a command, written after
  PostgreSQL's lexical rules for quoted identifiers: it gets back exactly the options and the table
  that the command was built from, whatever characters the names contain.
\<close>

section \<open>Building the statements\<close>

definition quote_ident :: "string \<Rightarrow> string" where
  "quote_ident s = replace_char dquote [dquote, dquote] s"

definition push_parallel :: "vacuum_options \<Rightarrow> string list \<Rightarrow> string list" where
  "push_parallel v opts =
     (case parallel v of Some n \<Rightarrow> opts @ [''PARALLEL '' @ dec n] | None \<Rightarrow> opts)"

text \<open>\<open>"<schema>"."<table>"\<close> with the identifiers quoted.\<close>

definition quoted_target :: "string \<Rightarrow> string \<Rightarrow> string" where
  "quoted_target schema table =
     [dquote] @ quote_ident schema @ [dquote] @ ''.'' @ [dquote] @ quote_ident table @ [dquote]"

definition vacuum_statement :: "string list \<Rightarrow> string \<Rightarrow> string \<Rightarrow> string" where
  "vacuum_statement opts schema table =
     ''VACUUM ('' @ join '', '' opts @ '') '' @ quoted_target schema table"

definition vacuum_opts :: "vacuum_options \<Rightarrow> string list" where
  "vacuum_opts v =
     (let opts = [''VERBOSE''];
          opts = (if \<not> vo_truncate v then opts @ [''TRUNCATE FALSE''] else opts);
          opts = (if disable_page_skipping v then opts @ [''DISABLE_PAGE_SKIPPING''] else opts);
          opts = (if skip_locked v then opts @ [''SKIP_LOCKED''] else opts);
          opts = (case index_cleanup v of
                    Some True \<Rightarrow> opts @ [''INDEX_CLEANUP TRUE'']
                  | Some False \<Rightarrow> opts @ [''INDEX_CLEANUP FALSE'']
                  | None \<Rightarrow> opts)
      in push_parallel v opts)"

definition vacuum_sql :: "string \<Rightarrow> string \<Rightarrow> vacuum_options \<Rightarrow> string" where
  "vacuum_sql schema table v = vacuum_statement (vacuum_opts v) schema table"

definition freeze_opts :: "vacuum_options \<Rightarrow> string list" where
  "freeze_opts v =
     (let opts = [''VERBOSE'', ''FREEZE''];
          opts = (case index_cleanup v of
                    Some True \<Rightarrow> opts @ [''INDEX_CLEANUP TRUE'']
                  | Some False \<Rightarrow> opts @ [''INDEX_CLEANUP FALSE'']
                  | None \<Rightarrow> opts @ [''INDEX_CLEANUP FALSE'']);
          opts = (if \<not> vo_truncate v then opts @ [''TRUNCATE FALSE''] else opts);
          opts = (if disable_page_skipping v then opts @ [''DISABLE_PAGE_SKIPPING''] else opts);
          opts = (if skip_locked v then opts @ [''SKIP_LOCKED''] else opts)
      in push_parallel v opts)"

definition freeze_sql :: "string \<Rightarrow> string \<Rightarrow> vacuum_options \<Rightarrow> string" where
  "freeze_sql schema table v = vacuum_statement (freeze_opts v) schema table"

definition vacuum_analyze_opts :: "vacuum_options \<Rightarrow> string list" where
  "vacuum_analyze_opts v =
     (let opts = [''VERBOSE'', ''ANALYZE''];
          opts = (if \<not> vo_truncate v then opts @ [''TRUNCATE FALSE''] else opts);
          opts = (if disable_page_skipping v then opts @ [''DISABLE_PAGE_SKIPPING''] else opts);
          opts = (if skip_locked v then opts @ [''SKIP_LOCKED''] else opts);
          opts = (case index_cleanup v of
                    Some True \<Rightarrow> opts @ [''INDEX_CLEANUP TRUE'']
                  | Some False \<Rightarrow> opts @ [''INDEX_CLEANUP FALSE'']
                  | None \<Rightarrow> opts)
      in push_parallel v opts)"

definition vacuum_analyze_sql :: "string \<Rightarrow> string \<Rightarrow> vacuum_options \<Rightarrow> string" where
  "vacuum_analyze_sql schema table v = vacuum_statement (vacuum_analyze_opts v) schema table"

text \<open>The statement of \<open>analyze_table\<close>.\<close>

definition analyze_sql :: "string \<Rightarrow> string \<Rightarrow> string" where
  "analyze_sql schema table = ''ANALYZE '' @ quoted_target schema table"

section \<open>Reading them back\<close>

text \<open>
  PostgreSQL's rule for the inside of a quoted identifier: it ends at the first quote that is not
  doubled, and a doubled quote stands for one. \<open>None\<close> is an unterminated identifier.
\<close>

fun scan_ident :: "string \<Rightarrow> (string \<times> string) option" where
  "scan_ident [] = None"
| "scan_ident (c # cs) =
     (if c = dquote
      then (case cs of
              d # ds \<Rightarrow> if d = dquote
                        then map_option (\<lambda>(ident, rest). (dquote # ident, rest)) (scan_ident ds)
                        else Some ([], cs)
            | [] \<Rightarrow> Some ([], []))
      else map_option (\<lambda>(ident, rest). (c # ident, rest)) (scan_ident cs))"

definition read_target :: "string \<Rightarrow> (string \<times> string) option" where
  "read_target s =
     (case s of
        q # s1 \<Rightarrow> if q \<noteq> dquote then None else
          (case scan_ident s1 of
             Some (schema, d # q2 # s2) \<Rightarrow>
               if d \<noteq> dot \<or> q2 \<noteq> dquote then None else
               (case scan_ident s2 of
                  Some (table, []) \<Rightarrow> Some (schema, table)
                | _ \<Rightarrow> None)
           | _ \<Rightarrow> None)
      | [] \<Rightarrow> None)"

definition strip_prefix :: "string \<Rightarrow> string \<Rightarrow> string option" where
  "strip_prefix p s = (if starts_with p s then Some (drop (length p) s) else None)"

definition drop_space :: "string \<Rightarrow> string" where
  "drop_space s = (case s of c # cs \<Rightarrow> if c = space then cs else s | [] \<Rightarrow> [])"

definition read_options :: "string list \<Rightarrow> vacuum_options" where
  "read_options os =
     \<lparr>vo_truncate = ''TRUNCATE FALSE'' \<notin> set os,
      disable_page_skipping = ''DISABLE_PAGE_SKIPPING'' \<in> set os,
      skip_locked = ''SKIP_LOCKED'' \<in> set os,
      index_cleanup = (if ''INDEX_CLEANUP TRUE'' \<in> set os then Some True
                       else if ''INDEX_CLEANUP FALSE'' \<in> set os then Some False else None),
      parallel = (case filter (starts_with ''PARALLEL '') os of
                    p # _ \<Rightarrow> Some (read_nat (drop 9 p))
                  | [] \<Rightarrow> None)\<rparr>"

definition read_commands :: "string list \<Rightarrow> string list" where
  "read_commands os = filter (\<lambda>x. x \<in> set [''VERBOSE'', ''FREEZE'', ''ANALYZE'']) os"

definition read_vacuum :: "string \<Rightarrow> (string list \<times> string \<times> string) option" where
  "read_vacuum s =
     Option.bind (strip_prefix ''VACUUM ('' s) (\<lambda>s.
     Option.bind (split_once (CHR 0x29) s) (\<lambda>(opts, s).
     Option.bind (strip_prefix '' '' s) (\<lambda>s.
     map_option (\<lambda>(schema, table). (map drop_space (split_on (CHR 0x2C) opts), schema, table))
       (read_target s))))"

definition read_analyze :: "string \<Rightarrow> (string \<times> string) option" where
  "read_analyze s = Option.bind (strip_prefix ''ANALYZE '' s) read_target"

lemma scan_ident_quote_ident:
  "rest = [] \<or> hd rest \<noteq> dquote \<Longrightarrow>
     scan_ident (quote_ident s @ dquote # rest) = Some (s, rest)"
  by (induction s) (auto simp: quote_ident_def replace_char_def split: list.splits)

lemma read_quoted_target [simp]: "read_target (quoted_target schema table) = Some (schema, table)"
proof -
  have "scan_ident (quote_ident schema @ dquote # dot # dquote # quote_ident table @ [dquote])
      = Some (schema, dot # dquote # quote_ident table @ [dquote])"
    by (rule scan_ident_quote_ident) simp
  moreover have "scan_ident (quote_ident table @ [dquote]) = Some (table, [])"
    by (rule scan_ident_quote_ident) simp
  ultimately show ?thesis by (simp add: read_target_def quoted_target_def)
qed

lemma quoted_target_inj:
  "quoted_target s t = quoted_target s' t' \<longleftrightarrow> s = s' \<and> t = t'"
  by (metis Pair_inject option.inject read_quoted_target)

lemma strip_prefix_append [simp]: "strip_prefix p (p @ s) = Some s"
  by (simp add: strip_prefix_def starts_with_def)

lemma split_on_comma_join:
  assumes "\<forall>x\<in>set xs. CHR 0x2C \<notin> set x \<and> x \<noteq> [] \<and> hd x \<noteq> space" "xs \<noteq> []"
  shows "map drop_space (split_on (CHR 0x2C) (join '', '' xs)) = xs"
proof -
  have *: "split_on (CHR 0x2C) (space # join '', '' ys) = map (Cons space) ys"
    if "\<forall>y\<in>set ys. CHR 0x2C \<notin> set y" "ys \<noteq> []" for ys
    using that
  proof (induction "'', ''" ys rule: join.induct)
    case (3 x y zs)
    then show ?case using split_on_append [of "CHR 0x2C" "space # x"] by simp
  qed (simp_all add: split_on_no_sep)
  from assms obtain y ys where xs: "xs = y # ys" by (cases xs) auto
  have "map drop_space (map (Cons space) ys) = ys"
    by (simp add: drop_space_def comp_def)
  moreover have "drop_space y = y"
    using assms(1) xs by (cases y) (auto simp: drop_space_def)
  ultimately show ?thesis
    using assms(1) xs *[of ys]
    by (cases ys) (auto simp: split_on_no_sep split_on_append)
qed

section \<open>The contract of a statement builder\<close>

text \<open>
  A builder turns the options into a list of option words: none contains the punctuation of the
  command, and the words, read back, are the command's kind and the options it stands for.
\<close>

locale vacuum_command =
  fixes opts :: "vacuum_options \<Rightarrow> string list"
    and commands :: "string list"
    and meaning :: "vacuum_options \<Rightarrow> vacuum_options"
  assumes words: "\<forall>x\<in>set (opts v). x \<noteq> [] \<and> hd x \<noteq> space \<and> CHR 0x2C \<notin> set x \<and> CHR 0x29 \<notin> set x"
    and kind: "read_commands (opts v) = commands"
    and options: "read_options (opts v) = meaning v"
    and some_option: "commands \<noteq> []"
begin

lemma opts_nonempty: "opts v \<noteq> []"
  using kind [of v] some_option by (auto simp: read_commands_def)

lemma read_back: "read_vacuum (vacuum_statement (opts v) s t) = Some (opts v, s, t)"
proof -
  have "CHR 0x29 \<notin> set (join '', '' xs)" if "\<forall>x\<in>set xs. CHR 0x29 \<notin> set x" for xs
    using that by (induction "'', ''" xs rule: join.induct) auto
  then have "split_once (CHR 0x29) (join '', '' (opts v) @ '') '' @ quoted_target s t)
      = Some (join '', '' (opts v), '' '' @ quoted_target s t)"
    using words [of v] by (auto simp: split_once_Some)
  moreover have "map drop_space (split_on (CHR 0x2C) (join '', '' (opts v))) = opts v"
    using words [of v] by (intro split_on_comma_join) (auto simp: opts_nonempty)
  ultimately show ?thesis
    using strip_prefix_append [of "''VACUUM (''"] strip_prefix_append [of "'' ''"]
    by (simp add: read_vacuum_def vacuum_statement_def)
qed

lemma decode:
  "map_option (\<lambda>(os, s, t). (read_commands os, read_options os, s, t))
     (read_vacuum (vacuum_statement (opts v) s t)) = Some (commands, meaning v, s, t)"
  by (simp add: read_back kind options)

end

lemmas option_list_defs =
  vacuum_opts_def freeze_opts_def vacuum_analyze_opts_def push_parallel_def Let_def

lemma vacuum_options_cases:
  fixes v :: vacuum_options
  obtains t d k i p where
    "v = \<lparr>vo_truncate = t, disable_page_skipping = d, skip_locked = k, index_cleanup = i, parallel = p\<rparr>"
    "t = True \<or> t = False" "d = True \<or> d = False" "k = True \<or> k = False"
    "i = None \<or> i = Some True \<or> i = Some False" "p = None \<or> (\<exists>n. p = Some n)"
proof -
  obtain t d k i p where "v =
    \<lparr>vo_truncate = t, disable_page_skipping = d, skip_locked = k, index_cleanup = i, parallel = p\<rparr>"
    by (cases v)
  moreover have "i = None \<or> i = Some True \<or> i = Some False" by (cases i) auto
  moreover have "p = None \<or> (\<exists>n. p = Some n)" by (cases p) auto
  ultimately show thesis using that by blast
qed

lemma dec_no_punctuation: "CHR 0x2C \<notin> set (dec n)" "CHR 0x29 \<notin> set (dec n)"
  using dec_digits [of "CHR 0x2C" n] dec_digits [of "CHR 0x29" n] by auto

lemma starts_with_append [simp]: "starts_with p (p @ s)"
  by (simp add: starts_with_def)

text \<open>A missing index-cleanup choice of a freeze means FALSE.\<close>

definition freeze_meaning :: "vacuum_options \<Rightarrow> vacuum_options" where
  "freeze_meaning v = v\<lparr>index_cleanup := Some (index_cleanup v = Some True)\<rparr>"

interpretation regular: vacuum_command vacuum_opts "[''VERBOSE'']" id
proof
  fix v :: vacuum_options
  show "\<forall>x\<in>set (vacuum_opts v). x \<noteq> [] \<and> hd x \<noteq> space \<and> CHR 0x2C \<notin> set x \<and> CHR 0x29 \<notin> set x"
    by (cases v rule: vacuum_options_cases; elim disjE exE)
      (simp_all add: option_list_defs dec_no_punctuation)
  show "read_commands (vacuum_opts v) = [''VERBOSE'']"
    by (cases v rule: vacuum_options_cases; elim disjE exE)
      (simp_all add: option_list_defs read_commands_def)
  show "read_options (vacuum_opts v) = id v"
    by (cases v rule: vacuum_options_cases; elim disjE exE)
      (simp_all add: option_list_defs read_options_def starts_with_def)
qed simp

interpretation freeze: vacuum_command freeze_opts "[''VERBOSE'', ''FREEZE'']" freeze_meaning
proof
  fix v :: vacuum_options
  show "\<forall>x\<in>set (freeze_opts v). x \<noteq> [] \<and> hd x \<noteq> space \<and> CHR 0x2C \<notin> set x \<and> CHR 0x29 \<notin> set x"
    by (cases v rule: vacuum_options_cases; elim disjE exE)
      (simp_all add: option_list_defs dec_no_punctuation)
  show "read_commands (freeze_opts v) = [''VERBOSE'', ''FREEZE'']"
    by (cases v rule: vacuum_options_cases; elim disjE exE)
      (simp_all add: option_list_defs read_commands_def)
  show "read_options (freeze_opts v) = freeze_meaning v"
    by (cases v rule: vacuum_options_cases; elim disjE exE)
      (simp_all add: option_list_defs read_options_def starts_with_def freeze_meaning_def)
qed simp

interpretation with_analyze: vacuum_command vacuum_analyze_opts "[''VERBOSE'', ''ANALYZE'']" id
proof
  fix v :: vacuum_options
  show "\<forall>x\<in>set (vacuum_analyze_opts v). x \<noteq> [] \<and> hd x \<noteq> space \<and> CHR 0x2C \<notin> set x \<and> CHR 0x29 \<notin> set x"
    by (cases v rule: vacuum_options_cases; elim disjE exE)
      (simp_all add: option_list_defs dec_no_punctuation)
  show "read_commands (vacuum_analyze_opts v) = [''VERBOSE'', ''ANALYZE'']"
    by (cases v rule: vacuum_options_cases; elim disjE exE)
      (simp_all add: option_list_defs read_commands_def)
  show "read_options (vacuum_analyze_opts v) = id v"
    by (cases v rule: vacuum_options_cases; elim disjE exE)
      (simp_all add: option_list_defs read_options_def starts_with_def)
qed simp

definition read_statement ::
  "string \<Rightarrow> (string list \<times> vacuum_options \<times> string \<times> string) option" where
  "read_statement s =
     map_option (\<lambda>(os, schema, table). (read_commands os, read_options os, schema, table)) (read_vacuum s)"

text \<open>The table that a statement of the program names.\<close>

definition statement_target :: "string \<Rightarrow> (string \<times> string) option" where
  "statement_target s = (case read_vacuum s of Some (_, p) \<Rightarrow> Some p | None \<Rightarrow> read_analyze s)"

lemma statement_target_vacuum [simp]:
  "statement_target (vacuum_sql s t v) = Some (s, t)"
  "statement_target (freeze_sql s t v) = Some (s, t)"
  "statement_target (vacuum_analyze_sql s t v) = Some (s, t)"
  by (simp_all add: statement_target_def vacuum_sql_def freeze_sql_def vacuum_analyze_sql_def
      regular.read_back freeze.read_back with_analyze.read_back)

lemma statement_target_analyze [simp]: "statement_target (analyze_sql s t) = Some (s, t)"
proof -
  have "strip_prefix ''VACUUM ('' (analyze_sql s t) = None"
    by (simp add: strip_prefix_def starts_with_def analyze_sql_def)
  moreover have "strip_prefix ''ANALYZE '' (analyze_sql s t) = Some (quoted_target s t)"
    unfolding analyze_sql_def by (rule strip_prefix_append)
  ultimately show ?thesis by (simp add: statement_target_def read_vacuum_def read_analyze_def)
qed

text \<open>
  C27: Every statement of the program, read by PostgreSQL's rules, is the command that was meant: for any
  schema and table name (quotes included) the target is exactly that table, the kind of the command is
  the one of its mode, and the options are exactly the requested ones; a freeze without a choice for
  INDEX\_CLEANUP always says FALSE. So no name can break out of its quotes, and two different
  requests never give the same statement.
\<close>

theorem statements_read_back:
  "read_statement (vacuum_sql s t v) = Some ([''VERBOSE''], v, s, t)
   \<and> read_statement (freeze_sql s t v) = Some ([''VERBOSE'', ''FREEZE''], freeze_meaning v, s, t)
   \<and> read_statement (vacuum_analyze_sql s t v) = Some ([''VERBOSE'', ''ANALYZE''], v, s, t)
   \<and> read_analyze (analyze_sql s t) = Some (s, t)"
  using regular.decode [of v s t] freeze.decode [of v s t] with_analyze.decode [of v s t]
    strip_prefix_append [of "''ANALYZE ''"]
  by (simp add: read_statement_def vacuum_sql_def freeze_sql_def vacuum_analyze_sql_def
      read_analyze_def analyze_sql_def)

end
