(* ===== verification/Lag.thy ===== *)
theory Lag
  imports Vacuum_Sql
begin

text \<open>
  Replication lag (\<open>src/types.rs\<close>): what a read of \<open>pg_stat_replication\<close> tells, when the lag is
  over a threshold, and the state of the per-table lag gate. The gate's atomics are fields of a
  record; a duration is a number of nanoseconds.
\<close>

section \<open>Observations\<close>

record standby_lag =
  application_name :: string
  standby_state :: string
  sync_state :: string
  replay_lag_seconds :: "f64 option"

datatype lag_observation = NoReplicas | Unobservable | Observed "standby_lag list"

text \<open>\<open>replay\_lag\_seconds.unwrap\_or(0.0)\<close>.\<close>

definition standby_lag_or_zero :: "standby_lag \<Rightarrow> f64" where
  "standby_lag_or_zero s = (case replay_lag_seconds s of Some l \<Rightarrow> l | None \<Rightarrow> Fin 0)"

fun max_lag_seconds :: "lag_observation \<Rightarrow> f64 option" where
  "max_lag_seconds NoReplicas = Some (Fin 0)"
| "max_lag_seconds Unobservable = None"
| "max_lag_seconds (Observed standbys) =
     Some (foldl f64_max (Fin 0) (map standby_lag_or_zero standbys))"

definition exceeds :: "lag_observation \<Rightarrow> f64 \<Rightarrow> bool" where
  "exceeds obs threshold =
     (case max_lag_seconds obs of Some m \<Rightarrow> threshold < m | None \<Rightarrow> False)"

text \<open>\<open>Iterator::max_by\<close>: the last of several maximal elements.\<close>

fun max_by :: "('a \<Rightarrow> 'a \<Rightarrow> bool) \<Rightarrow> 'a list \<Rightarrow> 'a option" where
  "max_by le [] = None"
| "max_by le (x # xs) = Some (foldl (\<lambda>m y. if le m y then y else m) x xs)"

fun worst_standby :: "lag_observation \<Rightarrow> standby_lag option" where
  "worst_standby (Observed standbys) =
     max_by (\<lambda>a b. f64_total_le (standby_lag_or_zero a) (standby_lag_or_zero b)) standbys"
| "worst_standby _ = None"

fun standby_count :: "lag_observation \<Rightarrow> nat" where
  "standby_count (Observed standbys) = length standbys"
| "standby_count _ = 0"

section \<open>The gate\<close>

datatype lag_gate_verdict = Proceed | SkipTable | ShutdownRequested

record lag_gate =
  threshold_seconds :: f64
  max_wait_seconds :: nat
  poll_interval_seconds :: nat
  gate_disabled :: bool
  total_waited_ms :: nat
  tables_skipped :: nat

definition new_gate :: "f64 \<Rightarrow> nat \<Rightarrow> lag_gate" where
  "new_gate threshold max_wait =
     \<lparr>threshold_seconds = threshold, max_wait_seconds = max_wait,
      poll_interval_seconds = REPLICA_LAG_POLL_INTERVAL_SECONDS,
      gate_disabled = False, total_waited_ms = 0, tables_skipped = 0\<rparr>"

definition disable :: "lag_gate \<Rightarrow> lag_gate" where
  "disable g = g\<lparr>gate_disabled := True\<rparr>"

text \<open>\<open>elapsed.as_millis() as u64\<close>, added with wrap-around.\<close>

definition add_waited :: "nat \<Rightarrow> lag_gate \<Rightarrow> lag_gate" where
  "add_waited elapsed_ns g =
     g\<lparr>total_waited_ms :=
         u64_wrapping_add (total_waited_ms g) ((elapsed_ns div 1000000) mod 18446744073709551616)\<rparr>"

text \<open>\<open>Duration::from_millis\<close> of the sum.\<close>

definition total_waited :: "lag_gate \<Rightarrow> nat" where
  "total_waited g = total_waited_ms g * 1000000"

text \<open>\<open>fetch_add\<close> on a \<open>usize\<close>; more than \<open>2\<^sup>6\<^sup>4\<close> tables do not occur.\<close>

definition record_skip :: "lag_gate \<Rightarrow> lag_gate" where
  "record_skip g = g\<lparr>tables_skipped := tables_skipped g + 1\<rparr>"

section \<open>The vacuum horizon\<close>

text \<open>
  A row of the horizon query as it is decoded: durations are whole seconds, and a negative number of
  seconds becomes a huge one (\<open>as u64\<close>).
\<close>

record xmin_horizon_blocker =
  holder_type :: string
  holder_name :: string
  detail :: "string option"
  status :: "string option"
  blocker_xid_age :: int
  xact_duration :: "nat option"
  query_duration :: "nat option"
  query_snippet :: "string option"

datatype horizon_observation = HorizonUnobservable | HorizonObserved "xmin_horizon_blocker list"

section \<open>Facts\<close>

lemma f64_max_not_NaN: "x \<noteq> NaN \<Longrightarrow> f64_max x y \<noteq> NaN"
  by (auto simp: f64_max_def)

lemma less_f64_max:
  "x \<noteq> NaN \<Longrightarrow> t < f64_max x y \<longleftrightarrow> t < x \<or> t < y"
  by (cases t; cases x; cases y) (auto simp: f64_max_def)

lemma less_foldl_max:
  "x \<noteq> NaN \<Longrightarrow> t < foldl f64_max x ys \<longleftrightarrow> t < x \<or> (\<exists>y\<in>set ys. t < y)"
  by (induction ys arbitrary: x) (auto simp: less_f64_max f64_max_not_NaN)

lemma exceeds_Observed:
  "exceeds (Observed ss) threshold \<longleftrightarrow>
     threshold < Fin 0 \<or> (\<exists>s\<in>set ss. threshold < standby_lag_or_zero s)"
  by (auto simp: exceeds_def less_foldl_max)

lemma total_le_trans: "f64_total_le x y \<Longrightarrow> f64_total_le y z \<Longrightarrow> f64_total_le x z"
  by (cases x; cases y; cases z) auto

lemma total_le_linear: "f64_total_le x y \<or> f64_total_le y x"
  by (cases x; cases y) auto

lemma total_le_refl [simp]: "f64_total_le x x"
  using total_le_linear [of x x] by simp

lemma max_by_foldl:
  fixes key :: "'a \<Rightarrow> f64"
  defines "pick \<equiv> \<lambda>m y. if f64_total_le (key m) (key y) then y else m"
  shows "foldl pick x ys \<in> insert x (set ys)
       \<and> f64_total_le (key x) (key (foldl pick x ys))
       \<and> (\<forall>y\<in>set ys. f64_total_le (key y) (key (foldl pick x ys)))"
proof (induction ys arbitrary: x)
  case Nil
  then show ?case by simp
next
  case (Cons y ys)
  have "f64_total_le (key x) (key (pick x y))" "f64_total_le (key y) (key (pick x y))"
    "pick x y \<in> {x, y}"
    using total_le_linear [of "key x" "key y"] by (auto simp: pick_def)
  with Cons.IH [of "pick x y"] show ?case by (auto intro: total_le_trans)
qed

lemma worst_standby_props:
  assumes "worst_standby (Observed ss) = Some w"
  shows "w \<in> set ss \<and> (\<forall>s\<in>set ss. f64_total_le (standby_lag_or_zero s) (standby_lag_or_zero w))"
  using assms max_by_foldl [of standby_lag_or_zero] by (cases ss) auto

lemma exceeds_nonneg:
  assumes "Fin 0 \<le> threshold"
  shows "exceeds obs threshold \<longleftrightarrow>
           (\<exists>ss s l. obs = Observed ss \<and> s \<in> set ss \<and> replay_lag_seconds s = Some l \<and> threshold < l)"
proof -
  have nn: "\<not> threshold < Fin 0" using assms by (cases threshold) auto
  then have "threshold < standby_lag_or_zero s \<longleftrightarrow>
      (\<exists>l. replay_lag_seconds s = Some l \<and> threshold < l)" for s
    by (auto simp: standby_lag_or_zero_def split: option.splits)
  with nn show ?thesis
    by (cases obs) (auto simp: exceeds_Observed, auto simp: exceeds_def)
qed

lemma worst_standby_exceeds:
  assumes "Fin 0 \<le> threshold" "exceeds (Observed ss) threshold"
  shows "\<exists>w\<in>set ss. worst_standby (Observed ss) = Some w
           \<and> (threshold < standby_lag_or_zero w \<or> standby_lag_or_zero w = NaN)"
proof -
  have "\<not> threshold < Fin 0" using assms(1) by (cases threshold) auto
  with assms(2) obtain s where s: "s \<in> set ss" "threshold < standby_lag_or_zero s"
    by (auto simp: exceeds_Observed)
  then obtain w where w: "worst_standby (Observed ss) = Some w" by (cases ss) auto
  from worst_standby_props [OF w] s have "w \<in> set ss"
    "f64_total_le (standby_lag_or_zero s) (standby_lag_or_zero w)" by auto
  with s(2) have "threshold < standby_lag_or_zero w \<or> standby_lag_or_zero w = NaN"
    by (cases threshold; cases "standby_lag_or_zero s"; cases "standby_lag_or_zero w") auto
  with w \<open>w \<in> set ss\<close> show ?thesis by auto
qed

text \<open>
  The gate trips exactly on what it should: for a threshold that is not negative, an observation
  exceeds it iff some standby reported a replay lag above it; no answer at all, no standby, a
  caught-up standby and a NaN lag never trip it. When it trips, the standby named as the worst one is
  one of those observed, and its own lag is above the threshold or NaN.
\<close>

theorem exceeds_iff:
  assumes "Fin 0 \<le> threshold"
  shows "(exceeds obs threshold \<longleftrightarrow>
           (\<exists>ss s l. obs = Observed ss \<and> s \<in> set ss \<and> replay_lag_seconds s = Some l \<and> threshold < l))
       \<and> (\<forall>ss. obs = Observed ss \<and> exceeds obs threshold \<longrightarrow>
            (\<exists>w\<in>set ss. worst_standby obs = Some w
               \<and> (threshold < standby_lag_or_zero w \<or> standby_lag_or_zero w = NaN)))"
  using exceeds_nonneg [OF assms] worst_standby_exceeds [OF assms] by blast

theorem exceeds_iff_witness:
  "exceeds (Observed [\<lparr>application_name = ''a'', standby_state = ''streaming'', sync_state = ''async'',
      replay_lag_seconds = Some (Fin 12)\<rparr>]) (Fin 10)"
  by (subst exceeds_iff [THEN conjunct1]) simp_all

end
