(* ===== verification/Catalog.thy ===== *)
theory Catalog
  imports
    Tables
    "HOL-Library.Product_Lexorder"
    "HOL-Library.Multiset"
begin

text \<open>
  The discovery queries of \<open>src/queries.rs\<close> as functions on a snapshot of the system catalogs, and
  the merging of the two needs-vacuum lists (\<open>src/operations.rs\<close>). A relation is a row of \<open>pg_class\<close>
  with its schema and, where the statistics views have one, its statistics row; nullable columns are
  options, and a condition on a NULL selects nothing, as in SQL.

  SQL leaves the order of rows with equal sort keys open. The functions keep the order of the
  snapshot there, so over all orders of the snapshot they give every order SQL may give. The time
  stamps are microseconds, and a day is 86400 seconds (no daylight-saving shift of the server's time
  zone).
\<close>

section \<open>The catalogs\<close>

record rel_stats =
  st_live :: "int option"
  st_dead :: "int option"
  st_mod :: "int option"
  st_ins :: "int option"
  st_last_vacuum :: "int option"
  st_last_autovacuum :: "int option"
  st_last_analyze :: "int option"
  st_last_autoanalyze :: "int option"

record pg_relation =
  rel_schema :: string
  rel_name :: string
  rel_kind :: char
  rel_size :: "int option"
  rel_xid_age :: int
  rel_tuples :: rat
  rel_pages :: int
  rel_all_frozen :: int
  rel_options :: "(string \<times> rat) list"
  rel_user_stats :: "rel_stats option"
  rel_all_stats :: "rel_stats option"

record snapshot =
  rels :: "pg_relation list"
  snap_now :: int
  guc_freeze_max_age :: int
  guc_vacuum_threshold :: rat
  guc_vacuum_scale_factor :: rat
  guc_insert_threshold :: rat
  guc_insert_scale_factor :: rat

section \<open>Pieces of SQL\<close>

definition column :: "(rel_stats \<Rightarrow> 'a option) \<Rightarrow> rel_stats option \<Rightarrow> 'a option" where
  "column f st = Option.bind st f"

definition greatest :: "int option \<Rightarrow> int option \<Rightarrow> int option" where
  "greatest a b =
     (case (a, b) of (None, y) \<Rightarrow> y | (x, None) \<Rightarrow> x | (Some x, Some y) \<Rightarrow> Some (max x y))"

definition coalesce :: "'a option \<Rightarrow> 'a \<Rightarrow> 'a" where
  "coalesce a d = (case a of None \<Rightarrow> d | Some x \<Rightarrow> x)"

text \<open>Sort keys: \<open>DESC NULLS LAST\<close>, and \<open>DESC\<close> on the table size, never NULL in a selected row.\<close>

definition desc_nulls_last :: "int option \<Rightarrow> int \<times> int" where
  "desc_nulls_last a = (case a of None \<Rightarrow> (1, 0) | Some x \<Rightarrow> (0, - x))"

definition size_desc :: "pg_relation \<Rightarrow> int" where
  "size_desc r = - coalesce (rel_size r) 0"

definition size_between :: "int \<Rightarrow> int \<Rightarrow> pg_relation \<Rightarrow> bool" where
  "size_between lo hi r = (case rel_size r of None \<Rightarrow> False | Some n \<Rightarrow> lo \<le> n \<and> n \<le> hi)"

definition live :: "pg_relation \<Rightarrow> int option" where "live r = column st_live (rel_user_stats r)"
definition dead :: "pg_relation \<Rightarrow> int option" where "dead r = column st_dead (rel_user_stats r)"

definition last_vacuumed :: "rel_stats option \<Rightarrow> int option" where
  "last_vacuumed st = greatest (column st_last_vacuum st) (column st_last_autovacuum st)"

definition last_analyzed :: "rel_stats option \<Rightarrow> int option" where
  "last_analyzed st = greatest (column st_last_analyze st) (column st_last_autoanalyze st)"

definition named_table :: "string option \<Rightarrow> pg_relation \<Rightarrow> bool" where
  "named_table tbl r = (case tbl of None \<Rightarrow> True | Some n \<Rightarrow> rel_name r = n)"

text \<open>
  The conditions that all queries on \<open>pg_stat_user_tables\<close> share. The variant for a single table
  (\<open>_TABLE\<close>) adds its name, keeps the default order and has no limit.
\<close>

definition user_table :: "string list \<Rightarrow> string option \<Rightarrow> int \<Rightarrow> int \<Rightarrow> pg_relation \<Rightarrow> bool" where
  "user_table schemas tbl lo hi r =
     (rel_user_stats r \<noteq> None \<and> rel_schema r \<in> set schemas \<and> named_table tbl r
      \<and> rel_kind r \<noteq> CHR ''p'' \<and> size_between lo hi r)"

definition row_limit :: "string option \<Rightarrow> int \<Rightarrow> nat option" where
  "row_limit tbl lmt = (if tbl = None then Some (nat lmt) else None)"

definition take_opt :: "nat option \<Rightarrow> 'a list \<Rightarrow> 'a list" where
  "take_opt n xs = (case n of None \<Rightarrow> xs | Some k \<Rightarrow> take k xs)"

definition row_order :: "string option \<Rightarrow> order_by option \<Rightarrow> order_by option" where
  "row_order tbl order = (if tbl = None then order else None)"

definition order_rows ::
  "order_by option \<Rightarrow> (pg_relation \<Rightarrow> 'k :: linorder) \<Rightarrow> (pg_relation \<Rightarrow> int option) \<Rightarrow> pg_relation list \<Rightarrow> pg_relation list" where
  "order_rows order default_key maintained =
     (case order of
        None \<Rightarrow> sort_key default_key
      | Some BySize \<Rightarrow> sort_key size_desc
      | Some ByLastMaintained \<Rightarrow> sort_key maintained)"

definition table_row :: "(rel_stats option \<Rightarrow> int option) \<Rightarrow> pg_relation \<Rightarrow> table_info" where
  "table_row maintained r =
     \<lparr>schema_name = rel_schema r, table_name = rel_name r,
      n_live_tup = coalesce (live r) (-1), n_dead_tup = coalesce (dead r) (-1),
      size_bytes = coalesce (rel_size r) 0, last_maintained = maintained (rel_user_stats r)\<rparr>"

section \<open>The queries\<close>

definition never_vacuumed :: "pg_relation \<Rightarrow> bool" where
  "never_vacuumed r =
     (column st_last_vacuum (rel_user_stats r) = None \<and> column st_last_autovacuum (rel_user_stats r) = None)"

definition FIND_NEVER_VACUUMED ::
  "string list \<Rightarrow> string option \<Rightarrow> int \<Rightarrow> int \<Rightarrow> int \<Rightarrow> order_by option \<Rightarrow> snapshot \<Rightarrow> table_info list" where
  "FIND_NEVER_VACUUMED schemas tbl lo hi lmt order s =
     map (table_row last_vacuumed) (take_opt (row_limit tbl lmt)
       (order_rows (row_order tbl order)
          (\<lambda>r. (desc_nulls_last (dead r), desc_nulls_last (live r)))
          (\<lambda>r. last_vacuumed (rel_user_stats r))
          (filter (\<lambda>r. user_table schemas tbl lo hi r \<and> never_vacuumed r) (rels s))))"

definition never_analyzed :: "pg_relation \<Rightarrow> bool" where
  "never_analyzed r =
     (column st_last_analyze (rel_user_stats r) = None \<and> column st_last_autoanalyze (rel_user_stats r) = None)"

definition FIND_NEVER_ANALYZED ::
  "string list \<Rightarrow> string option \<Rightarrow> int \<Rightarrow> int \<Rightarrow> int \<Rightarrow> order_by option \<Rightarrow> snapshot \<Rightarrow> table_info list" where
  "FIND_NEVER_ANALYZED schemas tbl lo hi lmt order s =
     map (table_row last_analyzed) (take_opt (row_limit tbl lmt)
       (order_rows (row_order tbl order)
          (\<lambda>r. desc_nulls_last (live r))
          (\<lambda>r. last_analyzed (rel_user_stats r))
          (filter (\<lambda>r. user_table schemas tbl lo hi r \<and> never_analyzed r) (rels s))))"

text \<open>
  The wraparound query reads \<open>pg_class\<close> and left-joins \<open>pg_stat_all_tables\<close>: ordinary tables, TOAST
  tables and materialized views.
\<close>

definition wraparound_candidate :: "string list \<Rightarrow> int \<Rightarrow> string option \<Rightarrow> int \<Rightarrow> int \<Rightarrow> pg_relation \<Rightarrow> bool" where
  "wraparound_candidate schemas min_age tbl lo hi r =
     (rel_kind r \<in> set ''rtm'' \<and> rel_schema r \<in> set schemas
      \<and> rel_schema r \<notin> set [''pg_catalog'', ''information_schema'', ''pg_toast'']
      \<and> min_age < rel_xid_age r \<and> named_table tbl r \<and> size_between lo hi r)"

definition freeze_row :: "snapshot \<Rightarrow> pg_relation \<Rightarrow> freeze_table_info" where
  "freeze_row s r =
     \<lparr>schema_name = rel_schema r, table_name = rel_name r, xid_age = rel_xid_age r,
      freeze_max_age = guc_freeze_max_age s, freeze_size_bytes = coalesce (rel_size r) 0,
      freeze_last_maintained = last_vacuumed (rel_all_stats r)\<rparr>"

definition FIND_WRAPAROUND_CANDIDATES ::
  "string list \<Rightarrow> int \<Rightarrow> string option \<Rightarrow> int \<Rightarrow> int \<Rightarrow> int \<Rightarrow> order_by option \<Rightarrow> snapshot \<Rightarrow>
     freeze_table_info list" where
  "FIND_WRAPAROUND_CANDIDATES schemas min_age tbl lo hi lmt order s =
     map (freeze_row s) (take_opt (row_limit tbl lmt)
       (order_rows (row_order tbl order)
          (\<lambda>r. - rel_xid_age r)
          (\<lambda>r. last_vacuumed (rel_all_stats r))
          (filter (wraparound_candidate schemas min_age tbl lo hi) (rels s))))"

text \<open>\<open>100.0 * n_dead_tup / NULLIF(n_live_tup + n_dead_tup, 0)\<close>.\<close>

definition bloat_ratio :: "pg_relation \<Rightarrow> rat option" where
  "bloat_ratio r =
     (case (live r, dead r) of
        (Some l, Some d) \<Rightarrow> if l + d = 0 then None else Some (100 * of_int d / of_int (l + d))
      | _ \<Rightarrow> None)"

definition bloated :: "f64 \<Rightarrow> int \<Rightarrow> pg_relation \<Rightarrow> bool" where
  "bloated pct min_dead r =
     (case (dead r, bloat_ratio r) of
        (Some d, Some x) \<Rightarrow> min_dead \<le> d \<and> pct \<le> Fin (rnd x)
      | _ \<Rightarrow> False)"

definition FIND_BLOAT_CANDIDATES ::
  "string list \<Rightarrow> string option \<Rightarrow> f64 \<Rightarrow> int \<Rightarrow> int \<Rightarrow> int \<Rightarrow> int \<Rightarrow> order_by option \<Rightarrow> snapshot \<Rightarrow>
     table_info list" where
  "FIND_BLOAT_CANDIDATES schemas tbl pct min_dead lo hi lmt order s =
     map (table_row last_vacuumed) (take_opt (row_limit tbl lmt)
       (order_rows (row_order tbl order)
          (\<lambda>r. - coalesce (bloat_ratio r) 0)
          (\<lambda>r. last_vacuumed (rel_user_stats r))
          (filter (\<lambda>r. user_table schemas tbl lo hi r \<and> bloated pct min_dead r) (rels s))))"

text \<open>\<open>$2::bigint + $3::float8 * COALESCE(n_live_tup, 0)\<close>.\<close>

fun f64_add_int :: "int \<Rightarrow> f64 \<Rightarrow> f64" where
  "f64_add_int n (Fin x) = f64_of (i64_as_f64 n + x)"
| "f64_add_int n x = x"

definition over_threshold :: "int \<Rightarrow> f64 \<Rightarrow> pg_relation \<Rightarrow> bool" where
  "over_threshold thr sf r =
     (case dead r of
        None \<Rightarrow> False
      | Some d \<Rightarrow> f64_add_int thr (f64_times sf (i64_as_f64 (coalesce (live r) 0))) < Fin (i64_as_f64 d))"

definition needs_vacuum_row :: "bool \<Rightarrow> pg_relation \<Rightarrow> needs_vacuum_table_info" where
  "needs_vacuum_row via r =
     \<lparr>schema_name = rel_schema r, table_name = rel_name r,
      n_live_tup = coalesce (live r) (-1), n_dead_tup = coalesce (dead r) (-1),
      size_bytes = coalesce (rel_size r) 0, last_maintained = last_vacuumed (rel_user_stats r),
      via_max_threshold = via\<rparr>"

definition FIND_NEEDS_VACUUM ::
  "string list \<Rightarrow> string option \<Rightarrow> int \<Rightarrow> f64 \<Rightarrow> int \<Rightarrow> int \<Rightarrow> int \<Rightarrow> order_by option \<Rightarrow> snapshot \<Rightarrow>
     needs_vacuum_table_info list" where
  "FIND_NEEDS_VACUUM schemas tbl thr sf lo hi lmt order s =
     map (needs_vacuum_row False) (take_opt (row_limit tbl lmt)
       (order_rows (row_order tbl order)
          (\<lambda>r. desc_nulls_last (dead r))
          (\<lambda>r. last_vacuumed (rel_user_stats r))
          (filter (\<lambda>r. user_table schemas tbl lo hi r \<and> over_threshold thr sf r) (rels s))))"

text \<open>
  The second needs-vacuum query: the server's own settings, a table's storage options first, with a
  cap on the threshold, and the insert threshold. On servers before 18 the fraction of frozen pages is
  not known and counts as none.
\<close>

definition option_value :: "string \<Rightarrow> pg_relation \<Rightarrow> rat option" where
  "option_value name r = map_of (rel_options r) name"

definition vacuum_trigger :: "rat \<Rightarrow> snapshot \<Rightarrow> pg_relation \<Rightarrow> rat" where
  "vacuum_trigger cap s r =
     (let thr = coalesce (option_value ''autovacuum_vacuum_threshold'' r) (guc_vacuum_threshold s);
          sf = coalesce (option_value ''autovacuum_vacuum_scale_factor'' r) (guc_vacuum_scale_factor s);
          max_thr = coalesce (option_value ''autovacuum_vacuum_max_threshold'' r) cap;
          flat = rnd (thr + rnd (sf * max 0 (rel_tuples r)))
      in if 0 \<le> max_thr then min flat max_thr else flat)"

definition unfrozen_fraction :: "bool \<Rightarrow> pg_relation \<Rightarrow> rat" where
  "unfrozen_fraction pg18 r =
     (if pg18 \<and> rel_pages r \<noteq> 0 then rnd (1 - rnd (of_int (rel_all_frozen r) / of_int (rel_pages r))) else 1)"

definition insert_threshold :: "snapshot \<Rightarrow> pg_relation \<Rightarrow> rat" where
  "insert_threshold s r =
     coalesce (option_value ''autovacuum_vacuum_insert_threshold'' r) (guc_insert_threshold s)"

definition insert_trigger :: "bool \<Rightarrow> snapshot \<Rightarrow> pg_relation \<Rightarrow> rat" where
  "insert_trigger pg18 s r =
     rnd (insert_threshold s r
       + rnd (rnd (coalesce (option_value ''autovacuum_vacuum_insert_scale_factor'' r) (guc_insert_scale_factor s)
           * max 0 (rel_tuples r)) * unfrozen_fraction pg18 r))"

definition over_max_threshold :: "bool \<Rightarrow> rat \<Rightarrow> snapshot \<Rightarrow> pg_relation \<Rightarrow> bool" where
  "over_max_threshold pg18 cap s r =
     ((case dead r of None \<Rightarrow> False | Some d \<Rightarrow> vacuum_trigger cap s r < i64_as_f64 d)
      \<or> 0 \<le> insert_threshold s r
        \<and> (case column st_ins (rel_user_stats r) of
             None \<Rightarrow> False | Some n \<Rightarrow> insert_trigger pg18 s r < i64_as_f64 n))"

definition FIND_NEEDS_VACUUM_MAX_THR ::
  "bool \<Rightarrow> string list \<Rightarrow> rat \<Rightarrow> int \<Rightarrow> int \<Rightarrow> string option \<Rightarrow> snapshot \<Rightarrow> needs_vacuum_table_info list" where
  "FIND_NEEDS_VACUUM_MAX_THR pg18 schemas cap lo hi tbl s =
     map (needs_vacuum_row True) (sort_key (\<lambda>r. desc_nulls_last (dead r))
       (filter (\<lambda>r. user_table schemas tbl lo hi r \<and> over_max_threshold pg18 cap s r) (rels s)))"

definition day :: int where "day = 86400 * 1000000"

definition older_than :: "(rel_stats option \<Rightarrow> int option) \<Rightarrow> int \<Rightarrow> snapshot \<Rightarrow> pg_relation \<Rightarrow> bool" where
  "older_than since days s r =
     (case since (rel_user_stats r) of None \<Rightarrow> False | Some t \<Rightarrow> t < snap_now s - days * day)"

definition days_since :: "(rel_stats option \<Rightarrow> int option) \<Rightarrow> snapshot \<Rightarrow> pg_relation \<Rightarrow> f64" where
  "days_since since s r =
     Fin (rnd (rnd (of_int (snap_now s - coalesce (since (rel_user_stats r)) 0) / 1000000) / 86400))"

definition vacuum_overdue_row :: "snapshot \<Rightarrow> pg_relation \<Rightarrow> overdue_vacuum_table_info" where
  "vacuum_overdue_row s r =
     \<lparr>schema_name = rel_schema r, table_name = rel_name r,
      overdue_n_live_tup = coalesce (live r) (-1), overdue_n_dead_tup = coalesce (dead r) (-1),
      days_since_vacuum = days_since last_vacuumed s r\<rparr>"

definition FIND_VACUUM_OVERDUE ::
  "string list \<Rightarrow> string option \<Rightarrow> int \<Rightarrow> int \<Rightarrow> int \<Rightarrow> int \<Rightarrow> snapshot \<Rightarrow> overdue_vacuum_table_info list" where
  "FIND_VACUUM_OVERDUE schemas tbl days lo hi lmt s =
     map (vacuum_overdue_row s) (take_opt (row_limit tbl lmt)
       (sort_key (\<lambda>r. last_vacuumed (rel_user_stats r))
          (filter (\<lambda>r. user_table schemas tbl lo hi r \<and> older_than last_vacuumed days s r) (rels s))))"

definition analyze_overdue_row :: "snapshot \<Rightarrow> pg_relation \<Rightarrow> overdue_analyze_table_info" where
  "analyze_overdue_row s r =
     \<lparr>schema_name = rel_schema r, table_name = rel_name r,
      analyze_n_live_tup = coalesce (live r) (-1),
      n_mod_since_analyze = coalesce (column st_mod (rel_user_stats r)) (-1),
      days_since_analyze = days_since last_analyzed s r\<rparr>"

definition FIND_ANALYZE_OVERDUE ::
  "string list \<Rightarrow> string option \<Rightarrow> int \<Rightarrow> int \<Rightarrow> int \<Rightarrow> int \<Rightarrow> snapshot \<Rightarrow> overdue_analyze_table_info list" where
  "FIND_ANALYZE_OVERDUE schemas tbl days lo hi lmt s =
     map (analyze_overdue_row s) (take_opt (row_limit tbl lmt)
       (sort_key (\<lambda>r. last_analyzed (rel_user_stats r))
          (filter (\<lambda>r. user_table schemas tbl lo hi r \<and> older_than last_analyzed days s r) (rels s))))"

definition FIND_EXPLICIT_TABLES :: "string list \<Rightarrow> string list \<Rightarrow> snapshot \<Rightarrow> (string \<times> string) list" where
  "FIND_EXPLICIT_TABLES schema_names table_names s =
     [(rel_schema r, rel_name r). (sn, tn) \<leftarrow> zip schema_names table_names, r \<leftarrow> rels s,
        rel_schema r = sn \<and> rel_name r = tn \<and> rel_kind r \<in> set ''rmp'']"

section \<open>Thresholds and merging\<close>

text \<open>The result is a finite \<open>f64\<close>.\<close>

definition derive_max_threshold :: "int option \<Rightarrow> rat" where
  "derive_max_threshold guc =
     (case guc of
        None \<Rightarrow> i64_as_f64 DEFAULT_VACUUM_MAX_THRESHOLD_PRE18
      | Some v \<Rightarrow> if v < 0 then - 1 else rnd (i64_as_f64 v * MAX_THRESHOLD_FACTOR))"

text \<open>\<open>filter(|t| seen.insert(id))\<close>.\<close>

fun keep_unseen :: "(string \<times> string) set \<Rightarrow> 'z table_key_scheme list \<Rightarrow> 'z table_key_scheme list" where
  "keep_unseen seen [] = []"
| "keep_unseen seen (t # ts) =
     (if table_id t \<in> seen then keep_unseen seen ts
      else t # keep_unseen (insert (table_id t) seen) ts)"

definition merge_order ::
  "order_by option \<Rightarrow> needs_vacuum_table_info list \<Rightarrow> needs_vacuum_table_info list" where
  "merge_order order =
     (case order of
        None \<Rightarrow> sort_key (\<lambda>t. - n_dead_tup t)
      | Some BySize \<Rightarrow> sort_key (\<lambda>t. - size_bytes t)
      | Some ByLastMaintained \<Rightarrow> sort_key last_maintained)"

definition merge_limit :: "int \<Rightarrow> nat option" where
  "merge_limit lmt = (if lmt < 0 then None else Some (nat lmt))"

definition merge_needs_vacuum_candidates ::
  "needs_vacuum_table_info list \<Rightarrow> needs_vacuum_table_info list \<Rightarrow> order_by option \<Rightarrow> int \<Rightarrow>
     needs_vacuum_table_info list" where
  "merge_needs_vacuum_candidates classic max_threshold order lmt =
     take_opt (merge_limit lmt) (merge_order order (keep_unseen {} (classic @ max_threshold)))"

end
