(* ===== verification/Monitoring.thy ===== *)
theory Monitoring
  imports Lag Catalog
begin

text \<open>
  The queries of \<open>src/queries.rs\<close> on the server's monitoring views, as functions on a snapshot of these
  views: the sessions, replication slots and prepared transactions that hold back the vacuum horizon, the
  running VACUUMs, the standbys, and the dead tuples of a table. With them, what \<open>src/operations.rs\<close> makes of
  a row. Nullable columns are options. Time stamps and intervals are microseconds; the age of a transaction id
  is the number the server gives for it.
\<close>

section \<open>The views\<close>

record backend_row =
  be_pid :: int
  be_type :: string
  be_user :: "string option"
  be_state :: "string option"
  be_xmin_age :: "int option"
  be_xact_start :: "int option"
  be_query_start :: "int option"
  be_query :: "string option"

record slot_row =
  slot_name :: string
  slot_type :: string
  slot_active :: bool
  slot_xmin_age :: "int option"
  slot_catalog_xmin_age :: "int option"

record prepared_row =
  prep_gid :: string
  prep_owner :: string
  prep_age :: int
  prep_time :: int

record replication_row =
  rep_application_name :: "string option"
  rep_state :: "string option"
  rep_sync_state :: "string option"
  rep_replay_lag :: "int option"

text \<open>A running VACUUM is the process, and the schema and name of its relation.\<close>

record monitor =
  mon_now :: int
  mon_self :: int
  mon_backends :: "backend_row list"
  mon_slots :: "slot_row list"
  mon_prepared :: "prepared_row list"
  mon_replication :: "replication_row list"
  mon_vacuums :: "(int \<times> string \<times> string) list"

section \<open>The vacuum horizon\<close>

text \<open>
  \<open>EXTRACT(EPOCH FROM i)::bigint\<close>: seconds, rounded to the nearest, halves away from zero.
\<close>

definition epoch_seconds :: "int \<Rightarrow> int" where
  "epoch_seconds us = (if 0 \<le> us then (us + 500000) div 1000000 else - ((500000 - us) div 1000000))"

text \<open>\<open>left(s, n)\<close>: the first \<open>n\<close> characters of a text, not bytes.\<close>

definition continuation_byte :: "char \<Rightarrow> bool" where
  "continuation_byte c = (128 \<le> (of_char c :: nat) \<and> (of_char c :: nat) < 192)"

fun left_chars :: "nat \<Rightarrow> string \<Rightarrow> string" where
  "left_chars n [] = []"
| "left_chars n (c # s) =
     (if continuation_byte c then c # left_chars n s
      else (case n of 0 \<Rightarrow> [] | Suc k \<Rightarrow> c # left_chars k s))"

text \<open>A row of the query, before the code has read it.\<close>

record horizon_row =
  hr_type :: string
  hr_identifier :: string
  hr_detail :: "string option"
  hr_status :: "string option"
  hr_age :: int
  hr_xact_secs :: "int option"
  hr_query_secs :: "int option"
  hr_snippet :: "string option"

definition backend_holder :: "int \<Rightarrow> backend_row \<Rightarrow> horizon_row" where
  "backend_holder time b =
     \<lparr>hr_type = ''backend'', hr_identifier = dec_int (be_pid b), hr_detail = be_user b, hr_status = be_state b,
      hr_age = coalesce (be_xmin_age b) 0,
      hr_xact_secs = map_option (\<lambda>t. epoch_seconds (time - t)) (be_xact_start b),
      hr_query_secs = map_option (\<lambda>t. epoch_seconds (time - t)) (be_query_start b),
      hr_snippet = map_option (left_chars 200) (be_query b)\<rparr>"

text \<open>\<open>age('0'::xid)\<close>: an id that is none counts as infinitely old.\<close>

definition AGE_OF_NO_XID :: int where "AGE_OF_NO_XID = 2147483647"

definition slot_holder :: "slot_row \<Rightarrow> horizon_row" where
  "slot_holder s =
     \<lparr>hr_type = ''replication_slot'', hr_identifier = slot_name s, hr_detail = Some (slot_type s),
      hr_status = Some (if slot_active s then ''true'' else ''false''),
      hr_age = max (coalesce (slot_xmin_age s) AGE_OF_NO_XID) (coalesce (slot_catalog_xmin_age s) AGE_OF_NO_XID),
      hr_xact_secs = None, hr_query_secs = None, hr_snippet = None\<rparr>"

definition prepared_holder :: "int \<Rightarrow> prepared_row \<Rightarrow> horizon_row" where
  "prepared_holder time p =
     \<lparr>hr_type = ''prepared_xact'', hr_identifier = prep_gid p, hr_detail = Some (prep_owner p), hr_status = None,
      hr_age = prep_age p, hr_xact_secs = Some (epoch_seconds (time - prep_time p)),
      hr_query_secs = None, hr_snippet = None\<rparr>"

definition holders :: "monitor \<Rightarrow> horizon_row list" where
  "holders m =
     map (backend_holder (mon_now m))
       (filter (\<lambda>b. be_xmin_age b \<noteq> None \<and> be_pid b \<noteq> mon_self m) (mon_backends m)) @
     map slot_holder
       (filter (\<lambda>s. slot_xmin_age s \<noteq> None \<or> slot_catalog_xmin_age s \<noteq> None) (mon_slots m)) @
     map (prepared_holder (mon_now m)) (mon_prepared m)"

definition FIND_XMIN_HORIZON_BLOCKERS :: "monitor \<Rightarrow> horizon_row list" where
  "FIND_XMIN_HORIZON_BLOCKERS m = sort_key (\<lambda>r. - hr_age r) (holders m)"

text \<open>\<open>Duration::from_secs(s as u64)\<close>: a negative number of seconds wraps around.\<close>

definition read_holder :: "horizon_row \<Rightarrow> xmin_horizon_blocker" where
  "read_holder r =
     \<lparr>holder_type = hr_type r, holder_name = hr_identifier r, detail = hr_detail r, status = hr_status r,
      blocker_xid_age = hr_age r,
      xact_duration = map_option (\<lambda>s. nat (s mod 18446744073709551616)) (hr_xact_secs r),
      query_duration = map_option (\<lambda>s. nat (s mod 18446744073709551616)) (hr_query_secs r),
      query_snippet = hr_snippet r\<rparr>"

definition blockers :: "monitor \<Rightarrow> xmin_horizon_blocker list" where
  "blockers m = map read_holder (FIND_XMIN_HORIZON_BLOCKERS m)"

section \<open>Running VACUUMs, standbys, dead tuples\<close>

text \<open>
  The join of the progress view with the sessions. A role without the privilege to see a session has no row
  of it in either view, so that the type of a session in the result is never NULL.
\<close>

definition FIND_ACTIVE_VACUUMS_ON_TABLE :: "string \<Rightarrow> string \<Rightarrow> monitor \<Rightarrow> (int \<times> string) list" where
  "FIND_ACTIVE_VACUUMS_ON_TABLE schema table m =
     concat (map (\<lambda>(pid, s, t). map (\<lambda>b. (be_pid b, be_type b)) (filter (\<lambda>b. be_pid b = pid) (mon_backends m)))
       (filter (\<lambda>(pid, s, t). s = schema \<and> t = table) (mon_vacuums m)))"

definition read_standby :: "replication_row \<Rightarrow> standby_lag" where
  "read_standby r =
     \<lparr>application_name = coalesce (rep_application_name r) [], standby_state = coalesce (rep_state r) [],
      sync_state = coalesce (rep_sync_state r) [],
      replay_lag_seconds = map_option (\<lambda>us. Fin (rnd (of_int us / 1000000))) (rep_replay_lag r)\<rparr>"

definition GET_REPLICATION_LAG :: "monitor \<Rightarrow> standby_lag list" where
  "GET_REPLICATION_LAG m = map read_standby (sort_key (\<lambda>r. desc_nulls_last (rep_replay_lag r)) (mon_replication m))"

text \<open>\<open>query_one\<close> fails when there is not exactly one row: a table without statistics, or one dropped meanwhile.\<close>

definition GET_DEAD_TUPLE_COUNT :: "string \<Rightarrow> string \<Rightarrow> snapshot \<Rightarrow> int list" where
  "GET_DEAD_TUPLE_COUNT schema table s =
     map (\<lambda>r. coalesce (dead r) 0)
       (filter (\<lambda>r. rel_user_stats r \<noteq> None \<and> rel_schema r = schema \<and> rel_name r = table) (rels s))"

definition row_count_error :: pg_error where
  "row_count_error =
     \<lparr>closed = False, db_part = None, own_text = ''query returned an unexpected number of rows'', source_chain = []\<rparr>"

definition exactly_one :: "'a list \<Rightarrow> pg_error + 'a" where
  "exactly_one rows = (case rows of [x] \<Rightarrow> Inr x | _ \<Rightarrow> Inl row_count_error)"

section \<open>Facts\<close>

text \<open>
  The first row is a holder of the largest age, and the rows are the holders. A slot that has only one of its
  two ids, as most have, always comes first, whatever holds the horizon.
\<close>

lemma blockers_sorted: "sorted_wrt (\<lambda>x y. blocker_xid_age y \<le> blocker_xid_age x) (blockers m)"
proof -
  have "sorted (map (\<lambda>r. - hr_age r) (FIND_XMIN_HORIZON_BLOCKERS m))"
    unfolding FIND_XMIN_HORIZON_BLOCKERS_def by (rule sorted_sort_key)
  then show ?thesis by (simp add: blockers_def sorted_wrt_map sorted_map read_holder_def)
qed

lemma blockers_mset: "mset (blockers m) = image_mset read_holder (mset (holders m))"
  by (simp add: blockers_def FIND_XMIN_HORIZON_BLOCKERS_def)

lemma blockers_set: "set (blockers m) = read_holder ` set (holders m)"
  by (simp add: blockers_def FIND_XMIN_HORIZON_BLOCKERS_def)

lemma first_blocker_oldest:
  assumes "blockers m = worst # others" "r \<in> set (holders m)"
  shows "hr_age r \<le> blocker_xid_age worst"
proof -
  have "read_holder r \<in> set (worst # others)" using assms blockers_set by (metis image_eqI)
  moreover have "\<forall>b\<in>set others. blocker_xid_age b \<le> blocker_xid_age worst"
    using blockers_sorted [of m] assms(1) by simp
  moreover have "blocker_xid_age (read_holder r) = hr_age r" by (simp add: read_holder_def)
  ultimately show ?thesis by (metis order_refl set_ConsD)
qed

lemma half_slot_age:
  assumes "(slot_xmin_age s = None) \<noteq> (slot_catalog_xmin_age s = None)"
  shows "AGE_OF_NO_XID \<le> hr_age (slot_holder s)"
  using assms by (cases "slot_xmin_age s") (auto simp: slot_holder_def coalesce_def)

text \<open>Every standby is there, the one that lags most first, those without a measured lag last.\<close>

lemma replication_mset: "mset (GET_REPLICATION_LAG m) = image_mset read_standby (mset (mon_replication m))"
  by (simp add: GET_REPLICATION_LAG_def)

lemma active_vacuums_iff:
  "(pid, kind) \<in> set (FIND_ACTIVE_VACUUMS_ON_TABLE schema table m) \<longleftrightarrow>
     (pid, schema, table) \<in> set (mon_vacuums m) \<and> (\<exists>b\<in>set (mon_backends m). be_pid b = pid \<and> be_type b = kind)"
  by (auto simp: FIND_ACTIVE_VACUUMS_ON_TABLE_def)

text \<open>A session that began its query after the snapshot's time by half a second or more has run for ages.\<close>

lemma future_query_wraps:
  assumes "be_query_start b = Some (time + us)" "500000 \<le> us" "us < 1500000"
  shows "query_duration (read_holder (backend_holder time b)) = Some 18446744073709551615"
proof -
  have "(500000 + us) div 1000000 = 1" using assms(2,3) by simp
  then have "epoch_seconds (- us) = - 1" using assms(2) by (simp add: epoch_seconds_def)
  then show ?thesis using assms(1) by (simp add: read_holder_def backend_holder_def)
qed

end
