(* ===== verification/Tls.thy ===== *)
theory Tls
  imports Db_Error
begin

text \<open>
  The first half of \<open>connect_raw\<close> (\<open>src/connection.rs\<close>): what is asked of the driver. The driver's
  parser of connection strings, the PEM, PKCS#12 and PKCS#8 readers and the building of the TLS
  connector are libraries, arguments here; so is the file system. What the code makes of their answers
  is a request: the configuration for the driver, and whether to use TLS and with which settings.
\<close>

section \<open>What the libraries offer\<close>

datatype certificate = Certificate string
datatype client_identity = Identity string

text \<open>The driver's configuration: the fields the code sets, beside the parameters it leaves as read.\<close>

record driver_config =
  parameters :: "(string \<times> string) list"
  keepalives :: bool
  keepalives_idle_seconds :: nat
  keepalives_interval_seconds :: nat
  keepalives_retries :: nat
  tls_required :: bool

text \<open>\<open>TlsConnector::builder()\<close> starts with every check on, and with no certificates of its own.\<close>

record tls_settings =
  accept_invalid_certs :: bool
  accept_invalid_hostnames :: bool
  root_certificates :: "certificate list"
  identity :: "client_identity option"

definition new_tls_builder :: tls_settings where
  "new_tls_builder =
     \<lparr>accept_invalid_certs = False, accept_invalid_hostnames = False, root_certificates = [], identity = None\<rparr>"

text \<open>An error of a TLS library is the list of the texts of its chain.\<close>

record tls_library =
  parse_config :: "string \<Rightarrow> pg_error + driver_config"
  certificate_from_pem :: "string \<Rightarrow> string list + certificate"
  identity_from_pkcs12 :: "string \<Rightarrow> string \<Rightarrow> string list + client_identity"
  identity_from_pkcs8 :: "string \<Rightarrow> string \<Rightarrow> string list + client_identity"
  build_connector :: "tls_settings \<Rightarrow> string list + unit"

type_synonym file_reader = "string \<Rightarrow> (io_kind \<times> string) + string"

section \<open>The request\<close>

record ssl_options =
  opt_sslmode :: ssl_mode
  opt_ca_cert :: "string option"
  opt_client_cert :: "string option"
  opt_client_key :: "string option"

datatype transport = Plain | Encrypted tls_settings

definition library_error :: "string \<Rightarrow> string list \<Rightarrow> error" where
  "library_error msg texts = with_context msg (map CMsg texts)"

definition context_lib :: "string \<Rightarrow> string list + 'a \<Rightarrow> error + 'a" where
  "context_lib msg = map_sum (library_error msg) id"

definition read_ssl_file :: "file_reader \<Rightarrow> string \<Rightarrow> string \<Rightarrow> error + string" where
  "read_ssl_file files msg path = map_sum (\<lambda>(kind, text). with_context msg [CIo kind text]) id (files path)"

definition apply_keepalives :: "driver_config \<Rightarrow> driver_config" where
  "apply_keepalives cfg =
     cfg\<lparr>keepalives := True, keepalives_idle_seconds := TCP_KEEPALIVE_IDLE_SECONDS,
        keepalives_interval_seconds := TCP_KEEPALIVE_INTERVAL_SECONDS,
        keepalives_retries := TCP_KEEPALIVE_RETRIES\<rparr>"

text \<open>The \<open>match sslmode\<close>; \<open>None\<close> is its \<open>unreachable!()\<close>.\<close>

fun relax_checks :: "ssl_mode \<Rightarrow> tls_settings \<Rightarrow> tls_settings option" where
  "relax_checks SslRequire b = Some (b\<lparr>accept_invalid_certs := True, accept_invalid_hostnames := True\<rparr>)"
| "relax_checks SslVerifyCa b = Some (b\<lparr>accept_invalid_hostnames := True\<rparr>)"
| "relax_checks SslVerifyFull b = Some b"
| "relax_checks SslDisable b = None"

definition add_ca_certificate ::
  "tls_library \<Rightarrow> file_reader \<Rightarrow> string option \<Rightarrow> tls_settings \<Rightarrow> error + tls_settings" where
  "add_ca_certificate lib files ca b =
     (case ca of
        None \<Rightarrow> Inr b
      | Some path \<Rightarrow>
          and_then (read_ssl_file files ''Failed to read CA certificate'' path) (\<lambda>data.
          and_then (context_lib ''Failed to parse CA certificate'' (certificate_from_pem lib data)) (\<lambda>cert.
            Inr (b\<lparr>root_certificates := root_certificates b @ [cert]\<rparr>))))"

text \<open>The two files together as PKCS#12 without a password, and if that fails as PKCS#8.\<close>

definition parse_identity :: "tls_library \<Rightarrow> string \<Rightarrow> string \<Rightarrow> string list + client_identity" where
  "parse_identity lib cert_data key_data =
     (case identity_from_pkcs12 lib (cert_data @ key_data) [] of
        Inr i \<Rightarrow> Inr i
      | Inl _ \<Rightarrow> identity_from_pkcs8 lib cert_data key_data)"

definition add_identity ::
  "tls_library \<Rightarrow> file_reader \<Rightarrow> string option \<Rightarrow> string option \<Rightarrow> tls_settings \<Rightarrow> error + tls_settings" where
  "add_identity lib files cert key b =
     (case (cert, key) of
        (Some cert_path, Some key_path) \<Rightarrow>
          and_then (read_ssl_file files ''Failed to read client certificate'' cert_path) (\<lambda>cert_data.
          and_then (read_ssl_file files ''Failed to read client key'' key_path) (\<lambda>key_data.
          and_then (context_lib ''Failed to parse client certificate and key''
              (parse_identity lib cert_data key_data)) (\<lambda>i.
            Inr (b\<lparr>identity := Some i\<rparr>))))
      | (None, None) \<Rightarrow> Inr b
      | _ \<Rightarrow> Inl (error_from_text ''Both --ssl-client-cert and --ssl-client-key must be provided together''))"

definition tls_request :: "tls_library \<Rightarrow> file_reader \<Rightarrow> ssl_options \<Rightarrow> error + tls_settings" where
  "tls_request lib files opts =
     (case relax_checks (opt_sslmode opts) new_tls_builder of
        None \<Rightarrow> Inl (error_from_text ''internal error: entered unreachable code'')
      | Some b \<Rightarrow>
          and_then (add_ca_certificate lib files (opt_ca_cert opts) b) (\<lambda>b.
          and_then (add_identity lib files (opt_client_cert opts) (opt_client_key opts) b) (\<lambda>b.
          and_then (context_lib ''Failed to build TLS connector'' (build_connector lib b)) (\<lambda>_. Inr b))))"

definition connect_request ::
  "tls_library \<Rightarrow> file_reader \<Rightarrow> string \<Rightarrow> ssl_options \<Rightarrow> error + transport \<times> driver_config" where
  "connect_request lib files connection_string opts =
     and_then (map_sum (context_pg ''Failed to parse connection string'') id (parse_config lib connection_string)) (\<lambda>cfg.
       let cfg = apply_keepalives cfg in
       if opt_sslmode opts = SslDisable then Inr (Plain, cfg)
       else
         let cfg = cfg\<lparr>tls_required := True\<rparr> in
         and_then (tls_request lib files opts) (\<lambda>b. Inr (Encrypted b, cfg)))"

fun connect_failure :: "transport \<Rightarrow> string" where
  "connect_failure Plain = ''Failed to connect to PostgreSQL''"
| "connect_failure (Encrypted b) = ''Failed to connect to PostgreSQL with SSL''"

section \<open>What the modes promise\<close>

fun protects :: "ssl_mode \<Rightarrow> transport \<Rightarrow> bool" where
  "protects SslDisable tr = (tr = Plain)"
| "protects SslRequire (Encrypted b) = True"
| "protects SslVerifyCa (Encrypted b) = (\<not> accept_invalid_certs b)"
| "protects SslVerifyFull (Encrypted b) = (\<not> accept_invalid_certs b \<and> \<not> accept_invalid_hostnames b)"
| "protects _ Plain = False"

definition watches_peer :: "driver_config \<Rightarrow> bool" where
  "watches_peer cfg =
     (keepalives cfg \<and> keepalives_idle_seconds cfg + keepalives_interval_seconds cfg * keepalives_retries cfg = 60)"

text \<open>The certificates are those of the files that the options name.\<close>

definition certificates_as_given :: "tls_library \<Rightarrow> file_reader \<Rightarrow> ssl_options \<Rightarrow> tls_settings \<Rightarrow> bool" where
  "certificates_as_given lib files opts b =
     ((case opt_ca_cert opts of
         None \<Rightarrow> root_certificates b = []
       | Some path \<Rightarrow> \<exists>data cert. files path = Inr data \<and> certificate_from_pem lib data = Inr cert
           \<and> root_certificates b = [cert])
      \<and> (case (opt_client_cert opts, opt_client_key opts) of
           (None, None) \<Rightarrow> identity b = None
         | (Some c, Some k) \<Rightarrow> \<exists>cd kd i. files c = Inr cd \<and> files k = Inr kd
             \<and> parse_identity lib cd kd = Inr i \<and> identity b = Some i
         | _ \<Rightarrow> False))"

definition as_configured :: "tls_library \<Rightarrow> file_reader \<Rightarrow> ssl_options \<Rightarrow> transport \<Rightarrow> driver_config \<Rightarrow> bool" where
  "as_configured lib files opts tr cfg =
     (protects (opt_sslmode opts) tr \<and> watches_peer cfg
      \<and> (case tr of Plain \<Rightarrow> True | Encrypted b \<Rightarrow> tls_required cfg \<and> certificates_as_given lib files opts b))"

text \<open>The panic is never reached: the mode without TLS has returned before.\<close>

lemma relax_checks_unreachable: "relax_checks m b = None \<longleftrightarrow> m = SslDisable"
  by (cases m) simp_all

lemma relax_checks_protects:
  assumes "relax_checks m new_tls_builder = Some b"
  shows "protects m (Encrypted b)" "root_certificates b = []" "identity b = None"
proof -
  have "protects m (Encrypted b) \<and> root_certificates b = [] \<and> identity b = None"
    using assms by (cases m) (auto simp: new_tls_builder_def)
  then show "protects m (Encrypted b)" "root_certificates b = []" "identity b = None" by simp_all
qed

text \<open>Whether the transport protects depends on the two checks only, and the certificates leave them alone.\<close>

lemma protects_checks:
  assumes "protects m (Encrypted b)" "accept_invalid_certs b' = accept_invalid_certs b"
    "accept_invalid_hostnames b' = accept_invalid_hostnames b"
  shows "protects m (Encrypted b')"
  using assms by (cases m) simp_all

lemma add_ca_certificate_spec:
  assumes "add_ca_certificate lib files ca b = Inr b'"
  shows "accept_invalid_certs b' = accept_invalid_certs b \<and> accept_invalid_hostnames b' = accept_invalid_hostnames b
     \<and> identity b' = identity b
     \<and> (case ca of None \<Rightarrow> root_certificates b' = root_certificates b
        | Some path \<Rightarrow> \<exists>data cert. files path = Inr data \<and> certificate_from_pem lib data = Inr cert
            \<and> root_certificates b' = root_certificates b @ [cert])"
  using assms
  by (cases ca) (auto simp: add_ca_certificate_def and_then_Inr read_ssl_file_def context_lib_def map_sum_Inr)

lemma add_identity_spec:
  assumes "add_identity lib files cert key b = Inr b'"
  shows "accept_invalid_certs b' = accept_invalid_certs b \<and> accept_invalid_hostnames b' = accept_invalid_hostnames b
     \<and> root_certificates b' = root_certificates b
     \<and> (case (cert, key) of (None, None) \<Rightarrow> identity b' = identity b
        | (Some c, Some k) \<Rightarrow> \<exists>cd kd i. files c = Inr cd \<and> files k = Inr kd
            \<and> parse_identity lib cd kd = Inr i \<and> identity b' = Some i
        | _ \<Rightarrow> False)"
  using assms
  by (cases cert; cases key)
    (auto simp: add_identity_def and_then_Inr read_ssl_file_def context_lib_def map_sum_Inr)

lemma tls_request_spec:
  assumes "tls_request lib files opts = Inr b"
  shows "protects (opt_sslmode opts) (Encrypted b) \<and> certificates_as_given lib files opts b"
proof -
  obtain b0 b1 where b0: "relax_checks (opt_sslmode opts) new_tls_builder = Some b0"
    and b1: "add_ca_certificate lib files (opt_ca_cert opts) b0 = Inr b1"
    and b: "add_identity lib files (opt_client_cert opts) (opt_client_key opts) b1 = Inr b"
    using assms by (auto simp: tls_request_def and_then_Inr split: option.splits)
  note specs = relax_checks_protects [OF b0] add_ca_certificate_spec [OF b1] add_identity_spec [OF b]
  from specs have "protects (opt_sslmode opts) (Encrypted b)" by (auto intro: protects_checks)
  with specs show ?thesis by (auto simp: certificates_as_given_def split: option.splits)
qed

lemma connect_request_as_configured:
  assumes "connect_request lib files cs opts = Inr (tr, cfg)"
  shows "as_configured lib files opts tr cfg"
  using assms
  by (auto simp: connect_request_def and_then_Inr map_sum_Inr Let_def as_configured_def watches_peer_def
      apply_keepalives_def config_defs dest: tls_request_spec split: if_splits)

text \<open>
  A mode with TLS never falls back, and half an identity is refused; without TLS the certificates are
  not even looked at.
\<close>

lemma half_identity_refused:
  assumes "opt_sslmode opts \<noteq> SslDisable" "(opt_client_cert opts = None) \<noteq> (opt_client_key opts = None)"
  shows "\<exists>e. connect_request lib files cs opts = Inl e"
proof (cases "connect_request lib files cs opts")
  case (Inr req)
  then obtain tr cfg where "connect_request lib files cs opts = Inr (tr, cfg)" by (cases req) simp
  from connect_request_as_configured [OF this] assms show ?thesis
    by (cases tr; cases "opt_sslmode opts")
      (auto simp: as_configured_def certificates_as_given_def split: option.splits)
qed simp

lemma plain_ignores_certificates:
  "opt_sslmode opts = SslDisable \<Longrightarrow>
     connect_request lib files cs opts = connect_request lib files' cs (opts\<lparr>opt_ca_cert := ca, opt_client_cert := c, opt_client_key := k\<rparr>)"
  by (simp add: connect_request_def Let_def)

text \<open>Libraries that accept everything.\<close>

definition example_tls :: tls_library where
  "example_tls =
     \<lparr>parse_config = (\<lambda>s. Inr \<lparr>parameters = [], keepalives = True, keepalives_idle_seconds = 7200,
        keepalives_interval_seconds = 0, keepalives_retries = 0, tls_required = False\<rparr>),
      certificate_from_pem = (\<lambda>d. Inr (Certificate d)),
      identity_from_pkcs12 = (\<lambda>d p. Inl [''not PKCS#12'']),
      identity_from_pkcs8 = (\<lambda>c k. Inr (Identity c)),
      build_connector = (\<lambda>b. Inr ())\<rparr>"

end
