(* ===== verification/Readable.thy ===== *)
theory Readable
  imports Float_Text
begin

text \<open>
  Sizes and times as they are shown in log lines: \<open>format_kb_readable\<close> (\<open>src/connection.rs\<close>),
  \<open>format_bytes_readable\<close> and \<open>format_last_maintained\<close> (\<open>src/operations.rs\<close>), and of the standard library
  \<open>Duration::as_secs_f64\<close> and the \<open>Debug\<close> layout of a \<open>Duration\<close> with two decimals. Times are in nanoseconds.
\<close>

section \<open>Sizes\<close>

definition format_kb_readable :: "int \<Rightarrow> string" where
  "format_kb_readable kb =
     (if 1048576 \<le> kb then show_fixed 1 (f64_of (i64_as_f64 kb / 1048576)) @ ''GB''
      else if 1024 \<le> kb then show_fixed 1 (f64_of (i64_as_f64 kb / 1024)) @ ''MB''
      else dec_int kb @ ''kB'')"

text \<open>Division of an \<open>i64\<close> rounds towards zero.\<close>

definition i64_quotient :: "int \<Rightarrow> int \<Rightarrow> int" where
  "i64_quotient a b = sgn a * sgn b * (\<bar>a\<bar> div \<bar>b\<bar>)"

definition format_bytes_readable :: "int \<Rightarrow> string" where
  "format_bytes_readable bytes = format_kb_readable (i64_quotient bytes 1024)"

section \<open>Times\<close>

definition as_secs_f64 :: "nat \<Rightarrow> f64" where
  "as_secs_f64 ns =
     f64_of (rnd (of_nat (ns div 1000000000)) + rnd (of_nat (ns mod 1000000000) / 1000000000))"

text \<open>\<open>{:.2?}\<close> of a \<open>Duration\<close>: the largest unit that fits, ties to even.\<close>

definition micro_sign :: string where "micro_sign = [CHR 0xC2, CHR 0xB5]"

definition show_duration :: "nat \<Rightarrow> string" where
  "show_duration ns =
     (let in_unit = (\<lambda>u. decimal_text 2 (nat (round_even (of_nat (ns * 100) / of_nat u))))
      in if 1000000000 \<le> ns then in_unit 1000000000 @ ''s''
         else if 1000000 \<le> ns then in_unit 1000000 @ ''ms''
         else if 1000 \<le> ns then in_unit 1000 @ micro_sign @ ''s''
         else in_unit 1 @ ''ns'')"

text \<open>The time stamp comes from the server, in microseconds; \<open>wall\<close> is the machine's clock in nanoseconds.\<close>

definition format_last_maintained :: "int \<Rightarrow> int option \<Rightarrow> string" where
  "format_last_maintained wall since =
     (case since of
        None \<Rightarrow> ''never''
      | Some t \<Rightarrow>
          if t * 1000 \<le> wall
          then show_fixed 1 (f64_over (as_secs_f64 (nat (wall - t * 1000))) 86400) @ '' days ago''
          else ''just now'')"

section \<open>What a shown size says\<close>

lemma show_fixed_nonneg: "0 \<le> r \<Longrightarrow> show_fixed p (Fin r) = decimal_text p (nat (round_even (r * 10 ^ p)))"
  by simp

lemma read_show_fixed:
  assumes "0 \<le> r"
  shows "\<bar>read_decimal (show_fixed p (Fin r)) - r\<bar> \<le> 1 / (2 * 10 ^ p)"
proof -
  let ?k = "round_even (r * 10 ^ p)"
  have "round_even (of_int 0) \<le> ?k" using assms by (intro round_even_mono) simp
  then have k: "0 \<le> ?k" by (simp only: round_even_of_int)
  have "read_decimal (show_fixed p (Fin r)) = of_int ?k / 10 ^ p"
    using assms k by (simp add: show_fixed_nonneg read_decimal_text del: show_fixed.simps)
  moreover have "of_int ?k / 10 ^ p - r = (of_int ?k - r * 10 ^ p) / 10 ^ p" by (simp add: diff_divide_distrib)
  then have "\<bar>of_int ?k / 10 ^ p - r\<bar> = \<bar>of_int ?k - r * 10 ^ p\<bar> / 10 ^ p" by simp
  ultimately have "\<bar>read_decimal (show_fixed p (Fin r)) - r\<bar> = \<bar>of_int ?k - r * 10 ^ p\<bar> / 10 ^ p" by (simp only:)
  also have "\<dots> \<le> (1 / 2) / 10 ^ p" by (intro divide_right_mono round_even_near) simp
  finally show ?thesis by (simp del: show_fixed.simps)
qed

lemma binary64_quotient:
  assumes "0 \<le> kb" "kb \<le> 2 ^ 53" "k \<le> 1074"
  shows "f64_of (i64_as_f64 kb / 2 ^ k) = Fin (of_int kb / 2 ^ k)"
proof -
  have kb: "i64_as_f64 kb = of_int kb" using assms by (intro i64_as_f64_exact)
  have "binary64 (of_int kb / 2 ^ k)"
    using assms by (intro binary64I [of _ kb "- int k"]) (simp_all add: power_int_minus divide_inverse)
  moreover have "of_int kb / 2 ^ k \<le> (of_int kb :: rat) / 1"
    using assms(1) by (intro divide_left_mono) simp_all
  moreover have "of_int kb \<le> (of_int (2 ^ 53) :: rat)" using assms(2) by (simp only: of_int_le_iff)
  ultimately have "binary64 (of_int kb / 2 ^ k)" "\<bar>of_int kb / 2 ^ k :: rat\<bar> < f64_limit"
    using assms(1) by (simp_all add: f64_limit_def)
  then show ?thesis unfolding kb by (rule f64_of_fix)
qed

text \<open>The size that a text stands for, in kilobytes.\<close>

definition read_size :: "string \<Rightarrow> rat" where
  "read_size s =
     (let unit = drop (length s - 2) s; x = read_decimal (take (length s - 2) s)
      in if unit = ''GB'' then x * 1048576 else if unit = ''MB'' then x * 1024 else x)"

lemma read_size_units [simp]:
  "read_size (s @ ''GB'') = read_decimal s * 1048576" "read_size (s @ ''MB'') = read_decimal s * 1024"
  "read_size (s @ ''kB'') = read_decimal s"
  by (simp_all add: read_size_def)

text \<open>
  A size is shown to within five hundredths of the unit it is shown in, and exactly below a megabyte.
\<close>

theorem readable_size_accurate:
  assumes "0 \<le> kb" "kb \<le> 2 ^ 53"
  shows "\<bar>read_size (format_kb_readable kb) - of_int kb\<bar>
       \<le> (if 1048576 \<le> kb then 1048576 / 20 else if 1024 \<le> kb then 1024 / 20 else 0)"
proof -
  have unit: "\<bar>read_decimal (show_fixed 1 (f64_of (i64_as_f64 kb / 2 ^ k))) * 2 ^ k - of_int kb\<bar> \<le> 2 ^ k / 20"
    if "k \<le> 1074" for k
  proof -
    let ?r = "of_int kb / 2 ^ k :: rat"
    have "0 \<le> ?r" using assms(1) by simp
    from read_show_fixed [OF this, of 1]
    have near: "\<bar>read_decimal (show_fixed 1 (Fin ?r)) - ?r\<bar> \<le> 1 / 20" by (simp del: show_fixed.simps)
    have "read_decimal (show_fixed 1 (Fin ?r)) * 2 ^ k - of_int kb = (read_decimal (show_fixed 1 (Fin ?r)) - ?r) * 2 ^ k"
      by (simp add: left_diff_distrib del: show_fixed.simps)
    then have "\<bar>read_decimal (show_fixed 1 (Fin ?r)) * 2 ^ k - of_int kb\<bar> =
        \<bar>read_decimal (show_fixed 1 (Fin ?r)) - ?r\<bar> * 2 ^ k" by (simp add: abs_mult del: show_fixed.simps)
    also have "\<dots> \<le> 1 / 20 * 2 ^ k" using near by (intro mult_right_mono) simp_all
    finally show ?thesis using binary64_quotient [OF assms that] by (simp del: show_fixed.simps)
  qed
  have "read_decimal (dec n) = of_nat n" for n
    using read_decimal_text [of 0 n] by (simp add: decimal_text_def)
  then have "read_decimal (dec_int kb) = of_int kb" using assms(1) by (simp add: dec_int_def)
  with unit [of 20] unit [of 10] show ?thesis
    by (simp add: format_kb_readable_def del: show_fixed.simps)
qed

end
