(* ===== verification/World.thy ===== *)
theory World
  imports Monitoring Tls Readable
begin

text \<open>
  The effects of a run. The server and the clock of the machine are not part of the program: they
  are a world \<open>'w\<close> that the calls of an environment observe and change, each taking some time. The
  state of a run is that world with the time, the arrival time of the first shutdown signal, the
  replication-lag gate, and the trace of what the program did so far. A component is a program of the
  library's state monad over that state; fallible ones return a sum.

  The watch channel of the signal handlers is the arrival time: \<open>shutdown_rx.borrow()\<close> is true from
  then on, and \<open>select! { sleep(d), shutdown_rx.changed() }\<close> is decided by comparing it with the end
  of the sleep. No code waits on \<open>changed()\<close> again after it fired once.
\<close>

section \<open>Calls and events\<close>

type_synonym ('w, 'r) call = "'w \<Rightarrow> 'r \<times> nat \<times> 'w"

record log_entry =
  entry_schema :: string
  entry_table :: string
  entry_operation :: string
  entry_mode :: string
  entry_status :: string
  entry_dead_before :: "int option"
  entry_dead_reduced :: "int option"
  entry_duration_ms :: int
  entry_error :: "string option"

datatype log_level = Info | Warning | ErrorLevel | Success

text \<open>
  Log messages: the text, or for the messages about one table the kind of the message with its values (theory
  \<open>Messages\<close> says what is printed for it).
\<close>

datatype dry_run_detail =
  NoDetail | Live int | LiveDead int int | BloatPct f64 | DeadThreshold int int bool
  | LastVacuumed f64 int int | LastAnalyzed f64 int

datatype log_msg =
  Text string
  | Retrying string string nat nat nat
  | LostConnection connection_lost
  | TableStart nat nat string string string
  | TableSuccess string string string nat
  | TableFailed string string string string
  | DryRunWouldWait string string f64 f64
  | SkipNoWaitBudget string string f64 f64
  | WaitingForLag string string f64 f64 nat
  | LagTimeout string string nat
  | LagStillOver string string f64 nat "standby_lag option"
  | LagRecovered string string f64 nat
  | LagGateActive f64 nat nat "standby_lag list"
  | WraparoundCandidate freeze_table_info
  | WouldRun string string string dry_run_detail

datatype event =
  ESql string "pg_error + unit" nat
  | ECount string string "pg_error + int"
  | EActive string string "pg_error + (int \<times> string) list"
  | ETerminate int "pg_error + unit"
  | ELogbook log_entry
  | ELag lag_observation
  | ELog log_level log_msg
  | ELogAlways log_level log_msg
  | ESleep nat
  | EConnect transport driver_config "pg_error + unit"
  | ELock int "pg_error + bool"

record 'w env =
  client_is_closed :: "'w \<Rightarrow> bool"
  elapse :: "nat \<Rightarrow> 'w \<Rightarrow> 'w"
  q_execute :: "string \<Rightarrow> ('w, pg_error + unit) call"
  q_dead_tuple_count :: "string \<Rightarrow> string \<Rightarrow> ('w, pg_error + snapshot) call"
  q_active_vacuums :: "string \<Rightarrow> string \<Rightarrow> ('w, pg_error + monitor) call"
  q_terminate_backend :: "int \<Rightarrow> ('w, pg_error + unit) call"
  q_insert_log :: "log_entry \<Rightarrow> ('w, pg_error + unit) call"
  q_can_read_replication_stats :: "('w, pg_error + bool) call"
  q_replication_lag :: "('w, pg_error + monitor) call"
  q_can_read_activity :: "('w, pg_error + bool) call"
  q_xmin_horizon_blockers :: "('w, pg_error + monitor) call"
  tls :: tls_library
  q_files :: "'w \<Rightarrow> file_reader"
  q_connect :: "transport \<Rightarrow> driver_config \<Rightarrow> ('w, pg_error + unit) call"
  q_server_version_num :: "('w, pg_error + int) call"
  q_is_in_recovery :: "('w, pg_error + bool) call"
  q_backend_pid :: "('w, pg_error + int) call"
  q_namespaces :: "('w, pg_error + string list) call"
  q_hashtext :: "string \<Rightarrow> ('w, pg_error + int) call"
  q_try_advisory_lock :: "int \<Rightarrow> ('w, pg_error + bool) call"
  q_schema_exists :: "string \<Rightarrow> ('w, pg_error + bool) call"
  q_shared_buffers :: "('w, pg_error + int) call"
  q_max_parallel_workers :: "('w, pg_error + int) call"
  q_worker_limits :: "('w, pg_error + string \<times> string) call"
  q_freeze_max_age :: "('w, pg_error + int) call"
  q_vacuum_settings :: "('w, pg_error + int \<times> f64) call"
  q_vacuum_max_threshold :: "('w, pg_error + int) call"
  q_catalog :: "('w, pg_error + snapshot) call"

text \<open>The answer to a query is what the query selects from the views at that moment.\<close>

definition reading :: "('a \<Rightarrow> 'e + 'b) \<Rightarrow> ('w, 'e + 'a) call \<Rightarrow> ('w, 'e + 'b) call" where
  "reading f q w = (case q w of (r, d, w') \<Rightarrow> (and_then r f, d, w'))"

definition ask_dead_tuples :: "'w env \<Rightarrow> string \<Rightarrow> string \<Rightarrow> ('w, pg_error + int) call" where
  "ask_dead_tuples env schema table =
     reading (\<lambda>s. exactly_one (GET_DEAD_TUPLE_COUNT schema table s)) (q_dead_tuple_count env schema table)"

definition ask_active_vacuums :: "'w env \<Rightarrow> string \<Rightarrow> string \<Rightarrow> ('w, pg_error + (int \<times> string) list) call" where
  "ask_active_vacuums env schema table =
     reading (\<lambda>m. Inr (FIND_ACTIVE_VACUUMS_ON_TABLE schema table m)) (q_active_vacuums env schema table)"

definition ask_replication_lag :: "'w env \<Rightarrow> ('w, pg_error + standby_lag list) call" where
  "ask_replication_lag env = reading (\<lambda>m. Inr (GET_REPLICATION_LAG m)) (q_replication_lag env)"

definition ask_blockers :: "'w env \<Rightarrow> ('w, pg_error + xmin_horizon_blocker list) call" where
  "ask_blockers env = reading (\<lambda>m. Inr (blockers m)) (q_xmin_horizon_blockers env)"

record 'w st =
  world :: 'w
  clock :: nat
  signal_at :: "nat option"
  lag_gate_state :: "lag_gate option"
  trace :: "event list"

type_synonym ('w, 'a) run = "('w st, 'a) state"

section \<open>Primitives\<close>

definition call_env :: "('w, 'r) call \<Rightarrow> ('r \<Rightarrow> event list) \<Rightarrow> ('w, 'r) run" where
  "call_env f ev = State (\<lambda>s. case f (world s) of (r, d, w) \<Rightarrow>
     (r, s\<lparr>world := w, clock := clock s + d, trace := trace s @ ev r\<rparr>))"

definition is_closed :: "'w env \<Rightarrow> ('w, bool) run" where
  "is_closed env = State (\<lambda>s. (client_is_closed env (world s), s))"

definition now :: "('w, nat) run" where
  "now = State (\<lambda>s. (clock s, s))"

text \<open>A statement is traced with its answer and the time it was sent.\<close>

definition execute :: "'w env \<Rightarrow> string \<Rightarrow> ('w, pg_error + unit) run" where
  "execute env sql = do {
     sent \<leftarrow> now;
     call_env (q_execute env sql) (\<lambda>r. [ESql sql r sent])
   }"

definition emit :: "event \<Rightarrow> ('w, unit) run" where
  "emit e = State (\<lambda>s. ((), s\<lparr>trace := trace s @ [e]\<rparr>))"

abbreviation log :: "log_level \<Rightarrow> log_msg \<Rightarrow> ('w, unit) run" where
  "log level msg \<equiv> emit (ELog level msg)"

abbreviation log_always :: "log_level \<Rightarrow> log_msg \<Rightarrow> ('w, unit) run" where
  "log_always level msg \<equiv> emit (ELogAlways level msg)"

text \<open>\<open>*shutdown_rx.borrow()\<close>.\<close>

definition signalled :: "nat option \<Rightarrow> nat \<Rightarrow> bool" where
  "signalled sig t = (case sig of Some a \<Rightarrow> a \<le> t | None \<Rightarrow> False)"

definition shutdown_requested :: "('w, bool) run" where
  "shutdown_requested = State (\<lambda>s. (signalled (signal_at s) (clock s), s))"

text \<open>
  \<open>tokio::select!\<close> between a sleep of \<open>d\<close> nanoseconds and a change of the watch channel: true if the
  signal came first (or had come before).
\<close>

definition sleep_or_shutdown :: "'w env \<Rightarrow> nat \<Rightarrow> ('w, bool) run" where
  "sleep_or_shutdown env d = State (\<lambda>s.
     let stop = (case signal_at s of
                   Some a \<Rightarrow> if a < clock s + d then Some (max (clock s) a) else None
                 | None \<Rightarrow> None);
         until = (case stop of Some t \<Rightarrow> t | None \<Rightarrow> clock s + d);
         slept = until - clock s
     in (stop \<noteq> None,
         s\<lparr>world := elapse env slept (world s), clock := until, trace := trace s @ [ESleep slept]\<rparr>))"

definition update_gate :: "(lag_gate \<Rightarrow> lag_gate) \<Rightarrow> ('w, unit) run" where
  "update_gate f = State (\<lambda>s. ((), s\<lparr>lag_gate_state := map_option f (lag_gate_state s)\<rparr>))"

definition set_gate :: "lag_gate \<Rightarrow> ('w, unit) run" where
  "set_gate g = State (\<lambda>s. ((), s\<lparr>lag_gate_state := Some g\<rparr>))"

definition get_gate :: "('w, lag_gate option) run" where
  "get_gate = State (\<lambda>s. (lag_gate_state s, s))"

abbreviation ret :: "'a \<Rightarrow> ('s, 'a) state" where
  "ret \<equiv> State_Monad.return"

text \<open>The question mark operator.\<close>

definition try_run :: "('s, 'e + 'a) state \<Rightarrow> ('a \<Rightarrow> ('s, 'e + 'b) state) \<Rightarrow> ('s, 'e + 'b) state" where
  "try_run m f = do {
     r \<leftarrow> m;
     case r of Inl e \<Rightarrow> ret (Inl e) | Inr x \<Rightarrow> f x
   }"

text \<open>A call whose error is turned into an \<open>anyhow::Error\<close>, as \<open>map_err\<close> and \<open>context\<close> do.\<close>

definition map_error :: "('d \<Rightarrow> 'e) \<Rightarrow> ('s, 'd + 'a) state \<Rightarrow> ('s, 'e + 'a) state" where
  "map_error h m = do {
     r \<leftarrow> m;
     ret (case r of Inl e \<Rightarrow> Inl (h e) | Inr x \<Rightarrow> Inr x)
   }"

section \<open>How a run evolves\<close>

text \<open>
  Whatever runs, time does not go back, the signal does not move, and the trace only grows, by
  statements sent in the meantime and other events. \<open>emits Q m\<close> says so of \<open>m\<close>, with every new event
  satisfying \<open>Q\<close>.
\<close>

fun is_statement :: "event \<Rightarrow> bool" where
  "is_statement (ESql _ _ _) = True"
| "is_statement _ = False"

fun sent_between :: "nat \<Rightarrow> nat \<Rightarrow> event \<Rightarrow> bool" where
  "sent_between t u (ESql _ _ n) = (t \<le> n \<and> n \<le> u)"
| "sent_between t u _ = True"

lemma sent_between_other [simp]: "\<not> is_statement e \<Longrightarrow> sent_between t u e"
  by (cases e) simp_all

lemma sent_between_mono: "sent_between t u e \<Longrightarrow> t' \<le> t \<Longrightarrow> u \<le> u' \<Longrightarrow> sent_between t' u' e"
  by (cases e) auto

definition evolves :: "(event \<Rightarrow> bool) \<Rightarrow> 'w st \<Rightarrow> 'w st \<Rightarrow> bool" where
  "evolves Q s s' =
     (clock s \<le> clock s' \<and> signal_at s' = signal_at s
      \<and> (\<exists>es. trace s' = trace s @ es \<and> (\<forall>e\<in>set es. Q e \<and> sent_between (clock s) (clock s') e)))"

definition emits :: "(event \<Rightarrow> bool) \<Rightarrow> ('w, 'a) run \<Rightarrow> bool" where
  "emits Q m = (\<forall>s. evolves Q s (snd (run_state m s)))"

lemma evolves_refl [simp]: "evolves Q s s"
  by (simp add: evolves_def)

lemma evolves_trans:
  assumes "evolves Q s t" "evolves Q t u"
  shows "evolves Q s u"
proof -
  from assms obtain es fs where es: "trace t = trace s @ es"
      "\<forall>e\<in>set es. Q e \<and> sent_between (clock s) (clock t) e"
    and fs: "trace u = trace t @ fs" "\<forall>e\<in>set fs. Q e \<and> sent_between (clock t) (clock u) e"
    by (auto simp: evolves_def)
  have time: "clock s \<le> clock t" "clock t \<le> clock u" using assms by (simp_all add: evolves_def)
  then have "\<forall>e\<in>set (es @ fs). Q e \<and> sent_between (clock s) (clock u) e"
    using es(2) fs(2) by (auto intro: sent_between_mono)
  with es(1) fs(1) time assms show ?thesis
    unfolding evolves_def by auto
qed

lemma evolves_mono: "evolves P s t \<Longrightarrow> (\<And>e. P e \<Longrightarrow> Q e) \<Longrightarrow> evolves Q s t"
  unfolding evolves_def by blast

lemma emitsD: "emits Q m \<Longrightarrow> run_state m s = (r, s') \<Longrightarrow> evolves Q s s'"
  unfolding emits_def by (metis snd_conv)

lemma emits_mono: "emits P m \<Longrightarrow> (\<And>e. P e \<Longrightarrow> Q e) \<Longrightarrow> emits Q m"
  unfolding emits_def by (blast intro: evolves_mono)

lemma emits_return [emits_intros]: "emits Q (ret x)"
  by (simp add: emits_def)

lemma emits_bind [emits_intros]:
  assumes "emits Q m" "\<And>x. emits Q (f x)"
  shows "emits Q (State_Monad.bind m f)"
  using assms unfolding emits_def by (auto split: prod.splits) (metis evolves_trans snd_conv)

lemma emits_if [emits_intros]: "(b \<Longrightarrow> emits Q m) \<Longrightarrow> (\<not> b \<Longrightarrow> emits Q n) \<Longrightarrow> emits Q (if b then m else n)"
  by simp

lemma emits_option [emits_intros]:
  "(x = None \<Longrightarrow> emits Q m) \<Longrightarrow> (\<And>y. x = Some y \<Longrightarrow> emits Q (f y)) \<Longrightarrow>
     emits Q (case x of None \<Rightarrow> m | Some y \<Rightarrow> f y)"
  by (cases x) simp_all

lemma emits_sum [emits_intros]:
  "(\<And>y. x = Inl y \<Longrightarrow> emits Q (f y)) \<Longrightarrow> (\<And>y. x = Inr y \<Longrightarrow> emits Q (g y)) \<Longrightarrow>
     emits Q (case x of Inl y \<Rightarrow> f y | Inr y \<Rightarrow> g y)"
  by (cases x) simp_all

lemma emits_prod [emits_intros]: "(\<And>a b. x = (a, b) \<Longrightarrow> emits Q (f a b)) \<Longrightarrow> emits Q (case x of (a, b) \<Rightarrow> f a b)"
  by (cases x) simp

lemma emits_let [emits_intros]: "emits Q (f x) \<Longrightarrow> emits Q (let y = x in f y)"
  by simp

lemma emits_call [emits_intros]:
  "(\<And>r e. e \<in> set (ev r) \<Longrightarrow> Q e \<and> \<not> is_statement e) \<Longrightarrow> emits Q (call_env f ev)"
  by (auto simp: emits_def evolves_def call_env_def split: prod.splits)

lemma emits_execute [emits_intros]: "(\<And>r t. Q (ESql sql r t)) \<Longrightarrow> emits Q (execute env sql)"
  by (auto simp: emits_def evolves_def execute_def call_env_def now_def split: prod.splits)

lemma emits_emit [emits_intros]: "Q e \<Longrightarrow> \<not> is_statement e \<Longrightarrow> emits Q (emit e)"
  by (auto simp: emits_def evolves_def emit_def)

lemma emits_read [emits_intros]:
  "emits Q (is_closed env)" "emits Q now" "emits Q shutdown_requested" "emits Q get_gate"
  by (simp_all add: emits_def is_closed_def now_def shutdown_requested_def get_gate_def)

lemma emits_sleep [emits_intros]: "(\<And>d'. Q (ESleep d')) \<Longrightarrow> emits Q (sleep_or_shutdown env d)"
  by (auto simp: emits_def evolves_def sleep_or_shutdown_def Let_def split: option.splits)

lemma emits_gate_ops [emits_intros]: "emits Q (update_gate f)" "emits Q (set_gate g)"
  by (auto simp: emits_def evolves_def update_gate_def set_gate_def)

lemma emits_try_run [emits_intros]:
  "emits Q m \<Longrightarrow> (\<And>x. emits Q (f x)) \<Longrightarrow> emits Q (try_run m f)"
  unfolding try_run_def by (intro emits_intros)

lemma emits_map_error [emits_intros]: "emits Q m \<Longrightarrow> emits Q (map_error h m)"
  unfolding map_error_def by (intro emits_intros)

lemma signalled_mono: "signalled sig t \<Longrightarrow> t \<le> u \<Longrightarrow> signalled sig u"
  by (auto simp: signalled_def split: option.splits)

lemma run_primitives [simp]:
  "run_state (emit e) s = ((), s\<lparr>trace := trace s @ [e]\<rparr>)"
  "run_state now s = (clock s, s)"
  "run_state (is_closed env) s = (client_is_closed env (world s), s)"
  "run_state shutdown_requested s = (signalled (signal_at s) (clock s), s)"
  "run_state get_gate s = (lag_gate_state s, s)"
  "run_state (update_gate f) s = ((), s\<lparr>lag_gate_state := map_option f (lag_gate_state s)\<rparr>)"
  "run_state (set_gate g) s = ((), s\<lparr>lag_gate_state := Some g\<rparr>)"
  by (simp_all add: emit_def now_def is_closed_def shutdown_requested_def get_gate_def update_gate_def
      set_gate_def)

lemma run_try [simp]:
  "run_state (try_run m f) s =
     (case run_state m s of (Inl e, s') \<Rightarrow> (Inl e, s') | (Inr x, s') \<Rightarrow> run_state (f x) s')"
  by (auto simp: try_run_def split: prod.splits sum.splits)

lemma run_map_error [simp]:
  "run_state (map_error h m) s =
     (case run_state m s of (Inl e, s') \<Rightarrow> (Inl (h e), s') | (Inr x, s') \<Rightarrow> (Inr x, s'))"
  by (auto simp: map_error_def split: prod.splits sum.splits)

section \<open>A concrete server\<close>

text \<open>
  An environment that computes, to run the programs on: a server that is never closed and answers from
  a script. Its world is the list of answers still to be given to the statements; with an empty script
  every statement succeeds. Each call takes a millisecond, no table is being vacuumed, there are no
  dead tuples, no standby is connected and the catalogs are empty.
\<close>

definition scripted_catalog :: snapshot where
  "scripted_catalog =
     \<lparr>rels = [], snap_now = 0, guc_freeze_max_age = 200000000, guc_vacuum_threshold = 50,
      guc_vacuum_scale_factor = 1 / 5, guc_insert_threshold = 1000, guc_insert_scale_factor = 1 / 5\<rparr>"

definition scripted_table :: "string \<Rightarrow> string \<Rightarrow> snapshot" where
  "scripted_table schema table = scripted_catalog
     \<lparr>rels := [\<lparr>rel_schema = schema, rel_name = table, rel_kind = CHR ''r'', rel_size = Some 0, rel_xid_age = 0,
        rel_tuples = 0, rel_pages = 0, rel_all_frozen = 0, rel_options = [],
        rel_user_stats = Some \<lparr>st_live = Some 0, st_dead = Some 0, st_mod = Some 0, st_ins = Some 0,
          st_last_vacuum = None, st_last_autovacuum = None, st_last_analyze = None, st_last_autoanalyze = None\<rparr>,
        rel_all_stats = None\<rparr>]\<rparr>"

definition idle_monitor :: monitor where
  "idle_monitor = \<lparr>mon_now = 0, mon_self = 1, mon_backends = [], mon_slots = [], mon_prepared = [],
     mon_replication = [], mon_vacuums = []\<rparr>"

definition scripted_env :: "(pg_error + unit) list env" where
  "scripted_env =
     \<lparr>client_is_closed = (\<lambda>w. False),
      elapse = (\<lambda>d w. w),
      q_execute = (\<lambda>sql w. case w of [] \<Rightarrow> (Inr (), 1000000, []) | r # rs \<Rightarrow> (r, 1000000, rs)),
      q_dead_tuple_count = (\<lambda>s t w. (Inr (scripted_table s t), 1000000, w)),
      q_active_vacuums = (\<lambda>s t w. (Inr idle_monitor, 1000000, w)),
      q_terminate_backend = (\<lambda>p w. (Inr (), 1000000, w)),
      q_insert_log = (\<lambda>e w. (Inr (), 1000000, w)),
      q_can_read_replication_stats = (\<lambda>w. (Inr True, 1000000, w)),
      q_replication_lag = (\<lambda>w. (Inr idle_monitor, 1000000, w)),
      q_can_read_activity = (\<lambda>w. (Inr False, 1000000, w)),
      q_xmin_horizon_blockers = (\<lambda>w. (Inr idle_monitor, 1000000, w)),
      tls = example_tls,
      q_files = (\<lambda>w path. Inr path),
      q_connect = (\<lambda>tr cfg w. (Inr (), 1000000, w)),
      q_server_version_num = (\<lambda>w. (Inr 170000, 1000000, w)),
      q_is_in_recovery = (\<lambda>w. (Inr False, 1000000, w)),
      q_backend_pid = (\<lambda>w. (Inr 1, 1000000, w)),
      q_namespaces = (\<lambda>w. (Inr [''public''], 1000000, w)),
      q_hashtext = (\<lambda>s w. (Inr 7, 1000000, w)),
      q_try_advisory_lock = (\<lambda>k w. (Inr True, 1000000, w)),
      q_schema_exists = (\<lambda>s w. (Inr True, 1000000, w)),
      q_shared_buffers = (\<lambda>w. (Inr 134217728, 1000000, w)),
      q_max_parallel_workers = (\<lambda>w. (Inr 8, 1000000, w)),
      q_worker_limits = (\<lambda>w. (Inr (''8'', ''8''), 1000000, w)),
      q_freeze_max_age = (\<lambda>w. (Inr 200000000, 1000000, w)),
      q_vacuum_settings = (\<lambda>w. (Inr (50, Fin (1 / 5)), 1000000, w)),
      q_vacuum_max_threshold = (\<lambda>w. (Inr 100000000, 1000000, w)),
      q_catalog = (\<lambda>w. (Inr scripted_catalog, 1000000, w))\<rparr>"

definition initial_state :: "'w \<Rightarrow> 'w st" where
  "initial_state w = \<lparr>world = w, clock = 0, signal_at = None, lag_gate_state = None, trace = []\<rparr>"

definition server_error :: "string \<Rightarrow> pg_error" where
  "server_error c = \<lparr>closed = False, db_part = Some \<lparr>db_message = ''error'', db_code = c\<rparr>,
                     own_text = ''db error'', source_chain = [(None, ''error'')]\<rparr>"

lemma scripted_fields [simp]:
  "client_is_closed scripted_env w = False" "elapse scripted_env d w = w"
  "q_execute scripted_env sql w = (case w of [] \<Rightarrow> (Inr (), 1000000, []) | r # rs \<Rightarrow> (r, 1000000, rs))"
  "q_terminate_backend scripted_env p w = (Inr (), 1000000, w)" "q_insert_log scripted_env e w = (Inr (), 1000000, w)"
  "q_can_read_replication_stats scripted_env w = (Inr True, 1000000, w)"
  "q_can_read_activity scripted_env w = (Inr False, 1000000, w)"
  by (simp_all add: scripted_env_def)

lemma scripted_answers [simp]:
  "ask_dead_tuples scripted_env schema table w = (Inr 0, 1000000, w)"
  "ask_active_vacuums scripted_env schema table w = (Inr [], 1000000, w)"
  "ask_replication_lag scripted_env w = (Inr [], 1000000, w)"
  "ask_blockers scripted_env w = (Inr [], 1000000, w)"
  by (simp_all add: ask_dead_tuples_def ask_active_vacuums_def ask_replication_lag_def ask_blockers_def reading_def
      scripted_env_def scripted_table_def idle_monitor_def GET_DEAD_TUPLE_COUNT_def exactly_one_def dead_def column_def
      coalesce_def FIND_ACTIVE_VACUUMS_ON_TABLE_def GET_REPLICATION_LAG_def blockers_def
      FIND_XMIN_HORIZON_BLOCKERS_def holders_def)

end
