(* ===== verification/Table_Ops.thy ===== *)
theory Table_Ops
  imports World
begin

text \<open>
  The operations on one table (\<open>src/operations.rs\<close>): the four maintenance commands, the retry of a
  command that hit \<open>lock_timeout\<close>, the logbook, and what is recorded when a command fails.
\<close>

section \<open>The maintenance commands\<close>

record operation_result =
  dead_tuples_before :: "int option"
  dead_tuples_reduced_approx :: "int option"

definition dead_tuple_count :: "'w env \<Rightarrow> string \<Rightarrow> string \<Rightarrow> ('w, pg_error + int) run" where
  "dead_tuple_count env schema table =
     call_env (ask_dead_tuples env schema table) (\<lambda>r. [ECount schema table r])"

definition result_of_counts :: "int \<Rightarrow> int \<Rightarrow> operation_result" where
  "result_of_counts dead_before dead_after =
     \<lparr>dead_tuples_before = (if dead_before > 0 then Some dead_before else None),
      dead_tuples_reduced_approx = estimate_dead_tuples_reduced dead_before dead_after\<rparr>"

definition vacuum_table ::
  "'w env \<Rightarrow> string \<Rightarrow> string \<Rightarrow> vacuum_options \<Rightarrow> ('w, pg_error + operation_result) run" where
  "vacuum_table env schema table v =
     try_run (dead_tuple_count env schema table) (\<lambda>dead_before.
     try_run (execute env (vacuum_sql schema table v)) (\<lambda>_.
     try_run (dead_tuple_count env schema table) (\<lambda>dead_after.
       ret (Inr (result_of_counts dead_before dead_after)))))"

definition analyze_table :: "'w env \<Rightarrow> string \<Rightarrow> string \<Rightarrow> ('w, pg_error + operation_result) run" where
  "analyze_table env schema table =
     try_run (execute env (analyze_sql schema table)) (\<lambda>_.
       ret (Inr \<lparr>dead_tuples_before = None, dead_tuples_reduced_approx = None\<rparr>))"

definition freeze_table ::
  "'w env \<Rightarrow> string \<Rightarrow> string \<Rightarrow> vacuum_options \<Rightarrow> ('w, pg_error + operation_result) run" where
  "freeze_table env schema table v =
     try_run (execute env (freeze_sql schema table v)) (\<lambda>_.
       ret (Inr \<lparr>dead_tuples_before = None, dead_tuples_reduced_approx = None\<rparr>))"

definition vacuum_analyze_table ::
  "'w env \<Rightarrow> string \<Rightarrow> string \<Rightarrow> vacuum_options \<Rightarrow> ('w, pg_error + operation_result) run" where
  "vacuum_analyze_table env schema table v =
     try_run (dead_tuple_count env schema table) (\<lambda>dead_before.
     try_run (execute env (vacuum_analyze_sql schema table v)) (\<lambda>_.
     try_run (dead_tuple_count env schema table) (\<lambda>dead_after.
       ret (Inr (result_of_counts dead_before dead_after)))))"

section \<open>Retry on lock timeout\<close>

text \<open>Milliseconds in nanoseconds, the unit of the clock.\<close>

definition ms :: "nat \<Rightarrow> nat" where
  "ms n = n * 1000000"

function retry_loop ::
  "'w env \<Rightarrow> run_policy \<Rightarrow> string \<Rightarrow> string \<Rightarrow> ('w, pg_error + 'a) run \<Rightarrow> nat \<Rightarrow> nat \<Rightarrow>
     ('w, pg_error + 'a) run" where
  "retry_loop env policy schema table op attempt delay_ms = do {
     r \<leftarrow> op;
     case r of
       Inr result \<Rightarrow> ret (Inr result)
     | Inl err \<Rightarrow> do {
         stop \<leftarrow> shutdown_requested;
         if \<not> is_lock_timeout err \<or> lock_timeout_retries policy \<le> attempt \<or> stop then ret (Inl err)
         else do {
           log Warning (Retrying schema table (attempt + 1) (lock_timeout_retries policy) delay_ms);
           interrupted \<leftarrow> sleep_or_shutdown env (ms delay_ms);
           if interrupted then ret (Inl err)
           else retry_loop env policy schema table op (attempt + 1) (u64_saturating_mul delay_ms 2)
         }
       }
   }"
  by pat_completeness auto
termination
  by (relation "measure (\<lambda>(_, policy, _, _, _, attempt, _). lock_timeout_retries policy - attempt)") auto

declare retry_loop.simps [simp del]

definition with_lock_timeout_retry ::
  "'w env \<Rightarrow> run_policy \<Rightarrow> string \<Rightarrow> string \<Rightarrow> ('w, pg_error + 'a) run \<Rightarrow> ('w, pg_error + 'a) run" where
  "with_lock_timeout_retry env policy schema table op =
     retry_loop env policy schema table op 0 (lock_timeout_retry_delay_ms policy)"

section \<open>Recording the outcome\<close>

definition quoted :: "string \<Rightarrow> string \<Rightarrow> string" where
  "quoted schema table = [dquote] @ schema @ [dquote] @ ''.'' @ [dquote] @ table @ [dquote]"

text \<open>The em dash of the messages, in UTF-8.\<close>

definition em_dash :: string where
  "em_dash = [CHR 0xE2, CHR 0x80, CHR 0x94]"

text \<open>
  The statement of the logbook, as it is written in \<open>src/queries.rs\<close>; \<open>q_insert_log\<close> sends it with the fields of
  the entry as its parameters.
\<close>

definition INSERT_MAINTENANCE_LOG :: string where
  "INSERT_MAINTENANCE_LOG =
     newline # ''    INSERT INTO maintainer_logbook.maintenance_logbook'' @
     newline # ''      (schema_name, table_name, operation, mode, status,'' @
     newline # ''       dead_tuples_before, dead_tuples_removed, duration_ms, error_message, run_started_at)'' @
     newline # ''    VALUES'' @
     newline # ''      ($1, $2, $3, $4, $5, $6, $7, $8, $9, now())'' @ [newline]"

definition log_maintenance_operation :: "'w env \<Rightarrow> bool \<Rightarrow> log_entry \<Rightarrow> ('w, unit) run" where
  "log_maintenance_operation env is_dry_run entry =
     (if is_dry_run then ret ()
      else do {
        _ \<leftarrow> call_env (q_insert_log env entry) (\<lambda>_. [ELogbook entry]);
        ret ()
      })"

definition lock_timeout_skip_message :: "run_policy \<Rightarrow> string \<Rightarrow> string \<Rightarrow> string" where
  "lock_timeout_skip_message policy schema table =
     (let retries = (if 0 < lock_timeout_retries policy
                     then '' after '' @ dec (lock_timeout_retries policy) @ '' retries'' else [])
      in ''Skipping '' @ quoted schema table @ '' '' @ em_dash @ '' could not acquire lock within ''
         @ dec (lock_timeout_ms policy) @ ''ms'' @ retries)"

definition format_dead_tuple_change :: "string \<Rightarrow> string \<Rightarrow> string \<Rightarrow> int \<Rightarrow> string" where
  "format_dead_tuple_change op schema table reduced =
     (if reduced = 0
      then op @ '' on '' @ quoted schema table @ '': estimated dead tuples did not decrease ''
        @ ''(approx., based on pg_stat_user_tables.n_dead_tup before/after; the table may not have ''
        @ ''needed vacuuming, concurrent writes may have offset the reduction, or another process ''
        @ ''already cleaned it up)''
      else op @ '' on '' @ quoted schema table @ '' reduced estimated dead tuples by ~'' @ dec_int reduced
        @ '' (approx., from pg_stat_user_tables.n_dead_tup)'')"

record operation_summary =
  total :: nat
  succeeded :: nat
  failed :: nat
  skipped :: nat

definition count_skipped :: "operation_summary \<Rightarrow> operation_summary" where
  "count_skipped s = s\<lparr>skipped := skipped s + 1\<rparr>"

definition count_succeeded :: "operation_summary \<Rightarrow> operation_summary" where
  "count_succeeded s = s\<lparr>succeeded := succeeded s + 1\<rparr>"

definition count_failed :: "operation_summary \<Rightarrow> operation_summary" where
  "count_failed s = s\<lparr>failed := failed s + 1\<rparr>"

definition handle_shutdown_interrupt ::
  "'w env \<Rightarrow> run_policy \<Rightarrow> operation_summary \<Rightarrow> string \<Rightarrow> string \<Rightarrow> string \<Rightarrow> string \<Rightarrow> int \<Rightarrow>
     ('w, operation_summary) run" where
  "handle_shutdown_interrupt env policy summary schema table operation mode duration_ms = do {
     log Warning (Text (quoted schema table @
       '' interrupted by shutdown (statement cancelled); safe to re-run''));
     gone \<leftarrow> is_closed env;
     if \<not> gone
     then do {
       log_maintenance_operation env (dry_run policy)
         \<lparr>entry_schema = schema, entry_table = table, entry_operation = operation, entry_mode = mode,
          entry_status = ''cancelled'', entry_dead_before = None, entry_dead_reduced = None,
          entry_duration_ms = duration_ms, entry_error = Some ''cancelled by shutdown''\<rparr>;
       ret (count_skipped summary)
     }
     else ret (count_skipped summary)
   }"

definition connection_lost_error ::
  "string \<Rightarrow> string \<Rightarrow> string \<Rightarrow> (nat \<times> nat) option \<Rightarrow> string \<Rightarrow> ('w, error) run" where
  "connection_lost_error operation schema table position cause = do {
     let lost = \<lparr>lost_operation = operation, lost_schema = schema, lost_table = table,
                 lost_position = position, lost_cause = cause\<rparr>;
     log_always ErrorLevel (LostConnection lost);
     ret [CLost lost]
   }"

section \<open>The contract of a maintenance command\<close>

text \<open>
  A maintenance command runs its one statement at most once and does nothing else but count the dead
  tuples of its table; it reports success only if the statement and the counts succeeded, and otherwise
  the one error it was answered with.
\<close>

definition new_events :: "'w st \<Rightarrow> 'w st \<Rightarrow> event list" where
  "new_events s s' = drop (length (trace s)) (trace s')"

fun slept_ns :: "event \<Rightarrow> nat" where
  "slept_ns (ESleep n) = n"
| "slept_ns _ = 0"

definition statements :: "event list \<Rightarrow> event list" where
  "statements es = filter is_statement es"

definition total_slept :: "event list \<Rightarrow> nat" where
  "total_slept es = sum_list (map slept_ns es)"

lemma statements_simps [simp]:
  "statements [] = []" "statements (es @ fs) = statements es @ statements fs"
  "statements (e # es) = (if is_statement e then e # statements es else statements es)"
  by (simp_all add: statements_def)

lemma total_slept_simps [simp]:
  "total_slept [] = 0" "total_slept (es @ fs) = total_slept es + total_slept fs"
  "total_slept (e # es) = slept_ns e + total_slept es"
  by (simp_all add: total_slept_def)

text \<open>One round of the retry loop.\<close>

lemma run_retry_loop:
  "run_state (retry_loop env policy sch tab op n d) s =
     (case run_state op s of
        (Inr x, s1) \<Rightarrow> (Inr x, s1)
      | (Inl err, s1) \<Rightarrow>
          if \<not> is_lock_timeout err \<or> lock_timeout_retries policy \<le> n
             \<or> signalled (signal_at s1) (clock s1)
          then (Inl err, s1)
          else (case run_state (sleep_or_shutdown env (ms d))
                       (s1\<lparr>trace := trace s1 @
                          [ELog Warning (Retrying sch tab (n + 1) (lock_timeout_retries policy) d)]\<rparr>) of
                  (stop, s2) \<Rightarrow>
                    if stop then (Inl err, s2)
                    else run_state (retry_loop env policy sch tab op (n + 1) (u64_saturating_mul d 2)) s2))"
  by (subst retry_loop.simps) (auto split: prod.splits sum.splits)

lemma run_sleep:
  "run_state (sleep_or_shutdown env d) s = (stop, s') \<Longrightarrow>
     \<exists>n\<le>d. trace s' = trace s @ [ESleep n] \<and> clock s' = clock s + n \<and> signal_at s' = signal_at s
       \<and> (stop = signalled (signal_at s') (clock s') \<or> n = d)"
  by (auto simp: sleep_or_shutdown_def Let_def signalled_def split: option.splits if_splits)

lemma total_slept_statements: "\<forall>e\<in>set es. is_statement e \<Longrightarrow> total_slept es = 0"
  by (induction es) (auto elim: is_statement.elims)

text \<open>A statement that was sent when the shutdown signal had already arrived.\<close>

fun late :: "nat option \<Rightarrow> event \<Rightarrow> bool" where
  "late sig (ESql _ _ t) = signalled sig t"
| "late sig _ = False"

lemma late_statement: "late sig e \<Longrightarrow> is_statement e"
  by (cases e) auto

lemma not_late_before: "sent_between t u e \<Longrightarrow> \<not> signalled sig u \<Longrightarrow> \<not> late sig e"
  by (cases e) (auto intro: signalled_mono)

text \<open>The errors with which statements and counts were answered.\<close>

fun error_answer :: "event \<Rightarrow> pg_error list" where
  "error_answer (ESql _ (Inl e) _) = [e]"
| "error_answer (ECount _ _ (Inl e)) = [e]"
| "error_answer _ = []"

definition error_answers :: "event list \<Rightarrow> pg_error list" where
  "error_answers es = concat (map error_answer es)"

lemma error_answers_simps [simp]:
  "error_answers [] = []" "error_answers (es @ fs) = error_answers es @ error_answers fs" "error_answers (e # es) = error_answer e @ error_answers es"
  by (simp_all add: error_answers_def)

text \<open>The events of a command: its statement, and counts of its table.\<close>

fun command_event :: "string \<Rightarrow> string \<Rightarrow> string \<Rightarrow> event \<Rightarrow> bool" where
  "command_event sql schema table (ESql q r t) = (q = sql)"
| "command_event sql schema table (ECount s t r) = (s = schema \<and> t = table)"
| "command_event sql schema table _ = False"

lemma command_event_cases:
  assumes "command_event sql schema table e"
  obtains r t where "e = ESql sql r t" | r where "e = ECount schema table r"
  using assms by (cases e) auto

lemma command_event_idle: "command_event sql schema table e \<Longrightarrow> slept_ns e = 0"
  by (cases e) auto

locale table_operation =
  fixes op :: "('w, pg_error + 'a) run" and sql schema table :: string
  assumes at_most_once: "run_state op s = (r, s') \<Longrightarrow>
      \<exists>es. trace s' = trace s @ es \<and> length (statements es) \<le> 1
        \<and> (\<forall>x. r = Inr x \<longrightarrow> (\<exists>t. statements es = [ESql sql (Inr ()) t]) \<and> error_answers es = [])
        \<and> (\<forall>err. r = Inl err \<longrightarrow> error_answers es = [err] \<and> error_answer (last es) = [err])"
    and evolves_op: "emits (command_event sql schema table) op"
begin

lemma emits_retry:
  assumes "\<And>r t. Q (ESql sql r t)" "\<And>r. Q (ECount schema table r)" "\<And>d. Q (ESleep d)"
    "\<And>n d. Q (ELog Warning (Retrying sch tab n (lock_timeout_retries policy) d))"
  shows "emits Q (retry_loop env policy sch tab op n d)"
proof -
  have "emits Q op" by (rule emits_mono [OF evolves_op], erule command_event_cases) (simp_all add: assms)
  then show ?thesis
  proof (induction "lock_timeout_retries policy - n" arbitrary: n d)
    case 0
    then show ?case by (subst retry_loop.simps) (intro emits_intros; use assms in auto)
  next
    case (Suc k)
    then have "emits Q (retry_loop env policy sch tab op (n + 1) (u64_saturating_mul d 2))" by simp
    with Suc.prems show ?case by (subst retry_loop.simps) (intro emits_intros; use assms in auto)
  qed
qed

definition op_events :: "event list \<Rightarrow> bool" where
  "op_events es = (list_all (command_event sql schema table) es \<and> length (statements es) \<le> 1)"

lemma op_events_idle: "op_events es \<Longrightarrow> total_slept es = 0"
proof -
  have "list_all (command_event sql schema table) es \<Longrightarrow> total_slept es = 0"
    by (induction es) (auto dest: command_event_idle)
  then show "op_events es \<Longrightarrow> ?thesis" by (simp add: op_events_def)
qed

lemma op_outcome:
  assumes "run_state op s = (r, s')"
  obtains es where "trace s' = trace s @ es" "op_events es"
    "\<forall>x. r = Inr x \<longrightarrow> (\<exists>t. statements es = [ESql sql (Inr ()) t]) \<and> error_answers es = []"
    "\<forall>err. r = Inl err \<longrightarrow> error_answers es = [err] \<and> error_answer (last es) = [err]"
    "signal_at s' = signal_at s" "\<forall>e\<in>set es. sent_between (clock s) (clock s') e"
proof -
  from at_most_once [OF assms] obtain es where es: "trace s' = trace s @ es" "length (statements es) \<le> 1"
    "\<forall>x. r = Inr x \<longrightarrow> (\<exists>t. statements es = [ESql sql (Inr ()) t]) \<and> error_answers es = []"
    "\<forall>err. r = Inl err \<longrightarrow> error_answers es = [err] \<and> error_answer (last es) = [err]" by blast
  from emitsD [OF evolves_op assms] es(1)
  have "signal_at s' = signal_at s" "\<forall>e\<in>set es. command_event sql schema table e"
    "\<forall>e\<in>set es. sent_between (clock s) (clock s') e" by (auto simp: evolves_def)
  with that es show thesis by (auto simp: op_events_def list_all_iff)
qed

lemma power_step: "d + d * 2 * (2 ^ k - 1) = d * (2 ^ Suc k - (1 :: nat))"
  by (simp add: diff_mult_distrib2)

lemma ms_once: "m \<le> ms d \<Longrightarrow> m \<le> ms (d * (2 ^ Suc k - 1))"
  unfolding ms_def power_step [symmetric] by (erule order_trans) simp

lemma ms_doubled:
  assumes "m \<le> ms d" "t \<le> ms (u64_saturating_mul d 2 * (2 ^ k - 1))"
  shows "m + t \<le> ms (d * (2 ^ Suc k - 1))"
proof -
  have "ms (u64_saturating_mul d 2 * (2 ^ k - 1)) \<le> ms (d * 2 * (2 ^ k - 1))"
    unfolding ms_def u64_saturating_mul_def by (intro mult_le_mono le_refl) linarith
  moreover have "ms d + ms (d * 2 * (2 ^ k - 1)) = ms (d * (2 ^ Suc k - 1))"
    unfolding ms_def by (metis power_step add_mult_distrib)
  ultimately show ?thesis using assms by linarith
qed

text \<open>One round of the retry: the command is sent and its result is final, or it is sent, refused with a
  lock timeout, waited for and then given up, or another round follows.\<close>

lemma retry_round:
  assumes "run_state (retry_loop env policy sch tab op n d) s = (r, s')"
  obtains es where "op_events es" "trace s' = trace s @ es" "signal_at s' = signal_at s"
      "\<forall>x. r = Inr x \<longrightarrow> (\<exists>t. statements es = [ESql sql (Inr ()) t]) \<and> error_answers es = []"
      "\<forall>err. r = Inl err \<longrightarrow> error_answers es = [err] \<and> error_answer (last es) = [err]"
  | err es m s2 where "op_events es" "n < lock_timeout_retries policy"
      "trace s2 = trace s @ es @ [ELog Warning (Retrying sch tab (n + 1) (lock_timeout_retries policy) d), ESleep m]"
      "m \<le> ms d" "filter (late (signal_at s)) es = []" "signal_at s2 = signal_at s"
      "error_answers es = [err]" "is_lock_timeout err"
      "r = Inl err \<and> s' = s2
        \<or> run_state (retry_loop env policy sch tab op (n + 1) (u64_saturating_mul d 2)) s2 = (r, s')"
proof -
  obtain r1 s1 where op: "run_state op s = (r1, s1)" by fastforce
  obtain es where es: "trace s1 = trace s @ es" "op_events es"
    "\<forall>x. r1 = Inr x \<longrightarrow> (\<exists>t. statements es = [ESql sql (Inr ()) t]) \<and> error_answers es = []"
    "\<forall>err. r1 = Inl err \<longrightarrow> error_answers es = [err] \<and> error_answer (last es) = [err]"
    and ev: "signal_at s1 = signal_at s" "\<forall>e\<in>set es. sent_between (clock s) (clock s1) e" by (rule op_outcome [OF op])
  let ?m = "ELog Warning (Retrying sch tab (n + 1) (lock_timeout_retries policy) d)"
  obtain stop s2 where sl: "run_state (sleep_or_shutdown env (ms d)) (s1\<lparr>trace := trace s1 @ [?m]\<rparr>) = (stop, s2)"
    by fastforce
  from run_sleep [OF sl] es(1) obtain m where m: "trace s2 = trace s @ es @ [?m, ESleep m]"
    "signal_at s2 = signal_at s1" "m \<le> ms d" by auto
  show ?thesis
  proof (cases "r1 = r \<and> s' = s1")
    case True
    with es ev show ?thesis by (intro that(1)) auto
  next
    case False
    with assms op obtain err where r1: "r1 = Inl err"
      and go: "\<not> signalled (signal_at s1) (clock s1)" "n < lock_timeout_retries policy" "is_lock_timeout err"
      by (auto simp: run_retry_loop split: sum.splits if_splits)
    with ev have "filter (late (signal_at s)) es = []"
      by (auto simp: filter_empty_conv dest: not_late_before)
    moreover from assms op r1 sl False go have "r = Inl err \<and> s' = s2
        \<or> run_state (retry_loop env policy sch tab op (n + 1) (u64_saturating_mul d 2)) s2 = (r, s')"
      by (auto simp: run_retry_loop split: if_splits)
    ultimately show ?thesis using es r1 go(2,3) m ev(1) by (intro that(2)) auto
  qed
qed

text \<open>
  How the answers of the attempts decide the result: with \<open>Inr\<close> the last statement succeeded and every error
  before was a lock timeout; with \<open>Inl\<close> the result is the last error, and those before were lock timeouts;
  an error that is no lock timeout is the answer to the last thing that was sent.
\<close>

definition answers_decide :: "pg_error + 'a \<Rightarrow> event list \<Rightarrow> bool" where
  "answers_decide r es =
     (case r of
        Inr _ \<Rightarrow> list_all is_lock_timeout (error_answers es) \<and> length (statements es) \<le> Suc (length (error_answers es))
          \<and> statements es \<noteq> [] \<and> (\<exists>t. last (statements es) = ESql sql (Inr ()) t)
      | Inl err \<Rightarrow> (\<exists>earlier. error_answers es = earlier @ [err] \<and> list_all is_lock_timeout earlier)
          \<and> (\<not> is_lock_timeout err \<longrightarrow> error_answer (last es) = [err]) \<and> length (statements es) \<le> length (error_answers es))"

lemma answers_decide_final:
  assumes "op_events es" "\<forall>x. r = Inr x \<longrightarrow> (\<exists>t. statements es = [ESql sql (Inr ()) t]) \<and> error_answers es = []"
    "\<forall>err. r = Inl err \<longrightarrow> error_answers es = [err] \<and> error_answer (last es) = [err]"
  shows "answers_decide r es"
  using assms by (cases r) (auto simp: answers_decide_def op_events_def)

lemma answers_decide_more:
  assumes "op_events es" "error_answers es = [err]" "is_lock_timeout err" "answers_decide r fs"
    "statements mid = []" "error_answers mid = []"
  shows "answers_decide r (es @ mid @ fs)"
proof -
  have "fs \<noteq> []" using assms(4) by (cases fs; cases r) (auto simp: answers_decide_def)
  then have "last (es @ mid @ fs) = last fs" by simp
  with assms show ?thesis by (cases r) (auto simp: answers_decide_def op_events_def)
qed

lemma retry_trace:
  assumes "run_state (retry_loop env policy sch tab op n d) s = (r, s')"
  shows "\<exists>es. trace s' = trace s @ es
       \<and> length (statements es) \<le> lock_timeout_retries policy - n + 1
       \<and> length (error_answers es) \<le> lock_timeout_retries policy - n + 1
       \<and> total_slept es \<le> ms (d * (2 ^ (lock_timeout_retries policy - n) - 1))
       \<and> answers_decide r es"
  using assms
proof (induction "lock_timeout_retries policy - n" arbitrary: n d s rule: less_induct)
  case less
  from less.prems show ?case
  proof (cases rule: retry_round)
    case (1 es)
    then have "length (error_answers es) \<le> 1" by (cases r) simp_all
    with 1 op_events_idle [OF 1(1)] answers_decide_final [OF 1(1,4,5)] show ?thesis
      by (intro exI [of _ es]) (auto simp: op_events_def)
  next
    case (2 err es m s2)
    let ?ev = "ELog Warning (Retrying sch tab (n + 1) (lock_timeout_retries policy) d)"
    from 2(2) obtain k where k: "lock_timeout_retries policy - n = Suc k"
      "lock_timeout_retries policy - (n + 1) = k" by (metis Suc_diff_Suc Suc_eq_plus1)
    have idle: "total_slept es = 0" "length (statements es) \<le> 1"
      using op_events_idle [OF 2(1)] 2(1) by (simp_all add: op_events_def)
    from 2(9) show ?thesis
    proof (elim disjE conjE)
      assume "r = Inl err" "s' = s2"
      with 2 idle ms_once [OF 2(4)] show ?thesis unfolding k
        by (intro exI [of _ "es @ [?ev, ESleep m]"]) (simp add: answers_decide_def)
    next
      assume "run_state (retry_loop env policy sch tab op (n + 1) (u64_saturating_mul d 2)) s2 = (r, s')"
      with less.hyps obtain fs where fs: "trace s' = trace s2 @ fs"
        "length (statements fs) \<le> k + 1" "length (error_answers fs) \<le> k + 1"
        "total_slept fs \<le> ms (u64_saturating_mul d 2 * (2 ^ k - 1))" "answers_decide r fs"
        unfolding k by (metis k(2) lessI)
      have "answers_decide r (es @ [?ev, ESleep m] @ fs)"
        by (rule answers_decide_more [OF 2(1,7,8) fs(5)]) simp_all
      with ms_doubled [OF 2(4) fs(4)] fs(1-3) 2(3,7) idle show ?thesis unfolding k
        by (intro exI [of _ "es @ [?ev, ESleep m] @ fs"]) simp
    qed
  qed
qed

text \<open>Once the signal has arrived the command is sent at most once more.\<close>

lemma op_events_late: "op_events es \<Longrightarrow> length (filter (late sig) es) \<le> 1"
proof -
  have "length (filter (late sig) es) \<le> length (statements es)"
    unfolding statements_def by (induction es) (auto dest: late_statement)
  then show "op_events es \<Longrightarrow> ?thesis" by (simp add: op_events_def)
qed

lemma retry_late:
  assumes "run_state (retry_loop env policy sch tab op n d) s = (r, s')"
  shows "\<exists>es. trace s' = trace s @ es \<and> length (filter (late (signal_at s)) es) \<le> 1"
  using assms
proof (induction "lock_timeout_retries policy - n" arbitrary: n d s rule: less_induct)
  case less
  from less.prems show ?case
  proof (cases rule: retry_round)
    case (1 es)
    with op_events_late show ?thesis by (intro exI [of _ es]) simp
  next
    case (2 err es m s2)
    let ?ev = "ELog Warning (Retrying sch tab (n + 1) (lock_timeout_retries policy) d)"
    from 2(9) show ?thesis
    proof (elim disjE conjE)
      assume "s' = s2"
      with 2 show ?thesis by (intro exI [of _ "es @ [?ev, ESleep m]"]) simp
    next
      assume "run_state (retry_loop env policy sch tab op (n + 1) (u64_saturating_mul d 2)) s2 = (r, s')"
      moreover have "lock_timeout_retries policy - (n + 1) < lock_timeout_retries policy - n" using 2(2) by simp
      ultimately obtain fs where "trace s' = trace s2 @ fs" "length (filter (late (signal_at s2)) fs) \<le> 1"
        using less.hyps by blast
      with 2 show ?thesis by (intro exI [of _ "es @ [?ev, ESleep m] @ fs"]) simp
    qed
  qed
qed

end

section \<open>The commands meet the contract\<close>

text \<open>The four closures that the runners hand to the retry, and the statement of each.\<close>

datatype command = Vacuum | Analyze | Freeze | VacuumAnalyze

fun run_command ::
  "'w env \<Rightarrow> vacuum_options \<Rightarrow> command \<Rightarrow> string \<Rightarrow> string \<Rightarrow> ('w, pg_error + operation_result) run" where
  "run_command env v Vacuum schema table = vacuum_table env schema table v"
| "run_command env v Analyze schema table = analyze_table env schema table"
| "run_command env v Freeze schema table = freeze_table env schema table v"
| "run_command env v VacuumAnalyze schema table = vacuum_analyze_table env schema table v"

fun command_sql :: "vacuum_options \<Rightarrow> command \<Rightarrow> string \<Rightarrow> string \<Rightarrow> string" where
  "command_sql v Vacuum schema table = vacuum_sql schema table v"
| "command_sql v Analyze schema table = analyze_sql schema table"
| "command_sql v Freeze schema table = freeze_sql schema table v"
| "command_sql v VacuumAnalyze schema table = vacuum_analyze_sql schema table v"

lemma command_sql_target [simp]: "statement_target (command_sql v c s t) = Some (s, t)"
  by (cases c) simp_all

lemmas command_defs =
  vacuum_table_def analyze_table_def freeze_table_def vacuum_analyze_table_def
  execute_def dead_tuple_count_def

interpretation command: table_operation "run_command env v c s t" "command_sql v c s t" s t for env v c s t
proof
  fix st r st'
  assume "run_state (run_command env v c s t) st = (r, st')"
  then show "\<exists>es. trace st' = trace st @ es \<and> length (statements es) \<le> 1
      \<and> (\<forall>x. r = Inr x \<longrightarrow> (\<exists>t'. statements es = [ESql (command_sql v c s t) (Inr ()) t']) \<and> error_answers es = [])
      \<and> (\<forall>err. r = Inl err \<longrightarrow> error_answers es = [err] \<and> error_answer (last es) = [err])"
    by (cases c) (auto simp: command_defs call_env_def split: prod.splits sum.splits)
next
  show "emits (command_event (command_sql v c s t) s t) (run_command env v c s t)"
    by (cases c)
      (auto simp: vacuum_table_def analyze_table_def freeze_table_def vacuum_analyze_table_def
        dead_tuple_count_def intro!: emits_intros)
qed

text \<open>
  C26: The retry is bounded and honest on every server. A maintenance command is sent at most
  \<open>lock_timeout_retries + 1\<close> times, its own statement and no other, and the waits between the attempts add up
  to at most \<open>delay * (2 ^ retries - 1)\<close> milliseconds. It is tried again only after a lock timeout: of the errors
  that the statements and the dead-tuple counts were answered with, all are lock timeouts if the command
  succeeded in the end, and all but the last if it failed; there is one such error for each attempt that
  was repeated. What is returned is the last answer: success only if the last statement succeeded, and
  otherwise the last error.
\<close>

theorem retry_bounded:
  assumes "run_state (with_lock_timeout_retry env policy s t (run_command env v c s t)) st = (r, st')"
  shows "\<exists>es. trace st' = trace st @ es
       \<and> length (statements es) \<le> lock_timeout_retries policy + 1
       \<and> length (error_answers es) \<le> lock_timeout_retries policy + 1
       \<and> total_slept es \<le> ms (lock_timeout_retry_delay_ms policy * (2 ^ lock_timeout_retries policy - 1))
       \<and> (\<forall>e\<in>set (statements es). \<exists>x n. e = ESql (command_sql v c s t) x n)
       \<and> (\<forall>x. r = Inr x \<longrightarrow> list_all is_lock_timeout (error_answers es)
            \<and> length (statements es) \<le> length (error_answers es) + 1
            \<and> statements es \<noteq> [] \<and> (\<exists>n. last (statements es) = ESql (command_sql v c s t) (Inr ()) n))
       \<and> (\<forall>err. r = Inl err \<longrightarrow> length (statements es) \<le> length (error_answers es)
            \<and> (\<exists>earlier. error_answers es = earlier @ [err] \<and> list_all is_lock_timeout earlier))"
proof -
  let ?sql = "command_sql v c s t"
  have "emits (\<lambda>e. is_statement e \<longrightarrow> (\<exists>x n. e = ESql ?sql x n))
      (with_lock_timeout_retry env policy s t (run_command env v c s t))"
    unfolding with_lock_timeout_retry_def by (rule command.emits_retry) auto
  from emitsD [OF this assms] obtain es where es: "trace st' = trace st @ es"
    and own: "\<forall>e\<in>set es. is_statement e \<longrightarrow> (\<exists>x n. e = ESql ?sql x n)"
    unfolding evolves_def by blast
  from command.retry_trace [OF assms [unfolded with_lock_timeout_retry_def]] es
  have "length (statements es) \<le> lock_timeout_retries policy + 1"
    "length (error_answers es) \<le> lock_timeout_retries policy + 1"
    "total_slept es \<le> ms (lock_timeout_retry_delay_ms policy * (2 ^ lock_timeout_retries policy - 1))"
    "command.answers_decide v c s t r es" by auto
  moreover have "\<forall>e\<in>set (statements es). \<exists>x n. e = ESql ?sql x n" using own by (simp add: statements_def)
  ultimately show ?thesis using es
    by (intro exI [of _ es]) (cases r; simp add: command.answers_decide_def)
qed

definition retry_policy :: "nat \<Rightarrow> run_policy" where
  "retry_policy n = \<lparr>dry_run = False, force = False, skip_active_vacuum = False,
     check_xmin_horizon = False, lock_timeout_ms = 10, lock_timeout_retries = n,
     lock_timeout_retry_delay_ms = 50\<rparr>"

theorem retry_bounded_witness:
  "total_slept (trace (snd (run_state
     (with_lock_timeout_retry scripted_env (retry_policy 2) ''public'' ''t''
       (run_command scripted_env undefined Analyze ''public'' ''t''))
     (initial_state [Inl (server_error LOCK_NOT_AVAILABLE), Inl (server_error LOCK_NOT_AVAILABLE)]))))
   \<le> ms 150"
  using retry_bounded [OF surjective_pairing, of scripted_env "retry_policy 2" "''public''" "''t''"
      undefined Analyze "initial_state [Inl (server_error LOCK_NOT_AVAILABLE), Inl (server_error LOCK_NOT_AVAILABLE)]"]
  by (auto simp: initial_state_def retry_policy_def)

text \<open>On a server that never gives the lock, the waits are exactly the doubled delays.\<close>

definition waits :: "event list \<Rightarrow> nat list" where
  "waits es = map slept_ns (filter (\<lambda>e. \<exists>n. e = ESleep n) es)"

lemma waits_simps [simp]:
  "waits [] = []" "waits (es @ fs) = waits es @ waits fs"
  "waits (ESleep n # es) = n # waits es" "waits (ESql q r t # es) = waits es"
  "waits (ELog l m # es) = waits es"
  by (simp_all add: waits_def)

lemma waits_double:
  assumes busy: "\<And>s. \<exists>s'. run_state op s = (Inl err, s') \<and> signal_at s' = signal_at s
        \<and> trace s' = trace s @ [ESql sql (Inl err) (clock s)]"
    and err: "is_lock_timeout err"
  shows "signal_at st = None \<Longrightarrow> d * 2 ^ (lock_timeout_retries policy - n) \<le> u64_max \<Longrightarrow>
      n \<le> lock_timeout_retries policy \<Longrightarrow>
      \<exists>st' es. run_state (retry_loop env policy s t op n d) st = (Inl err, st')
        \<and> trace st' = trace st @ es
        \<and> length (statements es) = lock_timeout_retries policy - n + 1
        \<and> waits es = map (\<lambda>i. ms (d * 2 ^ i)) [0..<lock_timeout_retries policy - n]"
proof (induction "lock_timeout_retries policy - n" arbitrary: n d st)
  case 0
  from busy [of st] obtain s1 where "run_state op st = (Inl err, s1)"
    "trace s1 = trace st @ [ESql sql (Inl err) (clock st)]" by auto
  with 0 show ?case by (intro exI [of _ s1] exI [of _ "[ESql sql (Inl err) (clock st)]"]) (auto simp: run_retry_loop)
next
  case (Suc k)
  from busy [of st] Suc.prems obtain s1 where s1: "run_state op st = (Inl err, s1)"
    "trace s1 = trace st @ [ESql sql (Inl err) (clock st)]" "signal_at s1 = None" by auto
  let ?ev = "ELog Warning (Retrying s t (n + 1) (lock_timeout_retries policy) d)"
  obtain s2 where s2: "run_state (sleep_or_shutdown env (ms d)) (s1\<lparr>trace := trace s1 @ [?ev]\<rparr>) = (False, s2)"
    "trace s2 = trace st @ [ESql sql (Inl err) (clock st), ?ev, ESleep (ms d)]" "signal_at s2 = None"
    using s1 by (auto simp: sleep_or_shutdown_def Let_def)
  have k: "lock_timeout_retries policy - n = Suc k" "lock_timeout_retries policy - (n + 1) = k"
    using Suc.hyps(2) by auto
  have d2: "d * 2 * 2 ^ k \<le> u64_max" using Suc.prems(2) k by (simp add: mult.assoc)
  then have "d * 2 \<le> u64_max"
    by (metis le_trans mult_le_mono2 nat_mult_1_right one_le_numeral one_le_power)
  then have sat: "u64_saturating_mul d 2 = d * 2" by (simp add: u64_saturating_mul_def)
  have "n + 1 \<le> lock_timeout_retries policy" using k by simp
  from Suc.hyps(1) [of "n + 1" s2 "d * 2", unfolded k(2), OF refl s2(3) d2 this]
  obtain st' es where
    rec: "run_state (retry_loop env policy s t op (n + 1) (d * 2)) s2 = (Inl err, st')"
      "trace st' = trace s2 @ es" "length (statements es) = k + 1"
      "waits es = map (\<lambda>i. ms (d * 2 * 2 ^ i)) [0..<k]" by blast
  have "run_state (retry_loop env policy s t op n d) st = (Inl err, st')"
    using s1 s2 rec(1) err k by (simp add: run_retry_loop [of env policy s t op n] sat signalled_def)
  moreover have "map (\<lambda>i. ms (d * 2 ^ i)) [0..<Suc k] = ms d # map (\<lambda>i. ms (d * 2 * 2 ^ i)) [0..<k]"
    by (simp add: upt_conv_Cons map_Suc_upt [symmetric] comp_def mult.assoc del: upt_Suc map_Suc_upt)
  ultimately show ?case
    using rec s2 k
    by (intro exI [of _ st'] exI [of _ "[ESql sql (Inl err) (clock st), ?ev, ESleep (ms d)] @ es"]) simp
qed

text \<open>
  On a server that never gives the lock (and without a shutdown) an ANALYZE or a freeze is tried
  exactly \<open>retries + 1\<close> times and the waits are exactly \<open>delay\<close>, \<open>2 * delay\<close>, \<open>4 * delay\<close>, and so on,
  before the lock timeout is returned. So the delay is not bounded by
  \<open>MAX_LOCK_TIMEOUT_RETRY_DELAY_MS\<close> per attempt: with the largest settings that are accepted, the
  last wait alone is more than 363 days.
\<close>

theorem retry_delays_exact:
  assumes "\<And>w. fst (q_execute env (command_sql v c s t) w) = Inl err" "is_lock_timeout err"
    "c = Analyze \<or> c = Freeze" "signal_at st = None"
    "lock_timeout_retry_delay_ms policy * 2 ^ lock_timeout_retries policy \<le> u64_max"
  shows "\<exists>st' es.
       run_state (with_lock_timeout_retry env policy s t (run_command env v c s t)) st = (Inl err, st')
     \<and> trace st' = trace st @ es
     \<and> length (statements es) = lock_timeout_retries policy + 1
     \<and> waits es = map (\<lambda>i. ms (lock_timeout_retry_delay_ms policy * 2 ^ i)) [0..<lock_timeout_retries policy]"
proof -
  have "\<exists>s'. run_state (run_command env v c s t) s0 = (Inl err, s') \<and> signal_at s' = signal_at s0
      \<and> trace s' = trace s0 @ [ESql (command_sql v c s t) (Inl err) (clock s0)]" for s0
    using assms(1) [of "world s0"] assms(3)
    by (cases "q_execute env (command_sql v c s t) (world s0)")
      (auto simp: command_defs call_env_def split: prod.splits)
  from waits_double [OF this assms(2), of st _ policy 0] assms(4,5) show ?thesis
    unfolding with_lock_timeout_retry_def by fastforce
qed

definition locked_env :: "(pg_error + unit) list env" where
  "locked_env = scripted_env
     \<lparr>q_execute := (\<lambda>sql w. (Inl (server_error LOCK_NOT_AVAILABLE), 1000000, w))\<rparr>"

theorem retry_delays_exact_witness:
  "\<exists>es. waits es = map (\<lambda>i. ms (60000 * 2 ^ i)) [0..<20] \<and> (363 :: nat) * 24 * 60 * 60 * 1000 < 60000 * 2 ^ 19
     \<and> trace (snd (run_state (with_lock_timeout_retry locked_env
          ((retry_policy MAX_LOCK_TIMEOUT_RETRIES)
             \<lparr>lock_timeout_retry_delay_ms := MAX_LOCK_TIMEOUT_RETRY_DELAY_MS\<rparr>)
          ''public'' ''t'' (run_command locked_env undefined Freeze ''public'' ''t'')) (initial_state []))) = es"
proof -
  have "is_lock_timeout (server_error LOCK_NOT_AVAILABLE)"
    by (simp add: is_lock_timeout_def sqlstate_def server_error_def)
  from retry_delays_exact [of locked_env undefined Freeze "''public''" "''t''" _ "initial_state []"
      "(retry_policy MAX_LOCK_TIMEOUT_RETRIES)\<lparr>lock_timeout_retry_delay_ms := MAX_LOCK_TIMEOUT_RETRY_DELAY_MS\<rparr>",
      OF _ this]
  show ?thesis
    by (auto simp: locked_env_def initial_state_def config_defs retry_policy_def u64_max_def)
qed

end
