(* ===== verification/Lag_Gate.thy ===== *)
theory Lag_Gate
  imports Table_Ops
begin

text \<open>
  The replication-lag gate at work (\<open>observe_replica_lag\<close>, \<open>wait_for_replica_lag\<close> and
  \<open>log_initial_replica_lag\<close> of \<open>src/operations.rs\<close>): how lag is observed, how long a table is held
  back, and with which verdict.
\<close>

section \<open>The operations\<close>

definition secs :: "nat \<Rightarrow> nat" where
  "secs n = n * 1000000000"

definition lag_of_rows :: "standby_lag list \<Rightarrow> lag_observation" where
  "lag_of_rows rows = (if rows = [] then NoReplicas else Observed rows)"

definition observe_replica_lag :: "'w env \<Rightarrow> ('w, error + lag_observation) run" where
  "observe_replica_lag env =
     try_run (map_error (context_pg ''Failed to check replication-stats privileges'')
       (call_env (q_can_read_replication_stats env)
         (\<lambda>r. if r = Inr False then [ELag Unobservable] else []))) (\<lambda>can_read.
     if \<not> can_read then ret (Inr Unobservable)
     else try_run (map_error (context_pg ''Failed to read pg_stat_replication'')
       (call_env (ask_replication_lag env)
         (\<lambda>r. case r of Inr rows \<Rightarrow> [ELag (lag_of_rows rows)] | Inl _ \<Rightarrow> []))) (\<lambda>rows.
       ret (Inr (lag_of_rows rows))))"

definition lag_or_zero :: "lag_observation \<Rightarrow> f64" where
  "lag_or_zero obs = (case max_lag_seconds obs of Some l \<Rightarrow> l | None \<Rightarrow> Fin 0)"

text \<open>What a round of the waiting loop does with a fresh observation.\<close>

definition lag_decision ::
  "lag_gate \<Rightarrow> string \<Rightarrow> string \<Rightarrow> nat \<Rightarrow> lag_observation \<Rightarrow> ('w, error + lag_gate_verdict option) run" where
  "lag_decision g schema table started current = do {
     let current_lag = lag_or_zero current;
     t \<leftarrow> now;
     let waited = t - started;
     if \<not> exceeds current (threshold_seconds g) then do {
       update_gate (add_waited waited);
       log Info (LagRecovered schema table current_lag waited);
       ret (Inr (Some Proceed))
     } else if secs (max_wait_seconds g) \<le> waited then do {
       update_gate (add_waited waited);
       update_gate record_skip;
       log Warning (LagStillOver schema table current_lag waited (worst_standby current));
       ret (Inr (Some SkipTable))
     } else ret (Inr None)
   }"

text \<open>
  One round of the waiting loop: \<open>Some\<close> verdict leaves the loop, \<open>None\<close> goes round again.
\<close>

definition wait_round ::
  "'w env \<Rightarrow> lag_gate \<Rightarrow> string \<Rightarrow> string \<Rightarrow> nat \<Rightarrow> ('w, error + lag_gate_verdict option) run" where
  "wait_round env g schema table started = do {
     let deadline = secs (max_wait_seconds g);
     let poll = secs (max (poll_interval_seconds g) 1);
     t \<leftarrow> now;
     let remaining = deadline - (t - started);
     if remaining = 0 then do {
       let waited = t - started;
       update_gate (add_waited waited);
       update_gate record_skip;
       log Warning (LagTimeout schema table waited);
       ret (Inr (Some SkipTable))
     } else do {
       stop \<leftarrow> sleep_or_shutdown env (min poll remaining);
       if stop then do {
         t \<leftarrow> now;
         update_gate (add_waited (t - started));
         log Warning (Text ''Shutdown signal received while waiting for replication lag.'');
         ret (Inr (Some ShutdownRequested))
       } else try_run (observe_replica_lag env) (lag_decision g schema table started)
     }
   }"

lemma run_call_env [simp]:
  "run_state (call_env f ev) s =
     (fst (f (world s)),
      s\<lparr>world := snd (snd (f (world s))), clock := clock s + fst (snd (f (world s))),
        trace := trace s @ ev (fst (f (world s)))\<rparr>)"
  by (simp add: call_env_def split: prod.splits)

lemma emits_observe [emits_intros]:
  "(\<And>obs. Q (ELag obs)) \<Longrightarrow> emits Q (observe_replica_lag env)"
  unfolding observe_replica_lag_def by (intro emits_intros) (auto split: sum.splits if_splits)

lemma emits_wait_round:
  assumes "\<And>obs. Q (ELag obs)" "\<And>d. Q (ESleep d)" "\<And>l m. Q (ELog l m)"
  shows "emits Q (wait_round env g schema table started)"
  unfolding wait_round_def lag_decision_def Let_def using assms by (auto intro!: emits_intros)

lemma wait_round_again:
  assumes "run_state (wait_round env g schema table started) s = (Inr None, s')"
  shows "clock s < clock s' \<and> clock s' < started + secs (max_wait_seconds g)"
proof -
  let ?rem = "secs (max_wait_seconds g) - (clock s - started)"
  let ?d = "min (secs (max (poll_interval_seconds g) 1)) ?rem"
  from assms have rem: "?rem \<noteq> 0" by (auto simp: wait_round_def Let_def)
  obtain stop s1 where sl: "run_state (sleep_or_shutdown env ?d) s = (stop, s1)" by fastforce
  from assms rem sl have "\<not> stop" by (auto simp: wait_round_def Let_def)
  obtain r s2 where ob: "run_state (observe_replica_lag env) s1 = (r, s2)" by fastforce
  have "evolves (\<lambda>_. True) s1 s2" by (rule emitsD [OF emits_observe ob]) simp
  moreover from assms rem sl ob \<open>\<not> stop\<close> have "s' = s2" "clock s2 - started < secs (max_wait_seconds g)"
    by (auto simp: wait_round_def lag_decision_def Let_def split: sum.splits if_splits)
  moreover have "clock s1 = clock s + ?d"
    using sl \<open>\<not> stop\<close> by (auto simp: sleep_or_shutdown_def Let_def split: option.splits if_splits)
  moreover have "0 < ?d" using rem by (simp add: secs_def)
  moreover from \<open>evolves (\<lambda>_. True) s1 s2\<close> have "clock s1 \<le> clock s2" by (simp add: evolves_def)
  ultimately have "clock s < clock s2" "clock s2 < started + secs (max_wait_seconds g)"
    by linarith+
  with \<open>s' = s2\<close> show ?thesis by simp
qed

function wait_loop ::
  "'w env \<Rightarrow> lag_gate \<Rightarrow> string \<Rightarrow> string \<Rightarrow> nat \<Rightarrow> 'w st \<Rightarrow> (error + lag_gate_verdict) \<times> 'w st" where
  "wait_loop env g schema table started s =
     (case run_state (wait_round env g schema table started) s of
        (Inl e, s') \<Rightarrow> (Inl e, s')
      | (Inr (Some verdict), s') \<Rightarrow> (Inr verdict, s')
      | (Inr None, s') \<Rightarrow> wait_loop env g schema table started s')"
  by pat_completeness auto
termination
  by (relation "measure (\<lambda>(_, g, _, _, started, s). started + secs (max_wait_seconds g) - clock s)")
    (auto dest: wait_round_again [OF sym])

declare wait_loop.simps [simp del]

definition wait_for_replica_lag ::
  "'w env \<Rightarrow> lag_gate \<Rightarrow> string \<Rightarrow> string \<Rightarrow> run_policy \<Rightarrow> ('w, error + lag_gate_verdict) run" where
  "wait_for_replica_lag env g schema table policy =
     (if gate_disabled g then ret (Inr Proceed)
      else try_run (observe_replica_lag env) (\<lambda>observation.
        if observation = Unobservable then do {
          update_gate disable;
          log Warning (Text (''Cannot observe replication lag '' @ em_dash @
            '' the connected role lacks pg_read_all_stats (granted by pg_monitor). '' @
            ''Lag gating is disabled for this run; grant the role pg_monitor to enable it.''));
          ret (Inr Proceed)
        } else if observation = NoReplicas then do {
          update_gate disable;
          log Info (Text (''No replicas are streaming from this server '' @ em_dash @
            '' replication-lag gating is disabled for this run.''));
          ret (Inr Proceed)
        } else if \<not> exceeds observation (threshold_seconds g) then ret (Inr Proceed)
        else do {
          let observed = lag_or_zero observation;
          if dry_run policy then do {
            log Info (DryRunWouldWait schema table observed (threshold_seconds g));
            ret (Inr Proceed)
          } else if max_wait_seconds g = 0 then do {
            update_gate record_skip;
            log Warning (SkipNoWaitBudget schema table observed (threshold_seconds g));
            ret (Inr SkipTable)
          } else do {
            log Info (WaitingForLag schema table observed (threshold_seconds g) (max_wait_seconds g));
            started \<leftarrow> now;
            State (wait_loop env g schema table started)
          }
        }))"

definition log_initial_replica_lag :: "'w env \<Rightarrow> lag_gate \<Rightarrow> ('w, error + unit) run" where
  "log_initial_replica_lag env g =
     try_run (observe_replica_lag env) (\<lambda>observation.
       case observation of
         Unobservable \<Rightarrow> do {
           update_gate disable;
           log Warning (Text (''Cannot observe replication lag '' @ em_dash @
             '' the connected role lacks pg_read_all_stats (granted by pg_monitor). '' @
             ''Lag gating is disabled for this run.''));
           ret (Inr ())
         }
       | NoReplicas \<Rightarrow> do {
           update_gate disable;
           log Info (Text (''Replication-lag gating requested, but no replicas are streaming from this '' @
             ''server '' @ em_dash @ '' gating is disabled for this run.''));
           ret (Inr ())
         }
       | Observed standbys \<Rightarrow> do {
           log Info (LagGateActive (threshold_seconds g) (max_wait_seconds g)
             (standby_count observation) standbys);
           ret (Inr ())
         })"

section \<open>What is observed\<close>

fun lag_of :: "event \<Rightarrow> lag_observation option" where
  "lag_of (ELag obs) = Some obs"
| "lag_of _ = None"

fun last_lag :: "event list \<Rightarrow> lag_observation option" where
  "last_lag [] = None"
| "last_lag (e # es) = (case last_lag es of None \<Rightarrow> lag_of e | Some obs \<Rightarrow> Some obs)"

lemma last_lag_append [simp]:
  "last_lag (es @ fs) = (case last_lag fs of None \<Rightarrow> last_lag es | Some obs \<Rightarrow> Some obs)"
  by (induction es) (auto split: option.splits)

text \<open>Whether everything that was seen of the lag was over the threshold.\<close>

definition lags_over :: "lag_gate \<Rightarrow> event list \<Rightarrow> bool" where
  "lags_over g es = (\<forall>obs. ELag obs \<in> set es \<longrightarrow> exceeds obs (threshold_seconds g))"

lemma lags_over_simps [simp]:
  "lags_over g []" "lags_over g (es @ fs) = (lags_over g es \<and> lags_over g fs)"
  "lags_over g (ELag obs # es) = (exceeds obs (threshold_seconds g) \<and> lags_over g es)"
  "lags_over g (ESleep n # es) = lags_over g es" "lags_over g (ELog l m # es) = lags_over g es"
  by (auto simp: lags_over_def)

lemma no_lag: "last_lag es = None \<Longrightarrow> lags_over g es"
proof -
  have "lag_of e = None" if "last_lag es = None" "e \<in> set es" for e
    using that by (induction es) (auto split: option.splits)
  then show "last_lag es = None \<Longrightarrow> lags_over g es" unfolding lags_over_def by fastforce
qed

text \<open>How many tables the gate has held back so far.\<close>

definition skips :: "'w st \<Rightarrow> nat" where
  "skips s = (case lag_gate_state s of Some g \<Rightarrow> tables_skipped g | None \<Rightarrow> 0)"

definition gate_off :: "'w st \<Rightarrow> bool" where
  "gate_off s = (case lag_gate_state s of Some g \<Rightarrow> gate_disabled g | None \<Rightarrow> True)"

lemma observe_spec:
  assumes "run_state (observe_replica_lag env) s = (r, s')"
  obtains es where "trace s' = trace s @ es" "total_slept es = 0" "statements es = []"
    "clock s \<le> clock s'" "signal_at s' = signal_at s" "lag_gate_state s' = lag_gate_state s"
    "\<forall>obs. r = Inr obs \<longrightarrow> last_lag es = Some obs \<and> (exceeds obs (threshold_seconds g) \<longrightarrow> lags_over g es)"
proof -
  have "\<exists>es. trace s' = trace s @ es \<and> total_slept es = 0 \<and> statements es = []
      \<and> clock s \<le> clock s' \<and> signal_at s' = signal_at s \<and> lag_gate_state s' = lag_gate_state s
      \<and> (\<forall>obs. r = Inr obs \<longrightarrow> last_lag es = Some obs \<and> (exceeds obs (threshold_seconds g) \<longrightarrow> lags_over g es))"
    using assms
    by (auto simp: observe_replica_lag_def split: prod.splits sum.splits if_splits)
  with that show thesis by blast
qed

lemma sleep_spec:
  assumes "run_state (sleep_or_shutdown env d) s = (stop, s')"
  obtains n where "n \<le> d" "trace s' = trace s @ [ESleep n]" "clock s' = clock s + n"
    "signal_at s' = signal_at s" "lag_gate_state s' = lag_gate_state s"
    "stop \<longrightarrow> signalled (signal_at s') (clock s')" "\<not> stop \<longrightarrow> n = d"
proof -
  have "\<exists>n\<le>d. trace s' = trace s @ [ESleep n] \<and> clock s' = clock s + n
      \<and> signal_at s' = signal_at s \<and> lag_gate_state s' = lag_gate_state s
      \<and> (stop \<longrightarrow> signalled (signal_at s') (clock s')) \<and> (\<not> stop \<longrightarrow> n = d)"
    using assms
    by (auto simp: sleep_or_shutdown_def Let_def signalled_def split: option.splits if_splits)
  with that show thesis by blast
qed

text \<open>What one round of the loop may do, and what each of its outcomes means.\<close>

definition round_ok ::
  "lag_gate \<Rightarrow> nat \<Rightarrow> 'w st \<Rightarrow> error + lag_gate_verdict option \<Rightarrow> 'w st \<Rightarrow> event list \<Rightarrow> bool" where
  "round_ok g budget s r s' es =
     (trace s' = trace s @ es \<and> total_slept es \<le> budget \<and> statements es = []
      \<and> clock s + total_slept es \<le> clock s' \<and> signal_at s' = signal_at s
      \<and> (lag_gate_state s' = None) = (lag_gate_state s = None)
      \<and> (r = Inr (Some Proceed) \<longrightarrow> (\<exists>obs. last_lag es = Some obs \<and> \<not> exceeds obs (threshold_seconds g)))
      \<and> (r = Inr (Some SkipTable) \<longrightarrow> lags_over g es \<and> clock s + budget \<le> clock s'
          \<and> (lag_gate_state s \<noteq> None \<longrightarrow> skips s' = skips s + 1))
      \<and> (r = Inr (Some ShutdownRequested) \<longrightarrow> signalled (signal_at s') (clock s'))
      \<and> (r = Inr None \<longrightarrow> skips s' = skips s \<and> lags_over g es))"

text \<open>The decision takes no time and sends nothing.\<close>

lemma skips_update:
  "skips (s\<lparr>lag_gate_state := map_option f (lag_gate_state s), trace := es\<rparr>) =
     (case lag_gate_state s of Some g \<Rightarrow> tables_skipped (f g) | None \<Rightarrow> 0)"
  "skips (s\<lparr>lag_gate_state := map_option f (lag_gate_state s)\<rparr>) =
     (case lag_gate_state s of Some g \<Rightarrow> tables_skipped (f g) | None \<Rightarrow> 0)"
  by (simp_all add: skips_def split: option.splits)

lemma skips_kept [simp]: "tables_skipped (add_waited n g) = tables_skipped g"
  "tables_skipped (record_skip g) = tables_skipped g + 1"
  by (simp_all add: add_waited_def record_skip_def)

definition decision_ok ::
  "lag_gate \<Rightarrow> nat \<Rightarrow> lag_observation \<Rightarrow> 'w st \<Rightarrow> error + lag_gate_verdict option \<Rightarrow> 'w st \<Rightarrow> event list \<Rightarrow> bool" where
  "decision_ok g started obs s r s' fs =
     (trace s' = trace s @ fs \<and> statements fs = [] \<and> total_slept fs = 0 \<and> last_lag fs = None
      \<and> clock s' = clock s \<and> signal_at s' = signal_at s
      \<and> (lag_gate_state s' = None) = (lag_gate_state s = None)
      \<and> (r = Inr (Some Proceed) \<and> \<not> exceeds obs (threshold_seconds g)
         \<or> r = Inr (Some SkipTable) \<and> exceeds obs (threshold_seconds g)
            \<and> secs (max_wait_seconds g) \<le> clock s - started
            \<and> (lag_gate_state s \<noteq> None \<longrightarrow> skips s' = skips s + 1)
         \<or> r = Inr None \<and> exceeds obs (threshold_seconds g) \<and> skips s' = skips s))"

lemma lag_decision_spec:
  assumes "run_state (lag_decision g sch tab started obs) s = (r, s')"
  shows "\<exists>fs. decision_ok g started obs s r s' fs"
proof -
  let ?w = "clock s - started"
  consider "\<not> exceeds obs (threshold_seconds g)"
    | "exceeds obs (threshold_seconds g)" "secs (max_wait_seconds g) \<le> ?w"
    | "exceeds obs (threshold_seconds g)" "\<not> secs (max_wait_seconds g) \<le> ?w" by blast
  then show ?thesis
  proof cases
    case 1
    with assms show ?thesis
      by (intro exI [of _ "[ELog Info (LagRecovered sch tab (lag_or_zero obs) ?w)]"])
        (auto simp: lag_decision_def Let_def decision_ok_def)
  next
    case 2
    with assms show ?thesis
      by (intro exI [of _ "[ELog Warning (LagStillOver sch tab (lag_or_zero obs) ?w (worst_standby obs))]"])
        (auto simp: lag_decision_def Let_def decision_ok_def skips_def)
  next
    case 3
    with assms show ?thesis
      by (intro exI [of _ "[]"]) (auto simp: lag_decision_def Let_def decision_ok_def)
  qed
qed

text \<open>A round that slept and then looked at the lag: a failed query ends it, otherwise the decision is
  made on what was just seen.\<close>

lemma observed_round_spec:
  assumes "trace s1 = trace s @ [ESleep n]" "clock s1 = clock s + n" "signal_at s1 = signal_at s"
    "lag_gate_state s1 = lag_gate_state s"
    "n \<le> secs (max_wait_seconds g) - (clock s - started)" "run_state (observe_replica_lag env) s1 = (r2, s2)"
    and "\<And>e. r2 = Inl e \<Longrightarrow> r = Inl e \<and> s' = s2"
    and "\<And>obs. r2 = Inr obs \<Longrightarrow> run_state (lag_decision g sch tab started obs) s2 = (r, s')"
  shows "\<exists>es. round_ok g (secs (max_wait_seconds g) - (clock s - started)) s r s' es"
proof -
  from assms(6) obtain es where es: "trace s2 = trace s1 @ es" "total_slept es = 0" "statements es = []"
    "clock s1 \<le> clock s2" "signal_at s2 = signal_at s1" "lag_gate_state s2 = lag_gate_state s1"
    "\<forall>obs. r2 = Inr obs \<longrightarrow> last_lag es = Some obs \<and> (exceeds obs (threshold_seconds g) \<longrightarrow> lags_over g es)"
    by (rule observe_spec)
  note now = assms(1-5) es
  show ?thesis
  proof (cases r2)
    case (Inl e)
    with assms(7) [OF Inl] now show ?thesis
      by (intro exI [of _ "[ESleep n] @ es"]) (auto simp: round_ok_def)
  next
    case (Inr obs)
    from lag_decision_spec [OF assms(8) [OF Inr]] obtain fs where fs: "decision_ok g started obs s2 r s' fs" ..
    then have "lags_over g fs" by (auto simp: decision_ok_def intro: no_lag)
    moreover have "clock s + (secs (max_wait_seconds g) - (clock s - started)) \<le> clock s2"
      if "secs (max_wait_seconds g) \<le> clock s2 - started" using that now by linarith
    moreover have "skips s2 = skips s" using now by (simp add: skips_def)
    ultimately show ?thesis using now Inr fs
      by (intro exI [of _ "[ESleep n] @ es @ fs"]) (auto simp: round_ok_def decision_ok_def)
  qed
qed

lemma wait_round_spec:
  assumes "run_state (wait_round env g sch tab started) s = (r, s')"
  shows "\<exists>es. round_ok g (secs (max_wait_seconds g) - (clock s - started)) s r s' es"
proof (cases "secs (max_wait_seconds g) - (clock s - started) = 0")
  case True
  with assms show ?thesis
    by (intro exI [of _ "[ELog Warning (LagTimeout sch tab (clock s - started))]"])
      (auto simp: wait_round_def Let_def round_ok_def skips_def record_skip_def add_waited_def
        split: option.splits)
next
  case False
  let ?rem = "secs (max_wait_seconds g) - (clock s - started)"
  let ?d = "min (secs (max (poll_interval_seconds g) 1)) ?rem"
  let ?bye = "ELog Warning (Text ''Shutdown signal received while waiting for replication lag.'')"
  obtain stop s1 where sl: "run_state (sleep_or_shutdown env ?d) s = (stop, s1)" by fastforce
  then obtain n where n: "n \<le> ?d" "trace s1 = trace s @ [ESleep n]" "clock s1 = clock s + n"
    "signal_at s1 = signal_at s" "lag_gate_state s1 = lag_gate_state s"
    "stop \<longrightarrow> signalled (signal_at s1) (clock s1)" by (rule sleep_spec)
  then have nrem: "n \<le> ?rem" by simp
  show ?thesis
  proof (cases stop)
    case True
    with assms False sl n nrem show ?thesis
      by (intro exI [of _ "[ESleep n, ?bye]"]) (auto simp: wait_round_def Let_def round_ok_def)
  next
    case no: False
    obtain r2 s2 where ob: "run_state (observe_replica_lag env) s1 = (r2, s2)" by fastforce
    show ?thesis
      by (rule observed_round_spec [OF n(2-5) nrem ob])
        (use assms False sl no ob in \<open>auto simp: wait_round_def Let_def\<close>)
  qed
qed

lemma round_ok_trans:
  assumes "round_ok g b s (Inr None) s1 es" "round_ok g b' s1 r s2 fs" "total_slept es + b' \<le> b"
    "clock s + b \<le> clock s1 + b'"
  shows "round_ok g b s r s2 (es @ fs)"
  using assms unfolding round_ok_def by (cases "last_lag fs") auto

lemma wait_loop_spec:
  assumes "started \<le> clock s" "wait_loop env g sch tab started s = (r, s')"
  shows "\<exists>es. round_ok g (secs (max_wait_seconds g) - (clock s - started)) s (map_sum id Some r) s' es"
  using assms
proof (induction env g sch tab started s rule: wait_loop.induct)
  case (1 env g sch tab started s)
  let ?D = "secs (max_wait_seconds g)"
  obtain r1 s1 where round: "run_state (wait_round env g sch tab started) s = (r1, s1)" by fastforce
  from wait_round_spec [OF round] obtain es where
    es: "round_ok g (?D - (clock s - started)) s r1 s1 es" ..
  show ?case
  proof (cases "r1 = Inr None")
    case False
    with "1.prems" round have "map_sum id Some r = r1" "s' = s1"
      by (auto simp: wait_loop.simps [of env g sch tab started s] split: sum.splits option.splits)
    with es have "round_ok g (?D - (clock s - started)) s (map_sum id Some r) s' es" by simp
    then show ?thesis ..
  next
    case True
    with "1.prems" round have rest: "wait_loop env g sch tab started s1 = (r, s')"
      by (simp add: wait_loop.simps [of env g sch tab started s])
    from es have time: "clock s + total_slept es \<le> clock s1" by (simp add: round_ok_def)
    with "1.prems"(1) have "started \<le> clock s1" by simp
    from "1.IH" [OF round [symmetric] True refl this rest] obtain fs where
      fs: "round_ok g (?D - (clock s1 - started)) s1 (map_sum id Some r) s' fs" by blast
    have "total_slept es + (?D - (clock s1 - started)) \<le> ?D - (clock s - started)"
      using es time "1.prems"(1) by (auto simp: round_ok_def)
    moreover have "clock s + (?D - (clock s - started)) \<le> clock s1 + (?D - (clock s1 - started))"
      using time "1.prems"(1) by linarith
    ultimately show ?thesis using round_ok_trans [OF es [unfolded True] fs] by blast
  qed
qed

lemma evolves_wait_loop:
  assumes "\<And>obs. Q (ELag obs)" "\<And>d. Q (ESleep d)" "\<And>l m. Q (ELog l m)"
  shows "evolves Q s (snd (wait_loop env g sch tab started s))"
proof (induction env g sch tab started s rule: wait_loop.induct)
  case (1 env g sch tab started s)
  obtain r1 s1 where round: "run_state (wait_round env g sch tab started) s = (r1, s1)" by fastforce
  then have "evolves Q s s1" by (intro emitsD [OF emits_wait_round]) (use assms in auto)
  with 1 [OF round [symmetric]] show ?case
    by (auto simp: wait_loop.simps [of env g sch tab started s] round
        split: sum.splits option.splits intro: evolves_trans)
qed

lemma emits_wait [emits_intros]:
  assumes "\<And>obs. Q (ELag obs)" "\<And>d. \<not> dry_run policy \<Longrightarrow> Q (ESleep d)" "\<And>l m. Q (ELog l m)"
  shows "emits Q (wait_for_replica_lag env g sch tab policy)"
proof -
  have "emits Q (State (wait_loop env g sch tab started))" if "\<not> dry_run policy" for started
    unfolding emits_def using assms that by (auto intro!: evolves_wait_loop)
  then show ?thesis
    unfolding wait_for_replica_lag_def Let_def using assms by (auto intro!: emits_intros)
qed

text \<open>An observation that leads to no waiting.\<close>

lemma no_waiting_spec:
  assumes "run_state (wait_for_replica_lag env g sch tab policy) s = (r, s')"
    "run_state (observe_replica_lag env) s = (Inr obs, s1)" "lag_gate_state s1 = Some g" "\<not> gate_disabled g"
    "\<not> (exceeds obs (threshold_seconds g) \<and> obs \<noteq> NoReplicas \<and> \<not> dry_run policy \<and> max_wait_seconds g \<noteq> 0)"
  obtains fs where "trace s' = trace s1 @ fs" "statements fs = []" "total_slept fs = 0" "last_lag fs = None"
    "r = Inr Proceed \<and> (\<not> exceeds obs (threshold_seconds g) \<or> dry_run policy \<or> gate_off s')
     \<or> r = Inr SkipTable \<and> exceeds obs (threshold_seconds g) \<and> \<not> dry_run policy \<and> skips s' = skips s1 + 1
        \<and> max_wait_seconds g = 0 \<and> clock s' = clock s1"
  using assms
  by (cases obs) (auto simp: wait_for_replica_lag_def Let_def exceeds_def skips_def gate_off_def disable_def
      split: if_splits)

lemma wait_for_replica_lag_spec:
  assumes "run_state (wait_for_replica_lag env g sch tab policy) s = (r, s')"
    and "lag_gate_state s = Some g"
  shows "\<exists>es. trace s' = trace s @ es \<and> statements es = []
       \<and> total_slept es \<le> (if dry_run policy then 0 else secs (max_wait_seconds g))
       \<and> (r = Inr Proceed \<longrightarrow> gate_off s' \<or> dry_run policy
            \<or> (\<exists>obs. last_lag es = Some obs \<and> \<not> exceeds obs (threshold_seconds g)))
       \<and> (r = Inr SkipTable \<longrightarrow> \<not> dry_run policy \<and> skips s' = skips s + 1
            \<and> clock s + secs (max_wait_seconds g) \<le> clock s' \<and> last_lag es \<noteq> None \<and> lags_over g es)
       \<and> (r = Inr ShutdownRequested \<longrightarrow> signalled (signal_at s') (clock s'))"
proof (cases "gate_disabled g")
  case True
  with assms have "r = Inr Proceed" "s' = s" by (simp_all add: wait_for_replica_lag_def)
  with True assms show ?thesis by (simp add: gate_off_def)
next
  case on: False
  obtain r1 s1 where ob: "run_state (observe_replica_lag env) s = (r1, s1)" by fastforce
  then obtain es where es: "trace s1 = trace s @ es" "total_slept es = 0" "statements es = []"
    "clock s \<le> clock s1" "signal_at s1 = signal_at s" "lag_gate_state s1 = lag_gate_state s"
    "\<forall>obs. r1 = Inr obs \<longrightarrow> last_lag es = Some obs \<and> (exceeds obs (threshold_seconds g) \<longrightarrow> lags_over g es)"
    by (rule observe_spec)
  have kept: "skips s1 = skips s" using es(6) by (simp add: skips_def)
  show ?thesis
  proof (cases r1)
    case (Inl e)
    with assms on ob es show ?thesis by (intro exI [of _ es]) (auto simp: wait_for_replica_lag_def)
  next
    case obs: (Inr obs)
    show ?thesis
    proof (cases "exceeds obs (threshold_seconds g) \<and> obs \<noteq> NoReplicas \<and> \<not> dry_run policy \<and> max_wait_seconds g \<noteq> 0")
      case True
      let ?m = "ELog Info (WaitingForLag sch tab (lag_or_zero obs) (threshold_seconds g) (max_wait_seconds g))"
      from True have "obs \<noteq> Unobservable" by (auto simp: exceeds_def)
      with assms on ob obs True
      have "wait_loop env g sch tab (clock s1) (s1\<lparr>trace := trace s1 @ [?m]\<rparr>) = (r, s')"
        by (simp add: wait_for_replica_lag_def Let_def)
      from wait_loop_spec [OF _ this] obtain fs where
        "round_ok g (secs (max_wait_seconds g)) (s1\<lparr>trace := trace s1 @ [?m]\<rparr>) (map_sum id Some r) s' fs"
        by auto
      with es obs True assms(2) show ?thesis
        by (intro exI [of _ "es @ [?m] @ fs"]) (auto simp: round_ok_def skips_def split: option.splits)
    next
      case False
      from assms(2) es(6) have "lag_gate_state s1 = Some g" by simp
      from no_waiting_spec [OF assms(1) ob [unfolded obs] this on False] obtain fs where
        "trace s' = trace s1 @ fs" "statements fs = []" "total_slept fs = 0" "last_lag fs = None"
        "r = Inr Proceed \<and> (\<not> exceeds obs (threshold_seconds g) \<or> dry_run policy \<or> gate_off s')
         \<or> r = Inr SkipTable \<and> exceeds obs (threshold_seconds g) \<and> \<not> dry_run policy \<and> skips s' = skips s1 + 1
        \<and> max_wait_seconds g = 0 \<and> clock s' = clock s1" .
      with es obs kept no_lag [of fs g] show ?thesis by (intro exI [of _ "es @ fs"]) (auto simp: secs_def)
    qed
  qed
qed

text \<open>
  C19: What a verdict of the gate is worth. On every server, holding a table back sleeps at most
  \<open>max_wait_seconds\<close> in total (not at all in a dry run) and sends no statement. \<open>Proceed\<close> means
  that the gate is switched off, or the run is a dry run, or the last observation was not over the threshold;
  \<open>SkipTable\<close> means that the whole \<open>max_wait_seconds\<close> have passed, that the lag was looked at and was over the
  threshold every time, that the run is not a dry run, and that exactly one more table is counted as held back;
  \<open>ShutdownRequested\<close> means that a signal has arrived.
\<close>

theorem lag_verdict_sound:
  assumes "run_state (wait_for_replica_lag env g sch tab policy) s = (r, s')"
    and "lag_gate_state s = Some g"
  shows "\<exists>es. trace s' = trace s @ es \<and> statements es = []
       \<and> total_slept es \<le> (if dry_run policy then 0 else secs (max_wait_seconds g))
       \<and> (r = Inr Proceed \<longrightarrow> gate_off s' \<or> dry_run policy
            \<or> (\<exists>obs. last_lag es = Some obs \<and> \<not> exceeds obs (threshold_seconds g)))
       \<and> (r = Inr SkipTable \<longrightarrow> \<not> dry_run policy \<and> skips s' = skips s + 1
            \<and> clock s + secs (max_wait_seconds g) \<le> clock s' \<and> last_lag es \<noteq> None \<and> lags_over g es)
       \<and> (r = Inr ShutdownRequested \<longrightarrow> signalled (signal_at s') (clock s'))"
  using assms by (rule wait_for_replica_lag_spec)

definition lagging_env :: "(pg_error + unit) list env" where
  "lagging_env = scripted_env
     \<lparr>q_replication_lag := (\<lambda>w. (Inr (idle_monitor\<lparr>mon_replication := [\<lparr>rep_application_name = Some ''standby1'',
        rep_state = Some ''streaming'', rep_sync_state = Some ''async'', rep_replay_lag = Some 42000000\<rparr>]\<rparr>), 1000000, w))\<rparr>"


theorem lag_verdict_sound_witness:
  "skips (snd (run_state (wait_for_replica_lag lagging_env (new_gate (Fin 10) 0) ''public'' ''t''
       (retry_policy 0))
     ((initial_state [])\<lparr>lag_gate_state := Some (new_gate (Fin 10) 0)\<rparr>))) = 1"
proof -
  let ?s = "(initial_state [])\<lparr>lag_gate_state := Some (new_gate (Fin 10) 0)\<rparr> :: (pg_error + unit) list st"
  let ?run = "run_state (wait_for_replica_lag lagging_env (new_gate (Fin 10) 0) ''public'' ''t''
      (retry_policy 0)) ?s"
  have "fst ?run = Inr SkipTable"
    by (simp add: wait_for_replica_lag_def observe_replica_lag_def lagging_env_def ask_replication_lag_def reading_def
        GET_REPLICATION_LAG_def read_standby_def coalesce_def scripted_env_def
        new_gate_def lag_of_rows_def exceeds_def f64_max_def standby_lag_or_zero_def retry_policy_def Let_def)
  then have "?run = (Inr SkipTable, snd ?run)" by (metis prod.collapse)
  from lag_verdict_sound [OF this] show ?thesis by (auto simp: skips_def new_gate_def)
qed

end
