(* ===== verification/Keyword_Strings.thy ===== *)
theory Keyword_Strings
  imports Rust_Prelude
begin

text \<open>
  The libpq keyword strings (\<open>host=db dbname='my db'\<close>): the reader \<open>split_keyword_pairs\<close> of
  \<open>src/dsn.rs\<close>, and the two writers of a value, \<open>escape_keyword_value\<close> there and
  \<open>escape_libpq_value\<close> in \<open>src/connection.rs\<close>. The contract between a writer and the reader is the
  locale \<open>value_codec\<close>; it holds of the first writer for every value and of the second for every
  value that is not empty.

  The source scans characters and the model bytes. A byte that is not ASCII is never a delimiter, and
  a multi-byte white-space character is recognised at its first byte, so on UTF-8 text the two scans
  stop at the same places.
\<close>

section \<open>The reader\<close>

datatype keyword_error = EmptyName | NoValue string | Unterminated string

text \<open>The loop over the name: up to an equals sign or white space.\<close>

fun scan_key :: "string \<Rightarrow> string \<times> string" where
  "scan_key [] = ([], [])"
| "scan_key (c # cs) =
     (if c = equals_sign \<or> ws_len (c # cs) \<noteq> 0 then ([], c # cs)
      else (case scan_key cs of (k, rest) \<Rightarrow> (c # k, rest)))"

text \<open>The loop over a quoted value, after the opening quote; \<open>None\<close> if it is not closed.\<close>

fun quoted_value :: "string \<Rightarrow> (string \<times> string) option" where
  "quoted_value [] = None"
| "quoted_value [c] = (if c = squote then Some ([], []) else None)"
| "quoted_value (c # d # ds) =
     (if c = backslash then map_option (\<lambda>(v, rest). (d # v, rest)) (quoted_value ds)
      else if c = squote then Some ([], d # ds)
      else map_option (\<lambda>(v, rest). (c # v, rest)) (quoted_value (d # ds)))"

text \<open>The loop over a value without quotes.\<close>

fun bare_value :: "string \<Rightarrow> string \<times> string" where
  "bare_value [] = ([], [])"
| "bare_value [c] = (if ws_len [c] \<noteq> 0 then ([], [c]) else ([c], []))"
| "bare_value (c # d # ds) =
     (if ws_len (c # d # ds) \<noteq> 0 then ([], c # d # ds)
      else if c = backslash then (case bare_value ds of (v, rest) \<Rightarrow> (d # v, rest))
      else (case bare_value (d # ds) of (v, rest) \<Rightarrow> (c # v, rest)))"

definition read_value :: "string \<Rightarrow> (string \<times> string) option" where
  "read_value s =
     (case s of
        [] \<Rightarrow> Some ([], [])
      | c # cs \<Rightarrow> if c = squote then quoted_value cs else Some (bare_value (c # cs)))"

text \<open>One round of the outer loop: the next pair and what is left, or nothing at the end.\<close>

definition next_pair :: "string \<Rightarrow> keyword_error + ((string \<times> string) \<times> string) option" where
  "next_pair s =
     (let s = skip_ws s in
      if s = [] then Inr None
      else case scan_key s of (key, s1) \<Rightarrow>
        if key = [] then Inl EmptyName
        else (case skip_ws s1 of
            [] \<Rightarrow> Inl (NoValue key)
          | c # s2 \<Rightarrow>
              if c \<noteq> equals_sign then Inl (NoValue key)
              else (case read_value (skip_ws s2) of
                  None \<Rightarrow> Inl (Unterminated key)
                | Some (v, rest) \<Rightarrow> Inr (Some ((key, v), rest)))))"

lemma skip_ws_length: "length (skip_ws s) \<le> length s"
proof (induction s rule: skip_ws.induct)
  case (1 s)
  show ?case
  proof (cases "ws_len s = 0")
    case True
    then show ?thesis by (simp add: skip_ws_none)
  next
    case False
    with 1 have "length (skip_ws (drop (ws_len s) s)) \<le> length s" by fastforce
    with False show ?thesis by (subst skip_ws.simps) simp
  qed
qed

lemma scan_key_append: "scan_key s = (k, rest) \<Longrightarrow> s = k @ rest"
  by (induction s arbitrary: k) (auto split: if_splits prod.splits)

lemma quoted_value_length: "quoted_value s = Some (v, rest) \<Longrightarrow> length rest < length s"
proof (induction s arbitrary: v rule: quoted_value.induct)
  case (3 c d ds)
  then show ?case by (fastforce split: if_splits)
qed (auto split: if_splits)

lemma bare_value_length: "bare_value s = (v, rest) \<Longrightarrow> length rest \<le> length s"
proof (induction s arbitrary: v rule: bare_value.induct)
  case (3 c d ds)
  then show ?case by (fastforce split: if_splits prod.splits)
qed (auto split: if_splits)

lemma read_value_length: "read_value s = Some (v, rest) \<Longrightarrow> length rest \<le> length s"
  by (auto simp: read_value_def dest: quoted_value_length bare_value_length
      simp del: bare_value.simps split: list.splits if_splits)

lemma next_pair_length:
  assumes "next_pair s = Inr (Some (p, rest))"
  shows "length rest < length s"
proof -
  obtain key s1 where key: "scan_key (skip_ws s) = (key, s1)" by force
  with assms have "key \<noteq> []" by (auto simp: next_pair_def Let_def split: if_splits)
  with scan_key_append [OF key] have "length s1 < length (skip_ws s)" by simp
  moreover from assms key obtain s2 v where s2: "skip_ws s1 = equals_sign # s2"
    "read_value (skip_ws s2) = Some (v, rest)"
    by (auto simp: next_pair_def Let_def split: if_splits list.splits option.splits)
  ultimately show ?thesis
    using read_value_length [OF s2(2)] skip_ws_length [of s] skip_ws_length [of s1] skip_ws_length [of s2]
    by simp
qed

function split_keyword_pairs :: "string \<Rightarrow> keyword_error + (string \<times> string) list" where
  "split_keyword_pairs s =
     (case next_pair s of
        Inl e \<Rightarrow> Inl e
      | Inr None \<Rightarrow> Inr []
      | Inr (Some (p, rest)) \<Rightarrow>
          (case split_keyword_pairs rest of Inl e \<Rightarrow> Inl e | Inr ps \<Rightarrow> Inr (p # ps)))"
  by pat_completeness auto
termination
  by (relation "measure length") (auto dest: next_pair_length)

declare split_keyword_pairs.simps [simp del]

section \<open>The writers\<close>

definition needs_quotes :: "string \<Rightarrow> bool" where
  "needs_quotes s = (has_ws s \<or> squote \<in> set s \<or> backslash \<in> set s)"

definition escape_quotes :: "string \<Rightarrow> string" where
  "escape_quotes s = replace_char squote [backslash, squote] (replace_char backslash [backslash, backslash] s)"

definition escape_keyword_value :: "string \<Rightarrow> string" where
  "escape_keyword_value s =
     (if s = [] \<or> needs_quotes s then [squote] @ escape_quotes s @ [squote] else s)"

definition escape_libpq_value :: "string \<Rightarrow> string" where
  "escape_libpq_value s =
     (if needs_quotes s then [squote] @ escape_quotes s @ [squote] else s)"

definition keyword_pair :: "(string \<Rightarrow> string) \<Rightarrow> string \<times> string \<Rightarrow> string" where
  "keyword_pair enc p = fst p @ [equals_sign] @ enc (snd p)"

text \<open>A name that a keyword string can carry.\<close>

definition keyword_name :: "string \<Rightarrow> bool" where
  "keyword_name k = (k \<noteq> [] \<and> equals_sign \<notin> set k \<and> \<not> has_ws k)"

section \<open>The contract of a writer\<close>

definition ends_value :: "string \<Rightarrow> bool" where
  "ends_value rest = (rest = [] \<or> hd rest = space)"

lemma skip_ws_ascii: "is_ascii c \<Longrightarrow> \<not> ascii_ws c \<Longrightarrow> skip_ws (c # s) = c # s"
  by (simp add: skip_ws_none ws_len_ascii)

lemma not_ascii_ws [simp]: "\<not> ascii_ws equals_sign" "\<not> ascii_ws squote" "\<not> ascii_ws backslash"
  by (simp_all add: ascii_ws_def)

lemma has_ws_prefix:
  assumes "\<not> has_ws k" "k \<noteq> []" "rest = [] \<or> is_ascii (hd rest)"
  shows "ws_len (k @ rest) = 0"
proof -
  have "ws_len k = 0" using assms(1,2) by (cases k) auto
  then show ?thesis
    using assms ws_len_before_ascii [of "hd rest" k "tl rest"] by (cases rest) auto
qed

lemma scan_key_name:
  assumes "equals_sign \<notin> set k" "\<not> has_ws k"
  shows "scan_key (k @ equals_sign # s) = (k, equals_sign # s)"
  using assms
proof (induction k)
  case Nil
  then show ?case by simp
next
  case (Cons c k)
  then have "ws_len ((c # k) @ equals_sign # s) = 0" by (intro has_ws_prefix) auto
  with Cons show ?case by auto
qed

text \<open>White space before a value does not count, so a value left out makes the next word the value.\<close>

lemma next_pair_skip:
  assumes "keyword_name k"
  shows "next_pair (k @ equals_sign # space # s) = next_pair (k @ equals_sign # s)"
proof -
  from assms have k: "k \<noteq> []" "equals_sign \<notin> set k" "\<not> has_ws k" by (simp_all add: keyword_name_def)
  have "skip_ws (k @ equals_sign # t) = k @ equals_sign # t" for t
    using k by (intro skip_ws_none has_ws_prefix) auto
  with k show ?thesis by (simp add: next_pair_def scan_key_name skip_ws_ascii skip_ws_space)
qed

locale value_codec =
  fixes enc :: "string \<Rightarrow> string" and ok :: "string \<Rightarrow> bool"
  assumes enc_start: "ok v \<Longrightarrow> ends_value rest \<Longrightarrow> skip_ws (enc v @ rest) = enc v @ rest"
    and enc_read: "ok v \<Longrightarrow> ends_value rest \<Longrightarrow> read_value (enc v @ rest) = Some (v, rest)"
begin

lemma next_pair_written:
  assumes "keyword_name k" "ok v" "ends_value rest"
  shows "next_pair (keyword_pair enc (k, v) @ rest) = Inr (Some ((k, v), rest))"
proof -
  from assms(1) have k: "k \<noteq> []" "equals_sign \<notin> set k" "\<not> has_ws k" by (simp_all add: keyword_name_def)
  have "skip_ws (k @ equals_sign # enc v @ rest) = k @ equals_sign # enc v @ rest"
    using k by (intro skip_ws_none has_ws_prefix) auto
  with k assms show ?thesis
    by (simp add: next_pair_def keyword_pair_def scan_key_name skip_ws_ascii enc_start enc_read)
qed

lemma next_pair_space: "next_pair (space # s) = next_pair s"
  by (simp add: next_pair_def skip_ws_space)

lemma split_space: "split_keyword_pairs (space # s) = split_keyword_pairs s"
  by (subst (1 2) split_keyword_pairs.simps) (simp add: next_pair_space)

lemma split_written:
  assumes "\<forall>(k, v)\<in>set ps. keyword_name k \<and> ok v"
  shows "split_keyword_pairs (join [space] (map (keyword_pair enc) ps)) = Inr ps"
  using assms
proof (induction ps)
  case Nil
  show ?case by (subst split_keyword_pairs.simps) (simp add: next_pair_def)
next
  case (Cons p ps)
  obtain k v where p: "p = (k, v)" by force
  with Cons.prems have kv: "keyword_name k" "ok v" by auto
  show ?case
  proof (cases ps)
    case Nil
    have "next_pair (keyword_pair enc (k, v)) = Inr (Some ((k, v), []))"
      using next_pair_written [OF kv, of "[]"] by (simp add: ends_value_def)
    with Nil p Cons show ?thesis by (subst split_keyword_pairs.simps) simp
  next
    case (Cons q qs)
    let ?rest = "join [space] (map (keyword_pair enc) ps)"
    have "next_pair (keyword_pair enc (k, v) @ space # ?rest) = Inr (Some ((k, v), space # ?rest))"
      using next_pair_written [OF kv, of "space # ?rest"] by (simp add: ends_value_def)
    moreover have "split_keyword_pairs ?rest = Inr ps" using Cons.IH Cons.prems by simp
    ultimately have "split_keyword_pairs (keyword_pair enc p @ space # ?rest) = Inr (p # ps)"
      using p by (subst split_keyword_pairs.simps) (simp add: split_space)
    with Cons show ?thesis by simp
  qed
qed

text \<open>Different pairs are written differently.\<close>

lemma written_inj:
  assumes "\<forall>(k, v)\<in>set ps. keyword_name k \<and> ok v" "\<forall>(k, v)\<in>set qs. keyword_name k \<and> ok v"
    "join [space] (map (keyword_pair enc) ps) = join [space] (map (keyword_pair enc) qs)"
  shows "ps = qs"
proof -
  have "Inr ps = (Inr qs :: keyword_error + (string \<times> string) list)"
    using split_written [OF assms(2)] unfolding assms(3) [symmetric] split_written [OF assms(1)] .
  then show ?thesis by simp
qed

end

section \<open>Both writers keep it\<close>

lemma quoted_escaped:
  "quoted_value (escape_quotes v @ squote # rest) = Some (v, rest)"
proof (induction v)
  case Nil
  show ?case by (cases rest) (simp_all add: escape_quotes_def replace_char_def)
next
  case (Cons c v)
  let ?t = "escape_quotes v @ squote # rest"
  obtain d ds where t: "?t = d # ds" by (cases ?t) auto
  have "escape_quotes (c # v) =
      (if c = backslash then [backslash, backslash] else if c = squote then [backslash, squote] else [c])
        @ escape_quotes v"
    by (simp add: escape_quotes_def replace_char_def)
  with Cons t show ?case by auto
qed

lemma bare_unescaped:
  assumes "\<not> has_ws v" "squote \<notin> set v" "backslash \<notin> set v" "ends_value rest"
  shows "bare_value (v @ rest) = (v, rest)"
  using assms
proof (induction v)
  case Nil
  then show ?case
    by (cases rest; cases "tl rest") (auto simp: ends_value_def)
next
  case (Cons c v)
  have "ws_len ((c # v) @ rest) = 0"
    using Cons.prems by (intro has_ws_prefix) (auto simp: ends_value_def)
  with Cons show ?case
    by (cases "v @ rest") auto
qed

lemma read_quoted: "read_value ([squote] @ escape_quotes v @ [squote] @ rest) = Some (v, rest)"
  by (simp add: read_value_def quoted_escaped)

lemma read_bare:
  assumes "v \<noteq> []" "\<not> needs_quotes v" "ends_value rest"
  shows "read_value (v @ rest) = Some (v, rest)" and "skip_ws (v @ rest) = v @ rest"
proof -
  from assms(1,2) have v: "\<not> has_ws v" "squote \<notin> set v" "backslash \<notin> set v" "v \<noteq> []"
    by (simp_all add: needs_quotes_def)
  from bare_unescaped [OF v(1-3) assms(3)] v(2,4)
  show "read_value (v @ rest) = Some (v, rest)"
    by (cases v) (auto simp: read_value_def)
  from v(1,4) assms(3) show "skip_ws (v @ rest) = v @ rest"
    by (intro skip_ws_none has_ws_prefix) (auto simp: ends_value_def)
qed

interpretation keyword_writer: value_codec escape_keyword_value "\<lambda>v. True"
proof unfold_locales
  fix v rest :: string
  assume "ends_value rest"
  then show "skip_ws (escape_keyword_value v @ rest) = escape_keyword_value v @ rest"
    using read_bare(2) [of v rest] by (auto simp: escape_keyword_value_def skip_ws_ascii)
  from \<open>ends_value rest\<close> show "read_value (escape_keyword_value v @ rest) = Some (v, rest)"
    using read_bare(1) [of v rest] read_quoted [of v rest] by (auto simp: escape_keyword_value_def)
qed

interpretation libpq_writer: value_codec escape_libpq_value "\<lambda>v. v \<noteq> []"
proof unfold_locales
  fix v rest :: string
  assume "v \<noteq> []" "ends_value rest"
  then show "skip_ws (escape_libpq_value v @ rest) = escape_libpq_value v @ rest"
    using read_bare(2) [of v rest] by (auto simp: escape_libpq_value_def skip_ws_ascii)
  from \<open>v \<noteq> []\<close> \<open>ends_value rest\<close>
  show "read_value (escape_libpq_value v @ rest) = Some (v, rest)"
    using read_bare(1) [of v rest] read_quoted [of v rest] by (auto simp: escape_libpq_value_def)
qed

end
