(* ===== verification/Credentials.thy ===== *)
theory Credentials
  imports Rust_Prelude
begin

text \<open>
  \<open>src/credentials.rs\<close>: the password file. The process environment and the file system are not part
  of the program: they are the record \<open>pgpass_env\<close>, with a file's permission bits and text where the
  code looks at them. The model is of the Unix build, which checks the permissions.
\<close>

section \<open>The code\<close>

record pgpass_env =
  getenv :: "string \<Rightarrow> string option"
  file_exists :: "string \<Rightarrow> bool"
  file_mode :: "string \<Rightarrow> nat option"
  file_text :: "string \<Rightarrow> string option"

abbreviation return_char :: char where "return_char \<equiv> CHR 0x0D"
abbreviation field_sep :: char where "field_sep \<equiv> CHR 0x3A"
abbreviation hash_sign :: char where "hash_sign \<equiv> CHR 0x23"

text \<open>\<open>str::lines\<close>: a line ends with a newline, which is removed with the carriage return before it.\<close>

definition strip_return :: "string \<Rightarrow> string" where
  "strip_return l = (if l \<noteq> [] \<and> last l = return_char then butlast l else l)"

definition lines :: "string \<Rightarrow> string list" where
  "lines s =
     (let ps = split_on newline s in
      map strip_return (butlast ps) @ (if last ps = [] then [] else [last ps]))"

text \<open>The loop of \<open>split_pgpass_line\<close>, with the field read so far.\<close>

fun split_pgpass_from :: "string \<Rightarrow> string \<Rightarrow> string list" where
  "split_pgpass_from current [] = [current]"
| "split_pgpass_from current [c] =
     (if c = field_sep then current # [[]] else [current @ [c]])"
| "split_pgpass_from current (c # d # ds) =
     (if c = backslash then
        (if d = field_sep then split_pgpass_from (current @ [field_sep]) ds
         else if d = backslash then split_pgpass_from (current @ [backslash]) ds
         else split_pgpass_from (current @ [backslash]) (d # ds))
      else if c = field_sep then current # split_pgpass_from [] (d # ds)
      else split_pgpass_from (current @ [c]) (d # ds))"

definition split_pgpass_line :: "string \<Rightarrow> string list" where
  "split_pgpass_line line = split_pgpass_from [] line"

definition pgpass_path :: "pgpass_env \<Rightarrow> string" where
  "pgpass_path env =
     (case getenv env ''PGPASSFILE'' of
        Some p \<Rightarrow> p
      | None \<Rightarrow>
          (let home = (case getenv env ''HOME'' of
               Some h \<Rightarrow> h
             | None \<Rightarrow> (case getenv env ''USERPROFILE'' of Some h \<Rightarrow> h | None \<Rightarrow> []))
           in home @ ''/.pgpass''))"

definition field_matches :: "string \<Rightarrow> string \<Rightarrow> bool" where
  "field_matches field value = (field = [] \<or> field = ''*'' \<or> field = value)"

text \<open>The loop over the lines.\<close>

fun search_lines :: "string \<Rightarrow> nat \<Rightarrow> string \<Rightarrow> string \<Rightarrow> string list \<Rightarrow> string option" where
  "search_lines host port database username [] = None"
| "search_lines host port database username (l # ls) =
     (let line = trim l in
      if line = [] \<or> hd line = hash_sign then search_lines host port database username ls
      else (case split_pgpass_line line of
          [h, p, d, u, pw] \<Rightarrow>
            if field_matches h host \<and> field_matches p (dec port) \<and> field_matches d database
               \<and> field_matches u username
            then Some pw
            else search_lines host port database username ls
        | _ \<Rightarrow> search_lines host port database username ls))"

definition get_password_from_pgpass ::
  "pgpass_env \<Rightarrow> string \<Rightarrow> nat \<Rightarrow> string \<Rightarrow> string \<Rightarrow> string + string option" where
  "get_password_from_pgpass env host port database username =
     (let path = pgpass_path env in
      if \<not> file_exists env path then Inr None
      else
        (let mode = (case file_mode env path of Some m \<Rightarrow> m mod 512 | None \<Rightarrow> 0) in
         if mode \<noteq> 384 then Inr None
         else (case file_text env path of
             None \<Rightarrow> Inl ''Failed to read .pgpass file''
           | Some content \<Rightarrow> Inr (search_lines host port database username (lines content)))))"

section \<open>What a password file means\<close>

record pgpass_entry =
  pgp_host :: string
  pgp_port :: string
  pgp_database :: string
  pgp_username :: string
  pgp_password :: string

definition escape_field :: "string \<Rightarrow> string" where
  "escape_field f = concat (map (\<lambda>c. if c = field_sep \<or> c = backslash then [backslash, c] else [c]) f)"

definition entry_fields :: "pgpass_entry \<Rightarrow> string list" where
  "entry_fields e = [pgp_host e, pgp_port e, pgp_database e, pgp_username e, pgp_password e]"

definition render_entry :: "pgpass_entry \<Rightarrow> string" where
  "render_entry e = join [field_sep] (map escape_field (entry_fields e))"

definition render_file :: "pgpass_entry list \<Rightarrow> string" where
  "render_file es = concat (map (\<lambda>e. render_entry e @ [newline]) es)"

definition entry_applies :: "string \<Rightarrow> nat \<Rightarrow> string \<Rightarrow> string \<Rightarrow> pgpass_entry \<Rightarrow> bool" where
  "entry_applies host port database username e =
     (field_matches (pgp_host e) host \<and> field_matches (pgp_port e) (dec port)
      \<and> field_matches (pgp_database e) database \<and> field_matches (pgp_username e) username)"

text \<open>An entry that fits on a line of its own, and is not taken for a comment.\<close>

definition one_line :: "pgpass_entry \<Rightarrow> bool" where
  "one_line e =
     (let l = render_entry e in
      newline \<notin> set l \<and> trim l = l \<and> hd l \<noteq> hash_sign \<and> last l \<noteq> return_char)"

lemma split_from_escaped:
  "split_pgpass_from current (escape_field f @ field_sep # rest) =
     (current @ f) # split_pgpass_from [] rest"
  "split_pgpass_from current (escape_field f) = [current @ f]"
proof (induction f arbitrary: current)
  case Nil
  {
    case 1
    show ?case by (cases rest) (simp_all add: escape_field_def)
  next
    case 2
    show ?case by (simp add: escape_field_def)
  }
next
  case (Cons c f)
  have step: "escape_field (c # f) = (if c = field_sep \<or> c = backslash then [backslash, c] else [c]) @ escape_field f"
    by (simp add: escape_field_def)
  {
    case 1
    obtain d ds where "escape_field f @ field_sep # rest = d # ds"
      by (cases "escape_field f") auto
    with Cons(1) [of "current @ [c]"] step show ?case by auto
  next
    case 2
    with Cons(2) [of "current @ [c]"] step show ?case
      by (cases "escape_field f") auto
  }
qed

lemma split_pgpass_rendered: "split_pgpass_line (render_entry e) = entry_fields e"
  by (simp add: split_pgpass_line_def render_entry_def entry_fields_def split_from_escaped)

lemma render_entry_nonempty: "render_entry e \<noteq> []"
  by (simp add: render_entry_def entry_fields_def)

lemma split_render_file:
  "list_all one_line es \<Longrightarrow> split_on newline (render_file es) = map render_entry es @ [[]]"
  by (induction es) (auto simp: render_file_def one_line_def Let_def split_on_append)

lemma lines_render_file:
  assumes "list_all one_line es"
  shows "lines (render_file es) = map render_entry es"
proof -
  have "strip_return (render_entry e) = render_entry e" if "e \<in> set es" for e
    using assms that by (auto simp: list_all_iff one_line_def Let_def strip_return_def)
  then show ?thesis by (simp add: lines_def Let_def split_render_file [OF assms])
qed

lemma search_rendered:
  "list_all one_line es \<Longrightarrow> search_lines host port database username (map render_entry es) =
     map_option pgp_password (find (entry_applies host port database username) es)"
proof (induction es)
  case (Cons e es)
  then have "trim (render_entry e) = render_entry e" "hd (render_entry e) \<noteq> hash_sign"
    by (simp_all add: one_line_def Let_def)
  with Cons show ?case
    by (simp add: Let_def render_entry_nonempty split_pgpass_rendered entry_fields_def entry_applies_def)
qed simp

text \<open>
  C30: A password file that lists entries, their fields written with colons and backslashes escaped,
  gives the password of the first entry whose host, port, database and user each are empty, a star or
  the value asked for. A file that is missing or whose permissions are not exactly 0600 gives none,
  whatever it contains.
\<close>

theorem pgpass_first_match:
  assumes "file_text env (pgpass_path env) = Some (render_file es)" and "list_all one_line es"
  shows "get_password_from_pgpass env host port database username = Inr
     (if file_exists env (pgpass_path env) \<and> map_option (\<lambda>m. m mod 512) (file_mode env (pgpass_path env)) = Some 384
      then map_option pgp_password (find (entry_applies host port database username) es)
      else None)"
  using assms
  by (auto simp: get_password_from_pgpass_def Let_def lines_render_file search_rendered split: option.splits)

definition example_entries :: "pgpass_entry list" where
  "example_entries =
     [\<lparr>pgp_host = ''db'', pgp_port = ''5433'', pgp_database = ''*'', pgp_username = ''me'', pgp_password = ''one''\<rparr>,
      \<lparr>pgp_host = ''::1'', pgp_port = ''*'', pgp_database = [], pgp_username = ''me'', pgp_password = ''a:b''\<rparr>]"

definition example_files :: "nat \<Rightarrow> pgpass_env" where
  "example_files mode =
     \<lparr>getenv = (\<lambda>v. if v = ''HOME'' then Some ''/home/me'' else None),
      file_exists = (\<lambda>p. p = ''/home/me/.pgpass''), file_mode = (\<lambda>p. Some mode),
      file_text = (\<lambda>p. Some (render_file example_entries))\<rparr>"

theorem pgpass_first_match_witness:
  "get_password_from_pgpass (example_files 384) ''::1'' 5432 ''app'' ''me'' = Inr (Some ''a:b'')
   \<and> get_password_from_pgpass (example_files 420) ''::1'' 5432 ''app'' ''me'' = Inr None"
proof -
  have path: "pgpass_path (example_files m) = ''/home/me/.pgpass''" for m
    by (simp add: example_files_def pgpass_path_def)
  have files: "file_text (example_files m) p = Some (render_file example_entries)"
      "file_mode (example_files m) p = Some m" "file_exists (example_files m) ''/home/me/.pgpass''" for m p
    by (simp_all add: example_files_def)
  have "list_all one_line example_entries" by code_simp
  note spec = pgpass_first_match [OF files(1) this, unfolded path]
  have "find (entry_applies ''::1'' 5432 ''app'' ''me'') example_entries = Some (example_entries ! 1)"
    by (simp add: example_entries_def entry_applies_def field_matches_def)
  then show ?thesis
    using spec [of 384 "''::1''" 5432 "''app''" "''me''"] spec [of 420 "''::1''" 5432 "''app''" "''me''"]
    by (simp add: files example_entries_def)
qed

end
