(* ===== verification/Connection.thy ===== *)
theory Connection
  imports Lag_Gate Keyword_Strings Credentials
begin

text \<open>
  \<open>src/connection.rs\<close>: where the connection parameters come from, the connection string, and what is
  checked and set on a new session. What \<open>connect_raw\<close> asks of the driver is in \<open>Tls\<close>; the driver's
  \<open>connect\<close> is the call \<open>q_connect\<close> of the environment. Times are not at issue here; numbers in SQL text are printed
  exactly (the model's \<open>f64\<close> values are not rounded).
\<close>

section \<open>Connection parameters\<close>

record connection_config =
  conn_host :: string
  conn_port :: nat
  conn_database :: string
  conn_username :: string
  conn_password :: "string option"
  conn_sslmode :: ssl_mode
  conn_ca_cert :: "string option"
  conn_client_cert :: "string option"
  conn_client_key :: "string option"
  conn_timeout_seconds :: nat

definition ssl_options_of :: "connection_config \<Rightarrow> ssl_options" where
  "ssl_options_of c =
     \<lparr>opt_sslmode = conn_sslmode c, opt_ca_cert = conn_ca_cert c, opt_client_cert = conn_client_cert c,
      opt_client_key = conn_client_key c\<rparr>"

text \<open>\<open>str::parse::<u16>\<close>: decimal digits after an optional plus sign.\<close>

definition is_digit :: "char \<Rightarrow> bool" where
  "is_digit c = (48 \<le> (of_char c :: nat) \<and> (of_char c :: nat) \<le> 57)"

definition parse_u16 :: "string \<Rightarrow> nat option" where
  "parse_u16 s =
     (let ds = (if s \<noteq> [] \<and> hd s = CHR ''+'' then tl s else s);
          n = foldl (\<lambda>n c. n * 10 + (of_char c - 48)) 0 ds
      in if ds \<noteq> [] \<and> list_all is_digit ds \<and> n \<le> 65535 then Some n else None)"

definition env_password :: "pgpass_env \<Rightarrow> string option" where
  "env_password env =
     (case getenv env ''PG_PASSWORD'' of Some p \<Rightarrow> if p = [] then None else Some p | None \<Rightarrow> None)"

definition file_password :: "pgpass_env \<Rightarrow> string option" where
  "file_password env =
     Option.bind (getenv env ''PG_PASSWORD_FILE'') (\<lambda>path. map_option trim_end (file_text env path))"

definition unwrap_or :: "'a option \<Rightarrow> 'a \<Rightarrow> 'a" where
  "unwrap_or x d = (case x of None \<Rightarrow> d | Some y \<Rightarrow> y)"

definition from_args ::
  "pgpass_env \<Rightarrow> string option \<Rightarrow> nat option \<Rightarrow> string option \<Rightarrow> string option \<Rightarrow> string option \<Rightarrow> ssl_mode \<Rightarrow>
     string option \<Rightarrow> string option \<Rightarrow> string option \<Rightarrow> nat \<Rightarrow> connection_config" where
  "from_args env host port database username password sslmode ca cert key timeout =
     (let host = unwrap_or (option_or host (getenv env ''PG_HOST'')) DEFAULT_POSTGRES_HOST;
          port = unwrap_or (option_or port (Option.bind (getenv env ''PG_PORT'') parse_u16))
                   DEFAULT_POSTGRES_PORT;
          database = unwrap_or (option_or database (getenv env ''PG_DATABASE'')) DEFAULT_POSTGRES_DATABASE;
          username = unwrap_or (option_or username (getenv env ''PG_USER'')) DEFAULT_POSTGRES_USERNAME;
          from_file = (case get_password_from_pgpass env host port database username of
                         Inr p \<Rightarrow> p | Inl _ \<Rightarrow> None)
      in \<lparr>conn_host = host, conn_port = port, conn_database = database, conn_username = username,
          conn_password = option_or password
            (option_or (env_password env) (option_or (file_password env) from_file)),
          conn_sslmode = sslmode, conn_ca_cert = ca, conn_client_cert = cert, conn_client_key = key,
          conn_timeout_seconds = timeout\<rparr>)"

definition build_connection_string :: "connection_config \<Rightarrow> string" where
  "build_connection_string c =
     ''host='' @ escape_libpq_value (conn_host c) @ '' port='' @ dec (conn_port c) @
     '' dbname='' @ escape_libpq_value (conn_database c) @ '' user='' @ escape_libpq_value (conn_username c) @
     '' connect_timeout='' @ dec (conn_timeout_seconds c) @
     (case conn_password c of Some pw \<Rightarrow> '' password='' @ escape_libpq_value pw | None \<Rightarrow> [])"

section \<open>The session\<close>

abbreviation query :: "string \<Rightarrow> ('w, pg_error + 'a) call \<Rightarrow> ('w, error + 'a) run" where
  "query msg q \<equiv> map_error (context_pg msg) (call_env q (\<lambda>_. []))"

abbreviation run_sql :: "'w env \<Rightarrow> string \<Rightarrow> string \<Rightarrow> ('w, error + unit) run" where
  "run_sql env msg sql \<equiv> map_error (context_pg msg) (execute env sql)"

definition get_server_version_num :: "'w env \<Rightarrow> ('w, error + int) run" where
  "get_server_version_num env = query ''Failed to read server_version_num'' (q_server_version_num env)"

definition get_is_in_recovery :: "'w env \<Rightarrow> ('w, error + bool) run" where
  "get_is_in_recovery env = query ''Failed to read pg_is_in_recovery()'' (q_is_in_recovery env)"

definition format_pg_version :: "int \<Rightarrow> string" where
  "format_pg_version v =
     (if 100000 \<le> v then dec_int (v div 10000) @ ''.'' @ dec_int (v mod 10000)
      else dec_int (v div 10000) @ ''.'' @ dec_int ((v div 100) mod 100) @ ''.'' @ dec_int (v mod 100))"

definition statement_timeout_sql :: "nat \<Rightarrow> string" where
  "statement_timeout_sql n =
     (if n = 0 then ''SET statement_timeout TO 0''
      else ''SET statement_timeout TO '' @ [squote] @ dec n @ ''s'' @ [squote])"

definition SET_IDLE_SESSION_TIMEOUT :: string where
  "SET_IDLE_SESSION_TIMEOUT = ''SET idle_session_timeout TO 0''"

definition SET_APPLICATION_NAME :: string where
  "SET_APPLICATION_NAME = ''SET application_name TO '' @ [squote] @ ''pg-maintainer'' @ [squote]"

text \<open>The files are read before the driver is called, at one moment of the machine.\<close>

definition current_files :: "'w env \<Rightarrow> ('w, file_reader) run" where
  "current_files env = State (\<lambda>s. (q_files env (world s), s))"

definition connect_raw :: "'w env \<Rightarrow> string \<Rightarrow> ssl_options \<Rightarrow> ('w, error + unit) run" where
  "connect_raw env connection_string opts = do {
     fs \<leftarrow> current_files env;
     case connect_request (tls env) fs connection_string opts of
       Inl e \<Rightarrow> ret (Inl e)
     | Inr (tr, cfg) \<Rightarrow>
         map_error (context_pg (connect_failure tr)) (call_env (q_connect env tr cfg) (\<lambda>r. [EConnect tr cfg r]))
   }"

definition too_old :: "int \<Rightarrow> string" where
  "too_old version_num =
     ''pg-maintainer requires '' @ MIN_SUPPORTED_PG_VERSION_LABEL @ ''+ '' @ em_dash @
     '' connected server reports '' @ format_pg_version version_num @ ''. '' @
     ''Session settings this tool depends on (e.g. idle_session_timeout) '' @
     ''were introduced in PostgreSQL 14; older servers are not supported.''"

definition not_primary :: string where
  "not_primary =
     ''pg-maintainer refuses to run against a standby: this connection is to '' @
     ''a server in recovery (pg_is_in_recovery() = true), not a primary. '' @
     ''Point --host/--dsn (or the connection'' @ [squote] @ ''s load balancer/proxy) at the '' @
     ''primary instead.''"

text \<open>What \<open>connect\<close> does on the open connection.\<close>

definition set_up_connection :: "'w env \<Rightarrow> nat \<Rightarrow> ('w, error + unit) run" where
  "set_up_connection env statement_timeout_seconds =
     try_run (get_server_version_num env) (\<lambda>version_num.
       if version_num < MIN_SUPPORTED_PG_VERSION_NUM then ret (Inl (error_from_text (too_old version_num)))
       else try_run (get_is_in_recovery env) (\<lambda>in_recovery.
         if in_recovery then ret (Inl (error_from_text not_primary))
         else
           try_run (run_sql env ''Failed to set statement_timeout''
             (statement_timeout_sql statement_timeout_seconds)) (\<lambda>_.
           try_run (run_sql env ''Failed to set idle_session_timeout'' SET_IDLE_SESSION_TIMEOUT) (\<lambda>_.
             run_sql env ''Failed to set application_name'' SET_APPLICATION_NAME))))"

definition connect :: "'w env \<Rightarrow> string \<Rightarrow> ssl_options \<Rightarrow> nat \<Rightarrow> ('w, error + unit) run" where
  "connect env connection_string opts statement_timeout_seconds =
     try_run (connect_raw env connection_string opts) (\<lambda>_.
       set_up_connection env statement_timeout_seconds)"

definition set_lock_timeout :: "'w env \<Rightarrow> nat \<Rightarrow> ('w, error + unit) run" where
  "set_lock_timeout env timeout_ms =
     run_sql env ''Failed to set lock_timeout''
       (''SET lock_timeout TO '' @ [squote] @ dec timeout_ms @ ''ms'' @ [squote])"

definition set_maintenance_work_mem :: "'w env \<Rightarrow> nat \<Rightarrow> ('w, error + unit) run" where
  "set_maintenance_work_mem env gb =
     run_sql env ''Failed to set maintenance_work_mem''
       (''SET maintenance_work_mem TO '' @ [squote] @ dec gb @ ''GB'' @ [squote])"

definition set_vacuum_cost_delay :: "'w env \<Rightarrow> f64 \<Rightarrow> ('w, error + unit) run" where
  "set_vacuum_cost_delay env delay =
     run_sql env ''Failed to set vacuum_cost_delay''
       (''SET vacuum_cost_delay TO '' @ [squote] @ show_f64 delay @ ''ms'' @ [squote])"

definition set_vacuum_cost_limit :: "'w env \<Rightarrow> int \<Rightarrow> ('w, error + unit) run" where
  "set_vacuum_cost_limit env lmt =
     run_sql env ''Failed to set vacuum_cost_limit'' (''SET vacuum_cost_limit TO '' @ dec_int lmt)"

text \<open>The sizes are not negative, so \<open>div\<close> is Rust's division.\<close>

definition buffer_limit_kb :: "int \<Rightarrow> int" where
  "buffer_limit_kb shared_buffers_bytes = max (shared_buffers_bytes div 16) (128 * 1024) div 1024"

definition set_vacuum_buffer_usage_limit :: "'w env \<Rightarrow> ('w, error + (int \<times> int)) run" where
  "set_vacuum_buffer_usage_limit env =
     try_run (query ''Failed to read shared_buffers'' (q_shared_buffers env)) (\<lambda>bytes.
     try_run (run_sql env ''Failed to set vacuum_buffer_usage_limit''
       (''SET vacuum_buffer_usage_limit TO '' @ [squote] @ dec_int (buffer_limit_kb bytes) @ ''kB'' @ [squote])) (\<lambda>_.
       ret (Inr (bytes div 1024, buffer_limit_kb bytes))))"

text \<open>\<open>requested\<close> is a \<open>u32\<close>; \<open>i32::try_from\<close> fails above \<open>i32::MAX\<close>.\<close>

definition effective_parallel_workers :: "nat option \<Rightarrow> int \<Rightarrow> int" where
  "effective_parallel_workers requested max_parallel_workers =
     (case requested of
        Some n \<Rightarrow> min (if int n \<le> i32_max then int n else i32_max) max_parallel_workers
      | None \<Rightarrow> max_parallel_workers)"

definition set_max_parallel_maintenance_workers :: "'w env \<Rightarrow> nat option \<Rightarrow> ('w, error + int) run" where
  "set_max_parallel_maintenance_workers env requested =
     try_run (query ''Failed to read max_parallel_workers'' (q_max_parallel_workers env)) (\<lambda>max_parallel_workers.
     let applied = effective_parallel_workers requested max_parallel_workers in
     try_run (run_sql env ''Failed to set max_parallel_maintenance_workers''
       (''SET max_parallel_maintenance_workers TO '' @ dec_int applied)) (\<lambda>_. ret (Inr applied)))"

section \<open>The connection string\<close>

text \<open>The parameters that the connection string is to carry.\<close>

definition connection_pairs :: "connection_config \<Rightarrow> (string \<times> string) list" where
  "connection_pairs c =
     [(''host'', conn_host c), (''port'', dec (conn_port c)), (''dbname'', conn_database c),
      (''user'', conn_username c), (''connect_timeout'', dec (conn_timeout_seconds c))] @
     (case conn_password c of Some pw \<Rightarrow> [(''password'', pw)] | None \<Rightarrow> [])"

lemma dec_is_digit: "c \<in> set (dec n) \<Longrightarrow> is_digit c"
proof (induction n rule: dec.induct)
  case (1 n)
  show ?case
  proof (cases "n < 10")
    case True
    with 1(2) show ?thesis by (subst (asm) dec.simps) (auto simp: is_digit_def)
  next
    case False
    with 1(2) have "c \<in> set (dec (n div 10)) \<or> c = char_of (48 + n mod 10)"
      by (subst (asm) dec.simps) auto
    with 1(1) False show ?thesis by (auto simp: is_digit_def)
  qed
qed

lemma digits_no_ws: "list_all is_digit s \<Longrightarrow> \<not> has_ws s \<and> squote \<notin> set s \<and> backslash \<notin> set s"
proof (induction s)
  case (Cons c s)
  then have c: "is_digit c" by simp
  then have "is_ascii c" "\<not> ascii_ws c" by (auto simp: is_digit_def is_ascii_def ascii_ws_def)
  then have "ws_len (c # s) = 0" by (rule ws_len_ascii)
  with Cons c show ?case by (auto simp: is_digit_def)
qed simp

lemma dec_plain [simp]: "\<not> has_ws (dec n)" "squote \<notin> set (dec n)" "backslash \<notin> set (dec n)"
  using digits_no_ws [of "dec n"] dec_is_digit by (simp_all add: list_all_iff)

lemma escape_dec: "escape_libpq_value (dec n) = dec n"
  by (simp add: escape_libpq_value_def needs_quotes_def)

lemma connection_string_pairs:
  "build_connection_string c = join [space] (map (keyword_pair escape_libpq_value) (connection_pairs c))"
  by (simp add: build_connection_string_def connection_pairs_def keyword_pair_def escape_dec
      split: option.split)

lemma parameter_names:
  "keyword_name ''host''" "keyword_name ''port''" "keyword_name ''dbname''" "keyword_name ''user''"
  "keyword_name ''connect_timeout''" "keyword_name ''password''"
  by code_simp+

text \<open>
  C36: The connection string carries exactly the resolved parameters: read back by the rules for keyword
  strings, it gives host, port, database, user, timeout and password as they were, whatever white space,
  quotes and backslashes they contain, provided that none of them is empty.
\<close>

theorem connection_string_reads_back:
  assumes "conn_host c \<noteq> []" "conn_database c \<noteq> []" "conn_username c \<noteq> []" "conn_password c \<noteq> Some []"
  shows "split_keyword_pairs (build_connection_string c) = Inr (connection_pairs c)"
  unfolding connection_string_pairs
  by (rule libpq_writer.split_written)
    (use assms in \<open>auto simp: connection_pairs_def parameter_names split: option.splits\<close>)

definition example_config :: connection_config where
  "example_config =
     \<lparr>conn_host = ''db'', conn_port = 5432, conn_database = ''my db'', conn_username = ''me'',
      conn_password = Some [CHR ''a'', squote, CHR ''b''], conn_sslmode = SslDisable, conn_ca_cert = None,
      conn_client_cert = None, conn_client_key = None, conn_timeout_seconds = 10\<rparr>"

theorem connection_string_reads_back_witness:
  "split_keyword_pairs (build_connection_string example_config) = Inr (connection_pairs example_config)"
  by (rule connection_string_reads_back) (simp_all add: example_config_def)

text \<open>
  An empty host corrupts the string instead: empty values are written without quotes, unlike in the
  writer they are said to mirror, so the port parameter is read as the host and no port is left.
\<close>

theorem empty_host_swallows_port:
  assumes "conn_host c = []" "conn_database c \<noteq> []" "conn_username c \<noteq> []" "conn_password c \<noteq> Some []"
  shows "split_keyword_pairs (build_connection_string c) =
     Inr ((''host'', ''port='' @ dec (conn_port c)) # drop 2 (connection_pairs c))"
proof -
  let ?port = "''port='' @ dec (conn_port c)"
  let ?rest = "join [space] (map (keyword_pair escape_libpq_value) (drop 2 (connection_pairs c)))"
  have "\<not> has_ws ?port" by (simp add: ws_len_ascii is_ascii_def ascii_ws_def)
  then have port: "escape_libpq_value ?port = ?port"
    by (simp add: escape_libpq_value_def needs_quotes_def)
  have rest: "split_keyword_pairs ?rest = Inr (drop 2 (connection_pairs c))"
    by (rule libpq_writer.split_written)
      (use assms in \<open>auto simp: connection_pairs_def parameter_names split: option.splits\<close>)
  have "next_pair (keyword_pair escape_libpq_value (''host'', ?port) @ space # ?rest) =
      Inr (Some ((''host'', ?port), space # ?rest))"
    by (rule libpq_writer.next_pair_written) (simp_all add: parameter_names ends_value_def)
  then have "next_pair (''host'' @ equals_sign # ?port @ space # ?rest) =
      Inr (Some ((''host'', ?port), space # ?rest))"
    unfolding keyword_pair_def fst_conv snd_conv port by simp
  then have "next_pair (''host'' @ equals_sign # space # ?port @ space # ?rest) =
      Inr (Some ((''host'', ?port), space # ?rest))"
    by (simp only: next_pair_skip [OF parameter_names(1)])
  moreover have "build_connection_string c = ''host'' @ equals_sign # space # ?port @ space # ?rest"
    using assms(1) by (simp add: connection_string_pairs connection_pairs_def keyword_pair_def escape_dec
        escape_libpq_value_def needs_quotes_def split: option.split)
  ultimately show ?thesis
    using rest by (subst split_keyword_pairs.simps) (simp add: libpq_writer.split_space)
qed

theorem empty_host_swallows_port_witness:
  "split_keyword_pairs (build_connection_string (example_config\<lparr>conn_host := []\<rparr>)) =
     Inr ((''host'', ''port='' @ dec 5432) # drop 2 (connection_pairs example_config))"
  using empty_host_swallows_port [of "example_config\<lparr>conn_host := []\<rparr>"]
  by (simp add: example_config_def connection_pairs_def)

section \<open>What a new session is checked for\<close>

lemma run_execute:
  "run_state (execute env sql) s =
     (case q_execute env sql (world s) of (r, d, w) \<Rightarrow>
        (r, s\<lparr>world := w, clock := clock s + d, trace := trace s @ [ESql sql r (clock s)]\<rparr>))"
  by (simp add: execute_def call_env_def split: prod.split)

lemma run_query:
  "run_state (query msg q) s =
     (case q (world s) of (r, d, w) \<Rightarrow>
        (map_sum (context_pg msg) id r, s\<lparr>world := w, clock := clock s + d\<rparr>))"
  by (auto simp: run_call_env split: prod.split sum.split)

lemma run_run_sql:
  "run_state (run_sql env msg sql) s =
     (case q_execute env sql (world s) of (r, d, w) \<Rightarrow>
        (map_sum (context_pg msg) id r,
         s\<lparr>world := w, clock := clock s + d, trace := trace s @ [ESql sql r (clock s)]\<rparr>))"
  by (auto simp: run_execute split: prod.split sum.split)

lemma run_connect_raw:
  "run_state (connect_raw env cs opts) s =
     (case connect_request (tls env) (q_files env (world s)) cs opts of
        Inl e \<Rightarrow> (Inl e, s)
      | Inr (tr, cfg) \<Rightarrow> (case q_connect env tr cfg (world s) of (r, d, w) \<Rightarrow>
          (map_sum (context_pg (connect_failure tr)) id r,
           s\<lparr>world := w, clock := clock s + d, trace := trace s @ [EConnect tr cfg r]\<rparr>)))"
  by (auto simp: connect_raw_def current_files_def run_call_env split: sum.split prod.split)

definition sql_of :: "event \<Rightarrow> string" where
  "sql_of e = (case e of ESql sql r n \<Rightarrow> sql | _ \<Rightarrow> [])"

definition accepted :: "event \<Rightarrow> bool" where
  "accepted e = (case e of ESql sql r n \<Rightarrow> r = Inr () | _ \<Rightarrow> False)"

lemma set_up_connection_spec:
  assumes "run_state (set_up_connection env timeout) s = (r, s')"
  shows "\<exists>es. trace s' = trace s @ es \<and> statements es = es
       \<and> (r = Inr () \<longrightarrow>
            map sql_of es = [statement_timeout_sql timeout, SET_IDLE_SESSION_TIMEOUT, SET_APPLICATION_NAME]
            \<and> list_all accepted es
            \<and> (\<exists>w v. fst (q_server_version_num env w) = Inr v \<and> MIN_SUPPORTED_PG_VERSION_NUM \<le> v)
            \<and> (\<exists>w. fst (q_is_in_recovery env w) = Inr False))
       \<and> ((\<forall>w v. fst (q_server_version_num env w) = Inr v \<longrightarrow> v < MIN_SUPPORTED_PG_VERSION_NUM)
            \<or> (\<forall>w. fst (q_is_in_recovery env w) \<noteq> Inr False)
          \<longrightarrow> (\<exists>e. r = Inl e) \<and> es = [])"
proof -
  obtain v d2 w2 where 2: "q_server_version_num env (world s) = (v, d2, w2)" by (metis prod_cases3)
  obtain b d3 w3 where 3: "q_is_in_recovery env w2 = (b, d3, w3)" by (metis prod_cases3)
  have evidence: "fst (q_server_version_num env (world s)) = v" "fst (q_is_in_recovery env w2) = b"
    using 2 3 by simp_all
  note run = set_up_connection_def get_server_version_num_def get_is_in_recovery_def run_query run_run_sql
  show ?thesis
  proof (cases "\<exists>v'. v = Inr v' \<and> MIN_SUPPORTED_PG_VERSION_NUM \<le> v' \<and> b = Inr False")
    case True
    then obtain v' where ok: "v = Inr v'" "\<not> v' < MIN_SUPPORTED_PG_VERSION_NUM" "b = Inr False" by auto
    obtain r4 d4 w4 where 4: "q_execute env (statement_timeout_sql timeout) w3 = (r4, d4, w4)" by (metis prod_cases3)
    obtain r5 d5 w5 where 5: "q_execute env SET_IDLE_SESSION_TIMEOUT w4 = (r5, d5, w5)" by (metis prod_cases3)
    obtain r6 d6 w6 where 6: "q_execute env SET_APPLICATION_NAME w5 = (r6, d6, w6)" by (metis prod_cases3)
    have no: "\<not> (\<forall>w v. fst (q_server_version_num env w) = Inr v \<longrightarrow> v < MIN_SUPPORTED_PG_VERSION_NUM)"
      "\<not> (\<forall>w. fst (q_is_in_recovery env w) \<noteq> Inr False)"
      using evidence ok by blast+
    have "\<exists>es. trace s' = trace s @ es \<and> statements es = es \<and> (r = Inr () \<longrightarrow>
        map sql_of es = [statement_timeout_sql timeout, SET_IDLE_SESSION_TIMEOUT, SET_APPLICATION_NAME]
        \<and> list_all accepted es)"
      using assms
      by (cases r4; cases r5; cases r6)
        (auto simp: run ok 2 [unfolded ok] 3 [unfolded ok] 4 5 6 statements_def sql_of_def accepted_def
          simp del: run_map_error)
    with no evidence ok show ?thesis by (meson not_less)
  next
    case False
    then have "(\<exists>e. r = Inl e) \<and> trace s' = trace s"
      using assms
      by (cases v; cases b) (auto simp: run 2 3 simp del: run_map_error split: if_splits)
    then show ?thesis by (intro exI [of _ "[]"]) (auto simp: statements_def)
  qed
qed

definition example_ssl :: ssl_options where
  "example_ssl =
     \<lparr>opt_sslmode = SslVerifyFull, opt_ca_cert = Some ''ca.pem'', opt_client_cert = None, opt_client_key = None\<rparr>"

text \<open>
  C35: A session is used only after the checks. When connecting succeeds, the connection was opened as configured, the
  server answered with a version from 14 on and as not being in recovery, and then exactly the three
  session settings were sent, in order, and accepted. If the server is too old, or cannot be seen to be
  a primary, connecting fails and nothing was sent at all.
\<close>

theorem session_checked_first:
  assumes "run_state (connect env cs opts timeout) s = (r, s')"
  shows "\<exists>es. trace s' = trace s @ es
       \<and> (r = Inr () \<longrightarrow>
            map sql_of (statements es) =
              [statement_timeout_sql timeout, SET_IDLE_SESSION_TIMEOUT, SET_APPLICATION_NAME]
            \<and> list_all accepted (statements es)
            \<and> (\<exists>tr cfg. es = EConnect tr cfg (Inr ()) # statements es
                 \<and> as_configured (tls env) (q_files env (world s)) opts tr cfg)
            \<and> (\<exists>w v. fst (q_server_version_num env w) = Inr v \<and> MIN_SUPPORTED_PG_VERSION_NUM \<le> v)
            \<and> (\<exists>w. fst (q_is_in_recovery env w) = Inr False))
       \<and> ((\<forall>w v. fst (q_server_version_num env w) = Inr v \<longrightarrow> v < MIN_SUPPORTED_PG_VERSION_NUM)
            \<or> (\<forall>w. fst (q_is_in_recovery env w) \<noteq> Inr False)
          \<longrightarrow> (\<exists>e. r = Inl e) \<and> statements es = [])"
proof -
  let ?no = "(\<forall>w v. fst (q_server_version_num env w) = Inr v \<longrightarrow> v < MIN_SUPPORTED_PG_VERSION_NUM)
            \<or> (\<forall>w. fst (q_is_in_recovery env w) \<noteq> Inr False)"
  show ?thesis
  proof (cases "connect_request (tls env) (q_files env (world s)) cs opts")
    case (Inl e)
    with assms have "r = Inl e" "s' = s" by (simp_all add: connect_def run_connect_raw)
    then show ?thesis by (intro exI [of _ "[]"]) (simp add: statements_def)
  next
    case (Inr req)
    then obtain tr cfg where req: "connect_request (tls env) (q_files env (world s)) cs opts = Inr (tr, cfg)"
      by (cases req) simp
    obtain c d1 w1 where 1: "q_connect env tr cfg (world s) = (c, d1, w1)" by (metis prod_cases3)
    let ?s1 = "s\<lparr>world := w1, clock := clock s + d1, trace := trace s @ [EConnect tr cfg c]\<rparr>"
    have raw: "run_state (connect_raw env cs opts) s = (map_sum (context_pg (connect_failure tr)) id c, ?s1)"
      by (simp add: run_connect_raw req 1)
    show ?thesis
    proof (cases c)
      case (Inl e)
      with assms raw have "\<exists>e. r = Inl e" "s' = ?s1" by (auto simp: connect_def)
      then show ?thesis by (intro exI [of _ "[EConnect tr cfg c]"]) (auto simp: statements_def)
    next
      case (Inr u)
      with assms raw have "run_state (set_up_connection env timeout) ?s1 = (r, s')"
        by (simp add: connect_def)
      from set_up_connection_spec [OF this] obtain es where "trace s' = trace ?s1 @ es" "statements es = es"
        "r = Inr () \<longrightarrow> map sql_of es = [statement_timeout_sql timeout, SET_IDLE_SESSION_TIMEOUT, SET_APPLICATION_NAME]
           \<and> list_all accepted es
           \<and> (\<exists>w v. fst (q_server_version_num env w) = Inr v \<and> MIN_SUPPORTED_PG_VERSION_NUM \<le> v)
           \<and> (\<exists>w. fst (q_is_in_recovery env w) = Inr False)"
        "?no \<longrightarrow> (\<exists>e. r = Inl e) \<and> es = []" by (elim exE conjE)
      moreover have "as_configured (tls env) (q_files env (world s)) opts tr cfg"
        by (rule connect_request_as_configured [OF req])
      ultimately show ?thesis
        using Inr by (intro exI [of _ "EConnect tr cfg c # es"]) (auto simp: statements_def)
    qed
  qed
qed

theorem session_checked_first_witness:
  "\<exists>es. trace (snd (run_state (connect (scripted_env\<lparr>q_is_in_recovery := (\<lambda>w. (Inr True, 5, w))\<rparr>) [] example_ssl 0)
            (initial_state []))) = es \<and> statements es = []"
  using session_checked_first [OF surjective_pairing, of "scripted_env\<lparr>q_is_in_recovery := (\<lambda>w. (Inr True, 5, w))\<rparr>"
      "[]" example_ssl 0 "initial_state []"]
  by (auto simp: initial_state_def)

end
