(* ===== verification/Catalog_Facts.thy ===== *)
theory Catalog_Facts
  imports Catalog
begin

text \<open>
  What the discovery queries promise. The specification \<open>best_of\<close> says what \<open>WHERE\<close>, \<open>ORDER BY\<close> and
  \<open>LIMIT\<close> mean together without fixing the order of ties; the locale \<open>row_source\<close> is the contract of an
  ordering, and its lemma gives the specification for every query.
\<close>

section \<open>Filter, order and limit\<close>

definition fits_limit :: "nat option \<Rightarrow> 'r list \<Rightarrow> 'r list \<Rightarrow> bool" where
  "fits_limit n out rest =
     (case n of None \<Rightarrow> rest = [] | Some k \<Rightarrow> length out \<le> k \<and> (rest = [] \<or> length out = k))"

text \<open>
  \<open>out\<close> is a best choice of at most \<open>n\<close> of the rows that qualify: it is in order, what is left over
  does not rank before any row chosen, and nothing is left over unless the limit is reached.
\<close>

definition best_of :: "('r \<Rightarrow> 'r \<Rightarrow> bool) \<Rightarrow> nat option \<Rightarrow> ('r \<Rightarrow> bool) \<Rightarrow> 'r list \<Rightarrow> 'r list \<Rightarrow> bool" where
  "best_of le n elig rows out =
     (\<exists>rest. mset (filter elig rows) = mset out + mset rest \<and> sorted_wrt le out
        \<and> (\<forall>x\<in>set out. \<forall>y\<in>set rest. le x y) \<and> fits_limit n out rest)"

lemma best_of_mem: "best_of le n elig rows out \<Longrightarrow> x \<in> set out \<Longrightarrow> x \<in> set rows \<and> elig x"
proof -
  assume "best_of le n elig rows out" and x: "x \<in> set out"
  then obtain rest where "mset (filter elig rows) = mset out + mset rest"
    unfolding best_of_def by blast
  then have "set (filter elig rows) = set out \<union> set rest"
    by (metis set_mset_mset set_mset_union)
  with x show ?thesis by auto
qed

locale row_source =
  fixes ord :: "'r list \<Rightarrow> 'r list" and le :: "'r \<Rightarrow> 'r \<Rightarrow> bool"
  assumes ord_mset: "mset (ord xs) = mset xs"
    and ord_sorted: "sorted_wrt le (ord xs)"
begin

lemma take_best: "best_of le n elig rows (take_opt n (ord (filter elig rows)))"
proof (cases n)
  case None
  then show ?thesis
    unfolding best_of_def fits_limit_def take_opt_def
    by (intro exI [of _ "[]"]) (simp add: ord_mset ord_sorted)
next
  case (Some k)
  let ?rows = "ord (filter elig rows)"
  have "mset (filter elig rows) = mset (take k ?rows) + mset (drop k ?rows)"
    using ord_mset [of "filter elig rows"] by (metis append_take_drop_id mset_append)
  moreover have "sorted_wrt le (take k ?rows @ drop k ?rows)" using ord_sorted by simp
  then have "sorted_wrt le (take k ?rows)" "\<forall>x\<in>set (take k ?rows). \<forall>y\<in>set (drop k ?rows). le x y"
    unfolding sorted_wrt_append by blast+
  moreover have "fits_limit (Some k) (take k ?rows) (drop k ?rows)"
    by (auto simp: fits_limit_def)
  ultimately show ?thesis
    unfolding best_of_def take_opt_def Some option.case by blast
qed

lemma set_ord: "set (ord xs) = set xs"
  by (metis ord_mset set_mset_mset)

lemma take_all:
  assumes "tbl = None \<longrightarrow> int (length rows) \<le> lmt"
  shows "set (take_opt (row_limit tbl lmt) (ord (filter elig rows))) = {x \<in> set rows. elig x}"
proof -
  have "length (ord (filter elig rows)) = length (filter elig rows)" by (metis ord_mset size_mset)
  then have short: "length (ord (filter elig rows)) \<le> length rows" by simp
  have "take_opt (row_limit tbl lmt) (ord (filter elig rows)) = ord (filter elig rows)"
  proof (cases tbl)
    case None
    with assms short have "length (ord (filter elig rows)) \<le> nat lmt" by linarith
    with None show ?thesis by (simp add: take_opt_def row_limit_def)
  qed (simp add: take_opt_def row_limit_def)
  then show ?thesis by (simp add: set_ord)
qed

lemma take_mem: "x \<in> set (take_opt n (ord xs)) \<Longrightarrow> x \<in> set xs"
  using set_ord by (auto simp: take_opt_def dest: in_set_takeD split: option.splits)

end

interpretation keyed: row_source "sort_key key" "\<lambda>x y. key x \<le> key y" for key :: "'r \<Rightarrow> 'k :: linorder"
proof unfold_locales
  show "mset (sort_key key xs) = mset xs" for xs by simp
  show "sorted_wrt (\<lambda>x y. key x \<le> key y) (sort_key key xs)" for xs
    using sorted_sort_key [of key xs] by (simp add: sorted_map)
qed

definition ranks_before ::
  "order_by option \<Rightarrow> (pg_relation \<Rightarrow> 'k :: linorder) \<Rightarrow> (pg_relation \<Rightarrow> int option) \<Rightarrow>
     pg_relation \<Rightarrow> pg_relation \<Rightarrow> bool" where
  "ranks_before order default_key maintained x y =
     (case order of
        None \<Rightarrow> default_key x \<le> default_key y
      | Some BySize \<Rightarrow> size_desc x \<le> size_desc y
      | Some ByLastMaintained \<Rightarrow> maintained x \<le> maintained y)"

interpretation ordered: row_source "order_rows order dk m" "ranks_before order dk m"
  for order and dk :: "pg_relation \<Rightarrow> 'k :: linorder" and m
proof unfold_locales
  show "mset (order_rows order dk m xs) = mset xs" for xs
    by (simp add: order_rows_def split: option.split order_by.split)
  show "sorted_wrt (ranks_before order dk m) (order_rows order dk m xs)" for xs
    unfolding ranks_before_def order_rows_def
    by (cases order) (auto simp: keyed.ord_sorted split: order_by.split)
qed

definition merge_before ::
  "order_by option \<Rightarrow> needs_vacuum_table_info \<Rightarrow> needs_vacuum_table_info \<Rightarrow> bool" where
  "merge_before order x y =
     (case order of
        None \<Rightarrow> n_dead_tup y \<le> n_dead_tup x
      | Some BySize \<Rightarrow> size_bytes y \<le> size_bytes x
      | Some ByLastMaintained \<Rightarrow> last_maintained x \<le> last_maintained y)"

interpretation merged: row_source "merge_order order" "merge_before order" for order
proof unfold_locales
  show "mset (merge_order order xs) = mset xs" for xs
    by (simp add: merge_order_def split: option.split order_by.split)
  show "sorted_wrt (merge_before order) (merge_order order xs)" for xs
    unfolding merge_before_def merge_order_def
    using keyed.ord_sorted [of "\<lambda>t. - n_dead_tup t" xs] keyed.ord_sorted [of "\<lambda>t. - size_bytes t" xs]
      keyed.ord_sorted [of last_maintained xs]
    by (cases order) (auto split: order_by.split)
qed

text \<open>
  Every discovery query refines the specification of what it is to find: it returns, as rows, a
  best choice, within the limit, of the relations that meet its condition, in the order asked for
  (most dead tuples, most live tuples, oldest transaction, highest share of dead tuples or longest
  untouched first by default). In the variants for a single table there is no limit and the default
  order applies whatever was asked.
\<close>

theorem queries_refine_best_of:
  "(\<exists>out. FIND_NEVER_VACUUMED schemas tbl lo hi lmt order s = map (table_row last_vacuumed) out
      \<and> best_of (ranks_before (row_order tbl order) (\<lambda>r. (desc_nulls_last (dead r), desc_nulls_last (live r)))
           (\<lambda>r. last_vacuumed (rel_user_stats r)))
         (row_limit tbl lmt) (\<lambda>r. user_table schemas tbl lo hi r \<and> never_vacuumed r) (rels s) out)
   \<and> (\<exists>out. FIND_NEVER_ANALYZED schemas tbl lo hi lmt order s = map (table_row last_analyzed) out
      \<and> best_of (ranks_before (row_order tbl order) (\<lambda>r. desc_nulls_last (live r))
           (\<lambda>r. last_analyzed (rel_user_stats r)))
         (row_limit tbl lmt) (\<lambda>r. user_table schemas tbl lo hi r \<and> never_analyzed r) (rels s) out)
   \<and> (\<exists>out. FIND_WRAPAROUND_CANDIDATES schemas min_age tbl lo hi lmt order s = map (freeze_row s) out
      \<and> best_of (ranks_before (row_order tbl order) (\<lambda>r. - rel_xid_age r) (\<lambda>r. last_vacuumed (rel_all_stats r)))
         (row_limit tbl lmt) (wraparound_candidate schemas min_age tbl lo hi) (rels s) out)
   \<and> (\<exists>out. FIND_BLOAT_CANDIDATES schemas tbl pct min_dead lo hi lmt order s = map (table_row last_vacuumed) out
      \<and> best_of (ranks_before (row_order tbl order) (\<lambda>r. - coalesce (bloat_ratio r) 0)
           (\<lambda>r. last_vacuumed (rel_user_stats r)))
         (row_limit tbl lmt) (\<lambda>r. user_table schemas tbl lo hi r \<and> bloated pct min_dead r) (rels s) out)
   \<and> (\<exists>out. FIND_NEEDS_VACUUM schemas tbl thr sf lo hi lmt order s = map (needs_vacuum_row False) out
      \<and> best_of (ranks_before (row_order tbl order) (\<lambda>r. desc_nulls_last (dead r))
           (\<lambda>r. last_vacuumed (rel_user_stats r)))
         (row_limit tbl lmt) (\<lambda>r. user_table schemas tbl lo hi r \<and> over_threshold thr sf r) (rels s) out)
   \<and> (\<exists>out. FIND_VACUUM_OVERDUE schemas tbl days lo hi lmt s = map (vacuum_overdue_row s) out
      \<and> best_of (\<lambda>x y. last_vacuumed (rel_user_stats x) \<le> last_vacuumed (rel_user_stats y))
         (row_limit tbl lmt) (\<lambda>r. user_table schemas tbl lo hi r \<and> older_than last_vacuumed days s r) (rels s) out)
   \<and> (\<exists>out. FIND_ANALYZE_OVERDUE schemas tbl days lo hi lmt s = map (analyze_overdue_row s) out
      \<and> best_of (\<lambda>x y. last_analyzed (rel_user_stats x) \<le> last_analyzed (rel_user_stats y))
         (row_limit tbl lmt) (\<lambda>r. user_table schemas tbl lo hi r \<and> older_than last_analyzed days s r) (rels s) out)"
  unfolding FIND_NEVER_VACUUMED_def FIND_NEVER_ANALYZED_def FIND_WRAPAROUND_CANDIDATES_def
    FIND_BLOAT_CANDIDATES_def FIND_NEEDS_VACUUM_def FIND_VACUUM_OVERDUE_def FIND_ANALYZE_OVERDUE_def
  by (intro conjI; rule exI, rule conjI, rule refl; rule ordered.take_best keyed.take_best)

section \<open>The candidates\<close>

text \<open>
  What a run relies on: every candidate is in a schema it was asked to look at (so under the advisory
  lock), and has the name asked for, if one was.
\<close>

definition in_scope :: "string list \<Rightarrow> string option \<Rightarrow> 'z table_key_scheme \<Rightarrow> bool" where
  "in_scope schemas tbl t =
     (schema_name t \<in> set schemas \<and> (case tbl of None \<Rightarrow> True | Some n \<Rightarrow> table_name t = n))"

lemma user_table_scope:
  "user_table schemas tbl lo hi r \<Longrightarrow> schema_name t = rel_schema r \<Longrightarrow> table_name t = rel_name r \<Longrightarrow>
     in_scope schemas tbl t"
  by (auto simp: user_table_def in_scope_def named_table_def split: option.splits)

lemma row_ids [simp]:
  "schema_name (table_row m r) = rel_schema r" "table_name (table_row m r) = rel_name r"
  "schema_name (needs_vacuum_row b r) = rel_schema r" "table_name (needs_vacuum_row b r) = rel_name r"
  "schema_name (freeze_row s r) = rel_schema r" "table_name (freeze_row s r) = rel_name r"
  "schema_name (vacuum_overdue_row s r) = rel_schema r" "table_name (vacuum_overdue_row s r) = rel_name r"
  "schema_name (analyze_overdue_row s r) = rel_schema r" "table_name (analyze_overdue_row s r) = rel_name r"
  by (simp_all add: table_row_def needs_vacuum_row_def freeze_row_def vacuum_overdue_row_def
      analyze_overdue_row_def)

lemma scope_of_rows:
  assumes "\<And>r. elig r \<Longrightarrow> rel_schema r \<in> set schemas \<and> named_table tbl r"
    and "\<And>r. schema_name (row r) = rel_schema r \<and> table_name (row r) = rel_name r"
    and "\<And>r. r \<in> set out \<Longrightarrow> elig r"
  shows "\<forall>t\<in>set (map row out). in_scope schemas tbl t"
proof
  fix t
  assume "t \<in> set (map row out)"
  then obtain r where "t = row r" "r \<in> set out" by auto
  with assms(1) [OF assms(3)] assms(2) show "in_scope schemas tbl t"
    by (auto simp: in_scope_def named_table_def split: option.splits)
qed

lemma queries_in_scope:
  "\<forall>t\<in>set (FIND_NEVER_VACUUMED schemas tbl lo hi lmt order s). in_scope schemas tbl t"
  "\<forall>t\<in>set (FIND_NEVER_ANALYZED schemas tbl lo hi lmt order s). in_scope schemas tbl t"
  "\<forall>t\<in>set (FIND_WRAPAROUND_CANDIDATES schemas min_age tbl lo hi lmt order s). in_scope schemas tbl t"
  "\<forall>t\<in>set (FIND_BLOAT_CANDIDATES schemas tbl pct min_dead lo hi lmt order s). in_scope schemas tbl t"
  "\<forall>t\<in>set (FIND_NEEDS_VACUUM schemas tbl thr sf lo hi lmt order s). in_scope schemas tbl t"
  "\<forall>t\<in>set (FIND_NEEDS_VACUUM_MAX_THR pg18 schemas cap lo hi tbl s). in_scope schemas tbl t"
  "\<forall>t\<in>set (FIND_VACUUM_OVERDUE schemas tbl days lo hi lmt s). in_scope schemas tbl t"
  "\<forall>t\<in>set (FIND_ANALYZE_OVERDUE schemas tbl days lo hi lmt s). in_scope schemas tbl t"
  unfolding FIND_NEVER_VACUUMED_def FIND_NEVER_ANALYZED_def FIND_WRAPAROUND_CANDIDATES_def
    FIND_BLOAT_CANDIDATES_def FIND_NEEDS_VACUUM_def FIND_NEEDS_VACUUM_MAX_THR_def
    FIND_VACUUM_OVERDUE_def FIND_ANALYZE_OVERDUE_def
  by (rule scope_of_rows [where elig = "\<lambda>r. rel_schema r \<in> set schemas \<and> named_table tbl r"];
      auto dest!: ordered.take_mem keyed.take_mem simp: user_table_def wraparound_candidate_def)+

section \<open>What is found\<close>

definition finds :: "'z table_key_scheme list \<Rightarrow> pg_relation \<Rightarrow> bool" where
  "finds ts r = (\<exists>t\<in>set ts. schema_name t = rel_schema r \<and> table_name t = rel_name r)"

definition names_once :: "snapshot \<Rightarrow> bool" where
  "names_once s = distinct (map (\<lambda>r. (rel_schema r, rel_name r)) (rels s))"

lemma finds_rows:
  assumes "set out = {x \<in> set (rels s). elig x}" "r \<in> set (rels s)" "names_once s"
    "\<And>r. schema_name (row r) = rel_schema r \<and> table_name (row r) = rel_name r"
  shows "finds (map row out) r \<longleftrightarrow> elig r"
proof -
  have "inj_on (\<lambda>r. (rel_schema r, rel_name r)) (set (rels s))"
    using assms(3) by (simp add: names_once_def distinct_map)
  then have "x = r" if "x \<in> set (rels s)" "rel_schema x = rel_schema r" "rel_name x = rel_name r" for x
    using that assms(2) by (auto dest: inj_onD)
  with assms(1,2,4) show ?thesis unfolding finds_def by auto
qed

lemma queries_find:
  assumes "r \<in> set (rels s)" "names_once s" "tbl = None \<longrightarrow> int (length (rels s)) \<le> lmt"
  shows "finds (FIND_NEVER_VACUUMED schemas tbl lo hi lmt order s) r \<longleftrightarrow>
      user_table schemas tbl lo hi r \<and> never_vacuumed r"
    "finds (FIND_NEVER_ANALYZED schemas tbl lo hi lmt order s) r \<longleftrightarrow>
      user_table schemas tbl lo hi r \<and> never_analyzed r"
    "finds (FIND_WRAPAROUND_CANDIDATES schemas min_age tbl lo hi lmt order s) r \<longleftrightarrow>
      wraparound_candidate schemas min_age tbl lo hi r"
    "finds (FIND_BLOAT_CANDIDATES schemas tbl pct min_dead lo hi lmt order s) r \<longleftrightarrow>
      user_table schemas tbl lo hi r \<and> bloated pct min_dead r"
    "finds (FIND_NEEDS_VACUUM schemas tbl thr sf lo hi lmt order s) r \<longleftrightarrow>
      user_table schemas tbl lo hi r \<and> over_threshold thr sf r"
    "finds (FIND_VACUUM_OVERDUE schemas tbl days lo hi lmt s) r \<longleftrightarrow>
      user_table schemas tbl lo hi r \<and> older_than last_vacuumed days s r"
    "finds (FIND_ANALYZE_OVERDUE schemas tbl days lo hi lmt s) r \<longleftrightarrow>
      user_table schemas tbl lo hi r \<and> older_than last_analyzed days s r"
  unfolding FIND_NEVER_VACUUMED_def FIND_NEVER_ANALYZED_def FIND_WRAPAROUND_CANDIDATES_def
    FIND_BLOAT_CANDIDATES_def FIND_NEEDS_VACUUM_def FIND_VACUUM_OVERDUE_def FIND_ANALYZE_OVERDUE_def
  by (rule finds_rows [OF ordered.take_all [OF assms(3)] assms(1,2)] finds_rows [OF keyed.take_all [OF assms(3)] assms(1,2)];
      simp)+

section \<open>Displayed figures\<close>

text \<open>Row counts that a table can have; their sums and conversions are exact.\<close>

definition counted :: "int option \<Rightarrow> bool" where
  "counted n = (case n of None \<Rightarrow> False | Some x \<Rightarrow> 0 \<le> x \<and> x \<le> 2 ^ 52)"

text \<open>What the rounding of a percentage can lose: less than a unit of its thirteenth decimal.\<close>

definition pct_slack :: rat where "pct_slack = 2 powi -45"

lemma fraction_pct:
  assumes "0 \<le> q" "q \<le> 1"
  shows "\<exists>v. f64_times (f64_of q) 100 = Fin v \<and> rnd (100 * q) \<le> v + pct_slack"
proof -
  let ?y = "rnd q * 100"
  have q: "0 \<le> rnd q" "rnd q \<le> 1" using assms rnd_nonneg rnd_le [of q 1] binary64_of_int [of 1] by simp_all
  then have y: "0 \<le> rnd ?y" "rnd ?y \<le> 100" using rnd_nonneg [of ?y] rnd_le [of ?y 100] binary64_of_int [of 100] by simp_all
  have "\<bar>rnd q\<bar> < f64_limit" "\<bar>rnd ?y\<bar> < f64_limit" using q y by (simp_all add: f64_limit_def)
  then have v: "f64_times (f64_of q) 100 = Fin (rnd ?y)" by (simp add: f64_of_small)
  have e: "(2 :: rat) powi (7 - 54) = 2 powi -47" "(2 :: rat) powi (0 - 54) = 2 powi -54" by simp_all
  have "\<bar>rnd (100 * q) - 100 * q\<bar> \<le> 2 powi (7 - 54)" "\<bar>rnd ?y - ?y\<bar> \<le> 2 powi (7 - 54)"
    "\<bar>rnd q - q\<bar> \<le> 2 powi (0 - 54)"
    using assms q by (intro rnd_error; simp)+
  then have "rnd (100 * q) - 2 powi -47 - 100 * 2 powi -54 - 2 powi -47 \<le> rnd ?y"
    unfolding e abs_le_iff by linarith
  then have "rnd (100 * q) \<le> rnd ?y + pct_slack" by (simp add: power_int_minus pct_slack_def)
  with v show ?thesis by blast
qed

lemma bloat_candidate_pct:
  assumes "bloated pct min_dead r" "counted (live r)" "counted (dead r)"
  shows "\<exists>v. pct_bloat (table_row m r) = Fin v \<and> pct \<le> Fin (v + pct_slack)"
proof -
  from assms obtain l d where ld: "live r = Some l" "dead r = Some d" "0 \<le> l" "0 \<le> d" "l \<le> 2 ^ 52" "d \<le> 2 ^ 52"
    by (auto simp: counted_def split: option.splits)
  let ?q = "of_int d / of_int (l + d) :: rat"
  from assms(1) ld have "l + d \<noteq> 0" and pct: "pct \<le> Fin (rnd (100 * ?q))"
    by (auto simp: bloated_def bloat_ratio_def split: if_splits)
  with ld have "0 \<le> ?q" "?q \<le> 1" by (simp_all add: divide_le_eq_1)
  then obtain v where v: "f64_times (f64_of ?q) 100 = Fin v" "rnd (100 * ?q) \<le> v + pct_slack"
    using fraction_pct by blast
  have total: "i64_add l d = l + d"
    unfolding i64_add_def using ld by (intro i64_wrap_id) (simp add: in_i64_def i64_min_def i64_max_def)
  have "i64_as_f64 d = of_int d" "i64_as_f64 (l + d) = of_int (l + d)"
    using ld by (intro i64_as_f64_exact; simp)+
  then have "pct_bloat (table_row m r) = Fin v"
    using v(1) total \<open>l + d \<noteq> 0\<close> ld(1,2) by (simp add: pct_bloat_def table_row_def coalesce_def Let_def)
  moreover have "pct \<le> Fin (v + pct_slack)" using pct v(2) by (cases pct) auto
  ultimately show ?thesis by blast
qed

lemma rat_round_le_ceiling: "rat_round x \<le> of_int \<lceil>x\<rceil>"
proof -
  have "\<lfloor>x + 1 / 2\<rfloor> \<le> \<lceil>x\<rceil>" by linarith
  moreover have "\<lceil>x - 1 / 2\<rceil> \<le> \<lceil>x\<rceil>" by linarith
  ultimately show ?thesis by (simp add: rat_round_def)
qed

text \<open>A sum that stays below a whole number after rounding was below it before.\<close>

lemma rnd_less_counted: "rnd x < of_int d \<Longrightarrow> 0 \<le> d \<Longrightarrow> d \<le> 2 ^ 53 \<Longrightarrow> x < of_int d"
  using rnd_ge [of "of_int d" x] binary64_of_int [of d] by (metis abs_of_nonneg not_le)

lemma over_threshold_exact:
  assumes "over_threshold thr (Fin sf) r" "live r = Some l" "dead r = Some d" "0 \<le> l" "d \<le> 2 ^ 52" "0 \<le> thr" "0 \<le> sf"
  obtains p where "f64_times (Fin sf) (i64_as_f64 l) = Fin p" "0 \<le> p" "of_int thr + p < of_int d"
proof -
  have "0 \<le> sf * i64_as_f64 l" using assms(4,7) by (simp add: i64_as_f64_def rnd_nonneg)
  then have nonneg: "Fin 0 \<le> f64_of (sf * i64_as_f64 l)" by (rule f64_of_nonneg)
  have "f64_of (sf * i64_as_f64 l) \<noteq> PInf" using assms(1-3) by (auto simp: over_threshold_def coalesce_def)
  then obtain p where Fin: "f64_of (sf * i64_as_f64 l) = Fin p"
    using nonneg by (cases "f64_of (sf * i64_as_f64 l)") auto
  with nonneg have p: "0 \<le> p" by simp
  have thr: "0 \<le> i64_as_f64 thr" using assms(6) by (simp add: i64_as_f64_def rnd_nonneg)
  with p have sum: "0 \<le> rnd (i64_as_f64 thr + p)" by (simp add: rnd_nonneg)
  from assms(1-3) Fin have less: "f64_of (i64_as_f64 thr + p) < Fin (i64_as_f64 d)"
    by (simp add: over_threshold_def coalesce_def)
  then have "rnd (i64_as_f64 thr + p) < i64_as_f64 d"
    using sum by (rule f64_of_less)
  moreover from this sum have "0 < rnd (of_int d)" by (simp add: i64_as_f64_def)
  then have d: "0 \<le> d" using rnd_mono [of "of_int d" 0] by (cases "0 \<le> d") simp_all
  moreover have "i64_as_f64 d = of_int d" using d assms(5) by (intro i64_as_f64_exact) simp_all
  ultimately have lt: "i64_as_f64 thr + p < of_int d" using assms(5) by - (rule rnd_less_counted, simp_all)
  with p have "rnd (of_int thr) < of_int d" by (simp add: i64_as_f64_def)
  then have "(of_int thr :: rat) < of_int d" using d assms(5) by - (rule rnd_less_counted, simp_all)
  then have "i64_as_f64 thr = of_int thr" using assms(5,6) by (intro i64_as_f64_exact) simp_all
  with lt p Fin show ?thesis by (intro that) simp_all
qed

text \<open>One whole tuple beyond the threshold is enough for the server's rounded comparison.\<close>

lemma over_threshold_beyond:
  assumes "live r = Some l" "dead r = Some d" "0 \<le> l" "l \<le> 2 ^ 52" "d \<le> 2 ^ 52" "0 \<le> thr" "0 \<le> sf"
    "of_int thr + sf * of_int l \<le> of_int (d - 1)"
  shows "over_threshold thr (Fin sf) r"
proof -
  have "0 \<le> sf * of_int l" using assms(3,7) by simp
  with assms(8) have "(of_int thr :: rat) \<le> of_int (d - 1)" by linarith
  then have thr: "thr \<le> d - 1" by simp
  have big: "(2 :: int) ^ 52 \<le> 2 ^ 53" by simp
  have ints: "i64_as_f64 l = of_int l" "i64_as_f64 thr = of_int thr" "i64_as_f64 d = of_int d"
    using assms(3-6) thr big by (intro i64_as_f64_exact; linarith)+
  let ?p = "rnd (sf * of_int l)"
  have exact: "binary64 (of_int (d - 1 - thr))" "binary64 (of_int (d - 1))"
    using assms(5,6) thr big by (intro binary64_of_int; linarith)+
  have "sf * of_int l \<le> of_int (d - 1 - thr)" using assms(8) by simp
  then have p: "0 \<le> ?p" "?p \<le> of_int (d - 1 - thr)"
    using \<open>0 \<le> sf * of_int l\<close> exact(1) by (simp_all only: rnd_nonneg rnd_le)
  then have "0 \<le> of_int thr + ?p" "of_int thr + ?p \<le> of_int (d - 1)" using assms(6) by simp_all
  then have q: "0 \<le> rnd (of_int thr + ?p)" "rnd (of_int thr + ?p) \<le> of_int (d - 1)"
    using exact(2) by (simp_all only: rnd_nonneg rnd_le)
  have small: "of_int k < f64_limit" if "k \<le> 2 ^ 52" for k
  proof -
    have "(of_int k :: rat) \<le> of_int (2 ^ 52)" using that by (simp only: of_int_le_iff)
    also have "\<dots> < f64_limit" by (simp add: f64_limit_def)
    finally show ?thesis .
  qed
  have "d - 1 - thr \<le> 2 ^ 52" "d - 1 \<le> 2 ^ 52" using assms(5,6) by linarith+
  from small [OF this(1)] small [OF this(2)] p q have "\<bar>?p\<bar> < f64_limit" "\<bar>rnd (of_int thr + ?p)\<bar> < f64_limit"
    by linarith+
  then have "f64_of (sf * of_int l) = Fin ?p" "f64_of (of_int thr + ?p) = Fin (rnd (of_int thr + ?p))"
    by (simp_all only: f64_of_small)
  moreover have "rnd (of_int thr + ?p) < of_int d" using q(2) by simp
  ultimately show ?thesis
    using assms(1,2) ints by (simp add: over_threshold_def coalesce_def)
qed

lemma over_threshold_only:
  assumes "over_threshold thr (Fin sf) r" "live r = Some l" "dead r = Some d" "0 \<le> l" "l \<le> 2 ^ 52" "0 \<le> d" "d \<le> 2 ^ 52"
    "0 \<le> thr" "0 \<le> sf"
  shows "of_int thr + sf * of_int l < of_int d"
proof (rule ccontr)
  assume "\<not> ?thesis"
  then have *: "of_int (d - thr) \<le> sf * of_int l" by simp
  from over_threshold_exact [OF assms(1-4,7-9)] obtain p where
    p: "f64_times (Fin sf) (i64_as_f64 l) = Fin p" "0 \<le> p" "of_int thr + p < of_int d" .
  then have "(of_int thr :: rat) < of_int d" by linarith
  then have "thr < d" by simp
  have big: "(2 :: int) ^ 52 \<le> 2 ^ 53" by simp
  from \<open>thr < d\<close> have "binary64 (of_int (d - thr))" using assms(7,8) big by (intro binary64_of_int) linarith
  with * have "of_int (d - thr) \<le> rnd (sf * of_int l)" by (rule rnd_ge)
  moreover have "i64_as_f64 l = of_int l" using assms(4,5) big by (intro i64_as_f64_exact) linarith+
  with p(1) have "rnd (sf * of_int l) = p" by (auto simp: f64_of_def split: if_splits)
  ultimately show False using p(3) by simp
qed

lemma needs_vacuum_threshold:
  assumes "over_threshold thr (Fin sf) r" "counted (live r)" "counted (dead r)"
    and "0 \<le> thr" "0 \<le> sf"
  shows "effective_threshold (needs_vacuum_row b r) thr (Fin sf) \<le> n_dead_tup (needs_vacuum_row b r)"
proof -
  from assms obtain l d where ld: "live r = Some l" "dead r = Some d" "0 \<le> l" "d \<le> 2 ^ 52"
    by (auto simp: counted_def split: option.splits)
  obtain p where p: "f64_times (Fin sf) (i64_as_f64 l) = Fin p" "0 \<le> p" "of_int thr + p < of_int d"
    by (rule over_threshold_exact [OF assms(1) ld assms(4,5)])
  then have round: "0 \<le> rat_round p" by (simp add: rat_round_def)
  obtain k where k: "rat_round p = of_int k" by (auto simp: rat_round_def)
  have "thr + \<lceil>p\<rceil> \<le> d" using p(3) by linarith
  moreover have "k \<le> \<lceil>p\<rceil>" using rat_round_le_ceiling [of p] k by linarith
  ultimately have le: "thr + k \<le> d" by linarith
  from k round have "0 \<le> k" by simp
  then have "in_i64 k" "in_i64 (thr + k)"
    using le ld(4) assms(4) by (simp_all add: in_i64_def i64_min_def i64_max_def)
  then have "effective_threshold (needs_vacuum_row b r) thr (Fin sf) = thr + k"
    using k ld(1) p(1) by (simp add: effective_threshold_def needs_vacuum_row_def coalesce_def i64_add_def
        i64_wrap_id i64_clamp_id del: f64_times.simps)
  with le ld(2) show ?thesis by (simp add: needs_vacuum_row_def coalesce_def)
qed

text \<open>
  The figures shown for a candidate agree with the condition by which the server selected it,
  although one is computed by the server and the other by the program, each with its own rounding: the
  bloat percentage of a bloat candidate is at least the threshold, up to a rounding error of less than
  the thirteenth digit, and the dead tuples of a needs-vacuum candidate are never fewer than the threshold
  displayed with it. The tuple counts are those of a table the server has counted.
\<close>

theorem displayed_figures_agree:
  shows "list_all (\<lambda>r. counted (live r) \<and> counted (dead r)) (rels s) \<and> 0 \<le> thr \<and> 0 \<le> sf \<longrightarrow>
      (\<forall>t\<in>set (FIND_BLOAT_CANDIDATES schemas tbl pct min_dead lo hi lmt order s).
         \<exists>v. pct_bloat t = Fin v \<and> pct \<le> Fin (v + pct_slack))
    \<and> (\<forall>t\<in>set (FIND_NEEDS_VACUUM schemas tbl thr (Fin sf) lo hi lmt order s).
         effective_threshold t thr (Fin sf) \<le> n_dead_tup t)"
proof -
  have "\<exists>v. pct_bloat t = Fin v \<and> pct \<le> Fin (v + pct_slack)"
    if "\<forall>r\<in>set (rels s). counted (live r) \<and> counted (dead r)"
      and "t \<in> set (FIND_BLOAT_CANDIDATES schemas tbl pct min_dead lo hi lmt order s)" for t
    using that by (auto simp: FIND_BLOAT_CANDIDATES_def dest!: ordered.take_mem intro!: bloat_candidate_pct)
  moreover have "effective_threshold t thr (Fin sf) \<le> n_dead_tup t"
    if "\<forall>r\<in>set (rels s). counted (live r) \<and> counted (dead r)" "0 \<le> thr" "0 \<le> sf"
      and "t \<in> set (FIND_NEEDS_VACUUM schemas tbl thr (Fin sf) lo hi lmt order s)" for t
    using that by (auto simp: FIND_NEEDS_VACUUM_def dest!: ordered.take_mem intro!: needs_vacuum_threshold)
  ultimately show ?thesis by (simp add: list_all_iff)
qed

definition example_relation :: pg_relation where
  "example_relation =
     (let st = \<lparr>st_live = Some 1000, st_dead = Some 5000, st_mod = Some 0, st_ins = Some 0, st_last_vacuum = None,
                st_last_autovacuum = Some 0, st_last_analyze = None, st_last_autoanalyze = Some 0\<rparr> in
      \<lparr>rel_schema = ''public'', rel_name = ''t'', rel_kind = CHR ''r'', rel_size = Some 8192, rel_xid_age = 10,
       rel_tuples = 1000, rel_pages = 1, rel_all_frozen = 0, rel_options = [], rel_user_stats = Some st,
       rel_all_stats = Some st\<rparr>)"

definition example_snapshot :: snapshot where
  "example_snapshot =
     \<lparr>rels = [example_relation], snap_now = 100 * day, guc_freeze_max_age = 200000000,
      guc_vacuum_threshold = 50, guc_vacuum_scale_factor = 1 / 5, guc_insert_threshold = 1000,
      guc_insert_scale_factor = 1 / 5\<rparr>"

lemmas example_defs =
  example_relation_def example_snapshot_def live_def dead_def column_def coalesce_def counted_def
  user_table_def named_table_def size_between_def option_value_def Let_def

theorem displayed_figures_agree_witness:
  "list_all (\<lambda>t. \<exists>v. pct_bloat t = Fin v \<and> 80 \<le> v + pct_slack)
     (FIND_BLOAT_CANDIDATES [''public''] None (Fin 80) 1000 0 10000 5 None example_snapshot)
   \<and> length (FIND_BLOAT_CANDIDATES [''public''] None (Fin 80) 1000 0 10000 5 None example_snapshot) = 1"
proof
  have "list_all (\<lambda>r. counted (live r) \<and> counted (dead r)) (rels example_snapshot) \<and> (0 :: int) \<le> 50 \<and> (0 :: rat) \<le> 0"
    by (simp add: example_defs)
  with displayed_figures_agree [of example_snapshot 50 0 "[''public'']" None "Fin 80" 1000 0 10000 5 None]
  show "list_all (\<lambda>t. \<exists>v. pct_bloat t = Fin v \<and> 80 \<le> v + pct_slack)
      (FIND_BLOAT_CANDIDATES [''public''] None (Fin 80) 1000 0 10000 5 None example_snapshot)"
    unfolding list_all_iff f64_compare_simps by blast
  have "80 \<le> rnd (250 / 3)" using binary64_of_int [of 80] by (intro rnd_ge) simp_all
  then show "length (FIND_BLOAT_CANDIDATES [''public''] None (Fin 80) 1000 0 10000 5 None example_snapshot) = 1"
    by (simp add: FIND_BLOAT_CANDIDATES_def example_defs bloated_def bloat_ratio_def row_limit_def take_opt_def
        order_rows_def row_order_def)
qed

lemma bloated_beyond:
  assumes "live r = Some l" "dead r = Some d" "0 < l + d" "binary64 p" "min_dead \<le> d"
    "p * of_int (l + d) \<le> 100 * of_int d"
  shows "bloated (Fin p) min_dead r"
proof -
  have "0 < (of_int (l + d) :: rat)" using assms(3) by simp
  with assms(6) have "p \<le> 100 * of_int d / of_int (l + d)" by (simp only: pos_le_divide_eq)
  then have "p \<le> rnd (100 * of_int d / of_int (l + d))" using assms(4) by (rule rnd_ge)
  with assms(1-3,5) show ?thesis by (simp add: bloated_def bloat_ratio_def)
qed

lemma bloated_only:
  assumes "bloated (Fin p) min_dead r" "live r = Some l" "dead r = Some d" "0 \<le> l" "0 \<le> d"
  shows "min_dead \<le> d \<and> 0 < l + d \<and> p \<le> 100 * of_int d / of_int (l + d) + pct_slack"
proof -
  from assms have sum: "l + d \<noteq> 0" "min_dead \<le> d" and p: "p \<le> rnd (100 * of_int d / of_int (l + d))"
    by (auto simp: bloated_def bloat_ratio_def split: if_splits)
  let ?x = "100 * of_int d / of_int (l + d) :: rat"
  have "0 \<le> ?x" "?x \<le> 100" using assms(4,5) sum(1) by (simp_all add: divide_le_eq)
  then have "\<bar>rnd ?x - ?x\<bar> \<le> 2 powi (7 - 54)" by (intro rnd_error) simp_all
  moreover have "(2 :: rat) powi (7 - 54) \<le> pct_slack" by (simp add: pct_slack_def power_int_minus)
  ultimately have "p \<le> ?x + pct_slack" using p by (simp only: abs_le_iff) linarith
  with sum assms(4,5) show ?thesis by simp
qed

text \<open>
  C31: Which tables the discovery queries find, as long as the limit does not cut the list. Let the scope be the
  schemas asked for, the table asked for, no partitioned parent, and a size within the bounds. A table in scope
  is found by the never-vacuumed query exactly when neither a manual VACUUM nor an autovacuum is recorded, by
  the vacuum-overdue query exactly when one is recorded and none of those recorded is within the given number
  of days, and likewise for ANALYZE; so one of the two finds it exactly when it was not vacuumed in that time, and
  never both. The bloat query finds it if the dead tuples are at least the minimum and at least the percentage
  of all tuples, and only if so up to a rounding of less than the thirteenth digit. The needs-vacuum query finds
  it if the dead tuples are more than threshold plus factor times live tuples by a whole tuple, and only if
  they are more. The wraparound query finds ordinary tables, TOAST tables and materialized views outside the
  system's schemas whose transaction age is above the minimum.
\<close>

theorem candidates_found_exactly:
  assumes "r \<in> set (rels s)" "names_once s" "tbl = None \<longrightarrow> int (length (rels s)) \<le> lmt"
    and "rel_user_stats r = Some st" "rel_size r = Some n"
    and "scope \<longleftrightarrow> rel_schema r \<in> set schemas \<and> (\<forall>name. tbl = Some name \<longrightarrow> rel_name r = name)
           \<and> rel_kind r \<noteq> CHR ''p'' \<and> lo \<le> n \<and> n \<le> hi"
    and "vacuums = {t. st_last_vacuum st = Some t \<or> st_last_autovacuum st = Some t}"
    and "analyzes = {t. st_last_analyze st = Some t \<or> st_last_autoanalyze st = Some t}"
    and "st_live st = Some l" "0 \<le> l" "l \<le> 2 ^ 52" "st_dead st = Some d" "0 \<le> d" "d \<le> 2 ^ 52"
    and "binary64 p" "0 \<le> thr" "0 \<le> sf"
  shows "(finds (FIND_NEVER_VACUUMED schemas tbl lo hi lmt order s) r \<longleftrightarrow> scope \<and> vacuums = {})
    \<and> (finds (FIND_VACUUM_OVERDUE schemas tbl days lo hi lmt s) r \<longleftrightarrow>
         scope \<and> vacuums \<noteq> {} \<and> (\<forall>t\<in>vacuums. t + days * 86400000000 < snap_now s))
    \<and> (finds (FIND_NEVER_ANALYZED schemas tbl lo hi lmt order s) r \<longleftrightarrow> scope \<and> analyzes = {})
    \<and> (finds (FIND_ANALYZE_OVERDUE schemas tbl days lo hi lmt s) r \<longleftrightarrow>
         scope \<and> analyzes \<noteq> {} \<and> (\<forall>t\<in>analyzes. t + days * 86400000000 < snap_now s))
    \<and> (scope \<and> min_dead \<le> d \<and> 0 < l + d \<and> p * of_int (l + d) \<le> 100 * of_int d \<longrightarrow>
         finds (FIND_BLOAT_CANDIDATES schemas tbl (Fin p) min_dead lo hi lmt order s) r)
    \<and> (finds (FIND_BLOAT_CANDIDATES schemas tbl (Fin p) min_dead lo hi lmt order s) r \<longrightarrow>
         scope \<and> min_dead \<le> d \<and> 0 < l + d \<and> p \<le> 100 * of_int d / of_int (l + d) + 2 powi -45)
    \<and> (scope \<and> of_int thr + sf * of_int l \<le> of_int (d - 1) \<longrightarrow>
         finds (FIND_NEEDS_VACUUM schemas tbl thr (Fin sf) lo hi lmt order s) r)
    \<and> (finds (FIND_NEEDS_VACUUM schemas tbl thr (Fin sf) lo hi lmt order s) r \<longrightarrow>
         scope \<and> of_int thr + sf * of_int l < of_int d)
    \<and> (finds (FIND_WRAPAROUND_CANDIDATES schemas min_age tbl lo hi lmt order s) r \<longleftrightarrow>
         scope \<and> rel_kind r \<in> {CHR ''r'', CHR ''t'', CHR ''m''}
           \<and> rel_schema r \<notin> {''pg_catalog'', ''information_schema'', ''pg_toast''} \<and> min_age < rel_xid_age r)"
proof -
  note find = queries_find [OF assms(1-3)]
  have scope: "user_table schemas tbl lo hi r \<longleftrightarrow> scope"
    using assms(4-6) by (auto simp: user_table_def named_table_def size_between_def split: option.splits)
  have ld: "live r = Some l" "dead r = Some d" using assms(4,9,12) by (simp_all add: live_def dead_def column_def)
  have never: "never_vacuumed r \<longleftrightarrow> vacuums = {}" "never_analyzed r \<longleftrightarrow> analyzes = {}"
    using assms(4,7,8) by (auto simp: never_vacuumed_def never_analyzed_def column_def)
  have old: "(case greatest a b of None \<Rightarrow> False | Some t \<Rightarrow> t < m - k) \<longleftrightarrow>
      {t. a = Some t \<or> b = Some t} \<noteq> {} \<and> (\<forall>t\<in>{t. a = Some t \<or> b = Some t}. t + k < m)" for a b m k
    by (cases a; cases b) (auto simp: greatest_def)
  have micros: "day = 86400000000" by (simp add: day_def)
  have overdue: "older_than last_vacuumed days s r \<longleftrightarrow>
        vacuums \<noteq> {} \<and> (\<forall>t\<in>vacuums. t + days * 86400000000 < snap_now s)"
    "older_than last_analyzed days s r \<longleftrightarrow>
        analyzes \<noteq> {} \<and> (\<forall>t\<in>analyzes. t + days * 86400000000 < snap_now s)"
    unfolding assms(7,8) old [symmetric] older_than_def micros using assms(4)
    by (simp_all add: last_vacuumed_def last_analyzed_def column_def)
  have bloat: "bloated (Fin p) min_dead r"
    if "min_dead \<le> d" "0 < l + d" "p * of_int (l + d) \<le> 100 * of_int d"
    by (rule bloated_beyond [OF ld that(2) assms(15) that(1,3)])
  have bloat_only: "min_dead \<le> d \<and> 0 < l + d \<and> p \<le> 100 * of_int d / of_int (l + d) + 2 powi -45"
    if "bloated (Fin p) min_dead r"
    using bloated_only [OF that ld assms(10,13)] by (simp only: pct_slack_def)
  have needs: "over_threshold thr (Fin sf) r" if "of_int thr + sf * of_int l \<le> of_int (d - 1)"
    by (rule over_threshold_beyond [OF ld assms(10,11,14,16,17) that])
  have needs_only: "of_int thr + sf * of_int l < of_int d" if "over_threshold thr (Fin sf) r"
    by (rule over_threshold_only [OF that ld assms(10,11,13,14,16,17)])
  have wrap: "wraparound_candidate schemas min_age tbl lo hi r \<longleftrightarrow>
      scope \<and> rel_kind r \<in> {CHR ''r'', CHR ''t'', CHR ''m''}
        \<and> rel_schema r \<notin> {''pg_catalog'', ''information_schema'', ''pg_toast''} \<and> min_age < rel_xid_age r"
    using assms(5,6)
    by (auto simp: wraparound_candidate_def named_table_def size_between_def split: option.splits)
  show ?thesis
    unfolding find scope never overdue wrap
    using bloat bloat_only needs needs_only by (intro conjI impI; blast)
qed

theorem candidates_found_exactly_witness:
  "finds (FIND_VACUUM_OVERDUE [''public''] None 30 0 10000 5 example_snapshot) example_relation
   \<and> \<not> finds (FIND_NEVER_VACUUMED [''public''] None 0 10000 5 None example_snapshot) example_relation
   \<and> finds (FIND_BLOAT_CANDIDATES [''public''] None (Fin 80) 1000 0 10000 5 None example_snapshot) example_relation
   \<and> finds (FIND_NEEDS_VACUUM [''public''] None 50 (Fin 2) 0 10000 5 None example_snapshot) example_relation
   \<and> \<not> finds (FIND_WRAPAROUND_CANDIDATES [''public''] 10 None 0 10000 5 None example_snapshot) example_relation"
proof -
  let ?st = "the (rel_user_stats example_relation)"
  have here: "example_relation \<in> set (rels example_snapshot)" "names_once example_snapshot"
    "None = None \<longrightarrow> int (length (rels example_snapshot)) \<le> 5"
    by (simp_all add: example_defs names_once_def)
  have st: "rel_user_stats example_relation = Some ?st" "rel_size example_relation = Some 8192"
    "st_live ?st = Some 1000" "st_dead ?st = Some 5000" "rel_xid_age example_relation = 10"
    by (simp_all add: example_defs)
  have scope: "True \<longleftrightarrow> rel_schema example_relation \<in> set [''public'']
      \<and> (\<forall>name. None = Some name \<longrightarrow> rel_name example_relation = name)
      \<and> rel_kind example_relation \<noteq> CHR ''p'' \<and> 0 \<le> (8192 :: int) \<and> 8192 \<le> (10000 :: int)"
    by (simp add: example_defs)
  have stamps: "{0} = {t. st_last_vacuum ?st = Some t \<or> st_last_autovacuum ?st = Some t}"
    "{0} = {t. st_last_analyze ?st = Some t \<or> st_last_autoanalyze ?st = Some t}"
    by (auto simp: example_defs)
  have b: "binary64 80" using binary64_of_int [of 80] by simp
  have now: "snap_now example_snapshot = 8640000000000" by (simp add: example_snapshot_def day_def)
  note all = candidates_found_exactly [OF here st(1,2) scope stamps st(3) _ _ st(4) _ _ b, of 50 2 None 30 1000 10]
  from all show ?thesis unfolding now st(5) by simp
qed

section \<open>The cap on the threshold\<close>

text \<open>
  C33: The cap finds tables however many rows they have. A table in scope (schema, name and the size bounds of the
  run), without a storage option that sets its own cap, whose count of dead tuples is above the cap of the server
  and at most \<open>2 ^ 53\<close> (up to which counts are exact), is a candidate of the second needs-vacuum query, on every
  server version. Lowering the cap only adds candidates: whatever the second query finds under a cap it finds
  under any smaller non-negative one.
\<close>

theorem cap_finds_large_tables:
  assumes "0 \<le> cap"
  shows "(\<forall>r\<in>set (rels s). user_table schemas tbl lo hi r
            \<and> option_value ''autovacuum_vacuum_max_threshold'' r = None
            \<and> (\<exists>d. dead r = Some d \<and> d \<le> 2 ^ 53 \<and> cap < of_int d)
          \<longrightarrow> needs_vacuum_row True r \<in> set (FIND_NEEDS_VACUUM_MAX_THR pg18 schemas cap lo hi tbl s))
       \<and> (\<forall>cap'. cap \<le> cap' \<or> cap' < 0 \<longrightarrow>
            set (FIND_NEEDS_VACUUM_MAX_THR pg18 schemas cap' lo hi tbl s)
              \<subseteq> set (FIND_NEEDS_VACUUM_MAX_THR pg18 schemas cap lo hi tbl s))"
proof -
  have large: "over_max_threshold pg18 cap s r"
    if "option_value ''autovacuum_vacuum_max_threshold'' r = None" "dead r = Some d" "d \<le> 2 ^ 53" "cap < of_int d" for r d
  proof -
    have "0 \<le> d" using that(4) assms by (metis le_less_trans less_imp_le of_int_0_less_iff)
    then have "i64_as_f64 d = of_int d" using that(3) by (rule i64_as_f64_exact)
    with that assms show ?thesis by (auto simp: over_max_threshold_def vacuum_trigger_def Let_def coalesce_def)
  qed
  have mono: "vacuum_trigger cap s r \<le> vacuum_trigger cap' s r" if "cap \<le> cap' \<or> cap' < 0" for cap' r
    using that assms
    by (cases "option_value ''autovacuum_vacuum_max_threshold'' r")
      (auto simp: vacuum_trigger_def Let_def coalesce_def)
  have "over_max_threshold pg18 cap s r"
    if "over_max_threshold pg18 cap' s r" "cap \<le> cap' \<or> cap' < 0" for cap' r
    using that(1) mono [OF that(2), of r] by (auto simp: over_max_threshold_def split: option.splits)
  then have "set (FIND_NEEDS_VACUUM_MAX_THR pg18 schemas cap' lo hi tbl s)
      \<subseteq> set (FIND_NEEDS_VACUUM_MAX_THR pg18 schemas cap lo hi tbl s)" if "cap \<le> cap' \<or> cap' < 0" for cap'
    using that by (auto simp: FIND_NEEDS_VACUUM_MAX_THR_def)
  moreover have "needs_vacuum_row True r \<in> set (FIND_NEEDS_VACUUM_MAX_THR pg18 schemas cap lo hi tbl s)"
    if "r \<in> set (rels s)" "user_table schemas tbl lo hi r"
      "option_value ''autovacuum_vacuum_max_threshold'' r = None" "dead r = Some d" "d \<le> 2 ^ 53" "cap < of_int d" for r d
    using that large by (auto simp: FIND_NEEDS_VACUUM_MAX_THR_def)
  ultimately show ?thesis by blast
qed

theorem cap_finds_large_tables_witness:
  "needs_vacuum_row True example_relation \<in>
     set (FIND_NEEDS_VACUUM_MAX_THR True [''public''] 4000 0 10000 None example_snapshot)"
proof -
  have "example_relation \<in> set (rels example_snapshot)"
    "user_table [''public''] None 0 10000 example_relation"
    "option_value ''autovacuum_vacuum_max_threshold'' example_relation = None"
    "dead example_relation = Some 5000"
    by (simp_all add: example_defs)
  moreover have "(5000 :: int) \<le> 2 ^ 53" "(4000 :: rat) < of_int 5000" "(0 :: rat) \<le> 4000" by simp_all
  ultimately show ?thesis
    using cap_finds_large_tables [of 4000 example_snapshot "[''public'']" None 0 10000 True] by blast
qed

section \<open>Merging the two lists\<close>

lemma keep_unseen_set:
  "table_id ` set (keep_unseen seen ts) = table_id ` set ts - seen"
  by (induction seen ts rule: keep_unseen.induct) auto

lemma keep_unseen_distinct: "distinct (map table_id (keep_unseen seen ts))"
proof (induction seen ts rule: keep_unseen.induct)
  case (2 seen t ts)
  have "table_id t \<notin> set (map table_id (keep_unseen (insert (table_id t) seen) ts))"
    using keep_unseen_set [of "insert (table_id t) seen" ts] by auto
  with 2 show ?case by auto
qed simp

lemma keep_unseen_first:
  "t \<in> set (keep_unseen seen ts) \<Longrightarrow> table_id t \<notin> seen \<and> find (\<lambda>u. table_id u = table_id t) ts = Some t"
proof (induction seen ts rule: keep_unseen.induct)
  case (2 seen u us)
  show ?case
  proof (cases "table_id u \<in> seen")
    case True
    with 2 have "table_id t \<notin> seen" "find (\<lambda>u. table_id u = table_id t) us = Some t" by simp_all
    with True show ?thesis by auto
  next
    case False
    with 2(3) consider "t = u" | "t \<in> set (keep_unseen (insert (table_id u) seen) us)" by auto
    then show ?thesis
    proof cases
      case 2
      with "2.IH"(2) False have "table_id t \<noteq> table_id u" "table_id t \<notin> seen"
        "find (\<lambda>u. table_id u = table_id t) us = Some t" by simp_all
      then show ?thesis by simp
    qed (use False in simp)
  qed
qed simp

text \<open>
  C32: Merging the two needs-vacuum lists keeps one row for every table in either list and no other: the
  first one in the classic list, or in the second if the classic list has none. Of these rows the result
  is a best choice within the limit (a negative one means none), most dead tuples first unless another
  order was asked for.
\<close>

theorem merge_refines_best_of:
  "\<exists>all. distinct (map table_id all)
     \<and> table_id ` set all = table_id ` (set classic \<union> set max_threshold)
     \<and> list_all (\<lambda>t. find (\<lambda>u. table_id u = table_id t) (classic @ max_threshold) = Some t) all
     \<and> best_of (merge_before order) (merge_limit lmt) (\<lambda>t. True) all
          (merge_needs_vacuum_candidates classic max_threshold order lmt)"
proof (intro exI conjI)
  let ?all = "keep_unseen {} (classic @ max_threshold)"
  show "distinct (map table_id ?all)" by (rule keep_unseen_distinct)
  show "table_id ` set ?all = table_id ` (set classic \<union> set max_threshold)"
    by (simp only: keep_unseen_set set_append Diff_empty)
  show "list_all (\<lambda>t. find (\<lambda>u. table_id u = table_id t) (classic @ max_threshold) = Some t) ?all"
    using keep_unseen_first by (simp add: list_all_iff) blast
  show "best_of (merge_before order) (merge_limit lmt) (\<lambda>t. True) ?all
      (merge_needs_vacuum_candidates classic max_threshold order lmt)"
    using merged.take_best [of order "merge_limit lmt" "\<lambda>t. True" ?all]
    by (simp add: merge_needs_vacuum_candidates_def)
qed

end
