(* ===== verification/Dsn.thy ===== *)
theory Dsn
  imports Keyword_Strings Types
begin

text \<open>
  \<open>src/dsn.rs\<close>: reading and redacting a \<open>--dsn\<close> value, a URI or a keyword string. The parser of
  \<open>tokio_postgres\<close> is not part of the program: \<open>Config::from_str\<close> is the argument \<open>from_str\<close> of
  \<open>parse\<close>, with what the code reads off its result as the record \<open>pg_config\<close>. A panic is the error
  \<open>Panicked\<close>.
\<close>

section \<open>Bytes and characters\<close>

definition byte_in :: "char \<Rightarrow> nat \<Rightarrow> nat \<Rightarrow> bool" where
  "byte_in c lo hi = (lo \<le> of_char c \<and> of_char c \<le> hi)"

definition is_continuation :: "char \<Rightarrow> bool" where
  "is_continuation c = byte_in c 0x80 0xBF"

text \<open>
  The first character of a byte string, as \<open>from_utf8_lossy\<close> finds it: how many bytes it takes, and
  whether they are valid UTF-8. An invalid sequence takes its longest prefix of a valid one.
\<close>

definition second_ok :: "char \<Rightarrow> char \<Rightarrow> bool" where
  "second_ok a b =
     (if a = CHR 0xE0 then byte_in b 0xA0 0xBF
      else if a = CHR 0xED then byte_in b 0x80 0x9F
      else if a = CHR 0xF0 then byte_in b 0x90 0xBF
      else if a = CHR 0xF4 then byte_in b 0x80 0x8F
      else is_continuation b)"

definition utf8_width :: "char \<Rightarrow> nat" where
  "utf8_width a =
     (if byte_in a 0 0x7F then 1
      else if byte_in a 0xC2 0xDF then 2
      else if byte_in a 0xE0 0xEF then 3
      else if byte_in a 0xF0 0xF4 then 4
      else 0)"

definition utf8_head :: "string \<Rightarrow> nat \<times> bool" where
  "utf8_head s =
     (case s of [] \<Rightarrow> (0, True)
      | a # t \<Rightarrow>
          if utf8_width a = 0 then (1, False)
          else if utf8_width a = 1 then (1, True)
          else (case t of [] \<Rightarrow> (1, False)
           | b # u \<Rightarrow>
               if \<not> second_ok a b then (1, False)
               else if utf8_width a = 2 then (2, True)
               else (case u of [] \<Rightarrow> (2, False)
                | c # v \<Rightarrow>
                    if \<not> is_continuation c then (2, False)
                    else if utf8_width a = 3 then (3, True)
                    else (case v of [] \<Rightarrow> (3, False)
                     | d # _ \<Rightarrow> if is_continuation d then (4, True) else (3, False)))))"

lemma utf8_head_pos: "s \<noteq> [] \<Longrightarrow> 0 < fst (utf8_head s)"
  by (auto simp: utf8_head_def split: list.splits)

lemma utf8_head_drop: "s \<noteq> [] \<Longrightarrow> (n, ok) = utf8_head s \<Longrightarrow> length s - n < length s"
  using utf8_head_pos [of s] by (metis diff_less fst_conv length_greater_0_conv)

definition replacement_char :: string where
  "replacement_char = [CHR 0xEF, CHR 0xBF, CHR 0xBD]"

function from_utf8_lossy :: "string \<Rightarrow> string" where
  "from_utf8_lossy s =
     (if s = [] then []
      else case utf8_head s of (n, ok) \<Rightarrow>
        (if ok then take n s else replacement_char) @ from_utf8_lossy (drop n s))"
  by pat_completeness auto
termination
  by (relation "measure length") (auto dest: utf8_head_drop)

declare from_utf8_lossy.simps [simp del]

text \<open>Text, that is bytes that are valid UTF-8.\<close>

function valid_utf8 :: "string \<Rightarrow> bool" where
  "valid_utf8 s =
     (if s = [] then True else case utf8_head s of (n, ok) \<Rightarrow> ok \<and> valid_utf8 (drop n s))"
  by pat_completeness auto
termination
  by (relation "measure length") (auto dest: utf8_head_drop)

declare valid_utf8.simps [simp del]

lemma lossy_valid: "valid_utf8 s \<Longrightarrow> from_utf8_lossy s = s"
proof (induction s rule: valid_utf8.induct)
  case (1 s)
  show ?case
  proof (cases "s = []")
    case True
    then show ?thesis by (simp add: from_utf8_lossy.simps)
  next
    case False
    obtain n ok where n: "utf8_head s = (n, ok)" by force
    with 1 False have ok: "ok" "from_utf8_lossy (drop n s) = drop n s"
      by (auto simp: valid_utf8.simps [of s])
    with n False show ?thesis by (subst from_utf8_lossy.simps) simp
  qed
qed

text \<open>\<open>u8::from_str_radix(_, 16)\<close> on two bytes; like every \<open>from_str_radix\<close> it takes a leading plus.\<close>

definition hex_digit :: "char \<Rightarrow> nat option" where
  "hex_digit c =
     (if byte_in c 0x30 0x39 then Some (of_char c - 0x30)
      else if byte_in c 0x41 0x46 then Some (of_char c - 0x41 + 10)
      else if byte_in c 0x61 0x66 then Some (of_char c - 0x61 + 10)
      else None)"

definition hex_pair :: "char \<Rightarrow> char \<Rightarrow> char option" where
  "hex_pair a b =
     (case hex_digit b of None \<Rightarrow> None
      | Some y \<Rightarrow>
          if a = CHR ''+'' then Some (char_of y)
          else (case hex_digit a of None \<Rightarrow> None | Some x \<Rightarrow> Some (char_of (16 * x + y))))"

section \<open>Data\<close>

datatype dsn_error =
    Keyword keyword_error | EmptyDsn | NotADsn | BadConfig string | ManyHosts nat
  | UnsupportedSslmode string | InvalidSslmode string | Panicked

definition SSL_PARAMS :: "string list" where
  "SSL_PARAMS = [''sslmode'', ''sslrootcert'', ''sslcert'', ''sslkey'']"

definition UNUSED_PARAMS :: "string list" where
  "UNUSED_PARAMS = [''application_name'', ''options'', ''target_session_attrs'', ''keepalives'',
                    ''keepalives_idle'', ''channel_binding'']"

record parsed_dsn =
  dsn_host :: "string option"
  dsn_port :: "nat option"
  dsn_database :: "string option"
  dsn_username :: "string option"
  dsn_password :: "string option"
  dsn_sslmode :: "ssl_mode option"
  dsn_ca_cert :: "string option"
  dsn_client_cert :: "string option"
  dsn_client_key :: "string option"
  dsn_connect_timeout :: "nat option"
  ignored_params :: "string list"

record split_dsn =
  ssl_params :: "(string \<times> string) list"
  rest_of_dsn :: string
  other_keys :: "string list"

datatype pg_host = Tcp string | Unix string

record pg_config =
  cfg_hosts :: "pg_host list"
  cfg_ports :: "nat list"
  cfg_dbname :: "string option"
  cfg_user :: "string option"
  cfg_password :: "string option"
  cfg_connect_timeout :: "nat option"

section \<open>URIs\<close>

abbreviation question :: char where "question \<equiv> CHR 0x3F"
abbreviation ampersand :: char where "ampersand \<equiv> CHR 0x26"
abbreviation at_sign :: char where "at_sign \<equiv> CHR 0x40"
abbreviation percent :: char where "percent \<equiv> CHR 0x25"
abbreviation close_bracket :: char where "close_bracket \<equiv> CHR 0x5D"

definition is_uri :: "string \<Rightarrow> bool" where
  "is_uri s = (starts_with ''postgres://'' (to_lower s) \<or> starts_with ''postgresql://'' (to_lower s))"

text \<open>The loop of \<open>percent_decode\<close>; slicing between the bytes of one character panics.\<close>

fun percent_decode_bytes :: "string \<Rightarrow> dsn_error + string" where
  "percent_decode_bytes [] = Inr []"
| "percent_decode_bytes [a] = Inr [a]"
| "percent_decode_bytes [a, b] = Inr [a, b]"
| "percent_decode_bytes (a # b # c # s) =
     (if a = percent then
        if s \<noteq> [] \<and> is_continuation (hd s) then Inl Panicked
        else (case hex_pair b c of
            Some d \<Rightarrow> map_sum id (\<lambda>out. d # out) (percent_decode_bytes s)
          | None \<Rightarrow> map_sum id (\<lambda>out. a # out) (percent_decode_bytes (b # c # s)))
      else map_sum id (\<lambda>out. a # out) (percent_decode_bytes (b # c # s)))"

definition percent_decode :: "string \<Rightarrow> dsn_error + string" where
  "percent_decode s = map_sum id from_utf8_lossy (percent_decode_bytes s)"

text \<open>What follows the first double slash.\<close>

fun after_double_slash :: "string \<Rightarrow> string option" where
  "after_double_slash (a # b # s) = (if a = slash \<and> b = slash then Some s else after_double_slash (b # s))"
| "after_double_slash _ = None"

definition uri_authority :: "string \<Rightarrow> string" where
  "uri_authority s =
     (case after_double_slash s of
        None \<Rightarrow> []
      | Some t \<Rightarrow> takeWhile (\<lambda>c. c \<noteq> slash \<and> c \<noteq> question) t)"

definition uri_has_explicit_port :: "string \<Rightarrow> bool" where
  "uri_has_explicit_port s =
     (let authority = uri_authority s;
          hostpart = (case rsplit_once at_sign authority of Some (_, h) \<Rightarrow> h | None \<Rightarrow> authority)
      in case rsplit_once close_bracket hostpart of
           Some (_, after) \<Rightarrow> starts_with [colon] after
         | None \<Rightarrow> colon \<in> set hostpart)"

section \<open>Extracting the SSL parameters\<close>

text \<open>The loop over the segments of a query: the SSL parameters, the segments kept, their keys.\<close>

fun sort_segments :: "string list \<Rightarrow> dsn_error + (string \<times> string) list \<times> string list \<times> string list" where
  "sort_segments [] = Inr ([], [], [])"
| "sort_segments (seg # segs) =
     (if seg = [] then sort_segments segs
      else case (case split_once equals_sign seg of Some kv \<Rightarrow> kv | None \<Rightarrow> (seg, [])) of (raw_key, raw_value) \<Rightarrow>
        (case percent_decode raw_key of
           Inl e \<Rightarrow> Inl e
         | Inr k \<Rightarrow>
             (let key = to_lower k in
              if key \<in> set SSL_PARAMS then
                (case percent_decode raw_value of
                   Inl e \<Rightarrow> Inl e
                 | Inr v \<Rightarrow> map_sum id (\<lambda>(ssl, kept, keys). ((key, v) # ssl, kept, keys)) (sort_segments segs))
              else map_sum id (\<lambda>(ssl, kept, keys). (ssl, seg # kept, key # keys)) (sort_segments segs))))"

definition extract_ssl_params :: "string \<Rightarrow> dsn_error + split_dsn" where
  "extract_ssl_params raw =
     (if is_uri raw then
        (case split_once question raw of
           None \<Rightarrow> Inr \<lparr>ssl_params = [], rest_of_dsn = raw, other_keys = []\<rparr>
         | Some (base, query) \<Rightarrow>
             map_sum id (\<lambda>(ssl, kept, keys).
               \<lparr>ssl_params = ssl,
                rest_of_dsn = (if kept = [] then base else base @ [question] @ join [ampersand] kept),
                other_keys = keys\<rparr>)
             (sort_segments (split_on ampersand query)))
      else
        (case split_keyword_pairs raw of
           Inl e \<Rightarrow> Inl (Keyword e)
         | Inr pairs \<Rightarrow>
             (let is_ssl = (\<lambda>(key, value). to_lower key \<in> set SSL_PARAMS);
                  others = filter (\<lambda>p. \<not> is_ssl p) pairs in
              Inr \<lparr>ssl_params = map (\<lambda>(key, value). (to_lower key, value)) (filter is_ssl pairs),
                   rest_of_dsn = join [space] (map (keyword_pair escape_keyword_value) others),
                   other_keys = map (\<lambda>(key, value). to_lower key) others\<rparr>)))"

definition map_sslmode :: "string \<Rightarrow> dsn_error + ssl_mode" where
  "map_sslmode value =
     (let l = to_lower value in
      if l = ''disable'' then Inr SslDisable
      else if l = ''require'' then Inr SslRequire
      else if l = ''verify-ca'' then Inr SslVerifyCa
      else if l = ''verify-full'' then Inr SslVerifyFull
      else if l = ''allow'' \<or> l = ''prefer'' then Inl (UnsupportedSslmode value)
      else Inl (InvalidSslmode l))"

section \<open>Parsing\<close>

text \<open>The loop over the SSL parameters: a later one overrides an earlier one.\<close>

fun apply_ssl :: "(string \<times> string) list \<Rightarrow> parsed_dsn \<Rightarrow> dsn_error + parsed_dsn" where
  "apply_ssl [] parsed = Inr parsed"
| "apply_ssl ((key, value) # ssl) parsed =
     (if key = ''sslmode'' then
        (case map_sslmode value of
           Inl e \<Rightarrow> Inl e
         | Inr m \<Rightarrow> apply_ssl ssl (parsed\<lparr>dsn_sslmode := Some m\<rparr>))
      else if key = ''sslrootcert'' then apply_ssl ssl (parsed\<lparr>dsn_ca_cert := Some value\<rparr>)
      else if key = ''sslcert'' then apply_ssl ssl (parsed\<lparr>dsn_client_cert := Some value\<rparr>)
      else if key = ''sslkey'' then apply_ssl ssl (parsed\<lparr>dsn_client_key := Some value\<rparr>)
      else Inl Panicked)"

fun host_name :: "pg_host \<Rightarrow> string" where
  "host_name (Tcp name) = name"
| "host_name (Unix path) = from_utf8_lossy path"

definition fields_of_config :: "string \<Rightarrow> split_dsn \<Rightarrow> pg_config \<Rightarrow> parsed_dsn" where
  "fields_of_config trimmed split cfg =
     \<lparr>dsn_host = (case cfg_hosts cfg of [] \<Rightarrow> None | h # _ \<Rightarrow> Some (host_name h)),
      dsn_port = (if is_uri trimmed \<and> \<not> uri_has_explicit_port trimmed then None
                  else (case cfg_ports cfg of [] \<Rightarrow> None | p # _ \<Rightarrow> Some p)),
      dsn_database = cfg_dbname cfg, dsn_username = cfg_user cfg,
      dsn_password = map_option from_utf8_lossy (cfg_password cfg),
      dsn_sslmode = None, dsn_ca_cert = None, dsn_client_cert = None, dsn_client_key = None,
      dsn_connect_timeout = cfg_connect_timeout cfg,
      ignored_params = filter (\<lambda>k. k \<in> set UNUSED_PARAMS) (other_keys split)\<rparr>"

definition parse :: "(string \<Rightarrow> string + pg_config) \<Rightarrow> string \<Rightarrow> dsn_error + parsed_dsn" where
  "parse from_str raw =
     (let trimmed = trim raw in
      if trimmed = [] then Inl EmptyDsn
      else if \<not> is_uri trimmed \<and> equals_sign \<notin> set trimmed then Inl NotADsn
      else case extract_ssl_params trimmed of
        Inl e \<Rightarrow> Inl e
      | Inr split \<Rightarrow>
          (case from_str (rest_of_dsn split) of
             Inl e \<Rightarrow> Inl (BadConfig e)
           | Inr cfg \<Rightarrow>
               if 1 < length (cfg_hosts cfg) then Inl (ManyHosts (length (cfg_hosts cfg)))
               else apply_ssl (ssl_params split) (fields_of_config trimmed split cfg)))"

section \<open>Redacting\<close>

text \<open>\<open>str::replacen\<close> with count 1, for a pattern that is not empty.\<close>

fun replace_first :: "string \<Rightarrow> string \<Rightarrow> string \<Rightarrow> string" where
  "replace_first pat r [] = []"
| "replace_first pat r (c # cs) =
     (if starts_with pat (c # cs) then r @ drop (length pat) (c # cs) else c # replace_first pat r cs)"

definition MASK :: string where "MASK = ''***''"

definition mask_pair :: "string \<times> string \<Rightarrow> string" where
  "mask_pair p =
     (if to_lower (fst p) = ''password'' then fst p @ [equals_sign] @ MASK
      else keyword_pair escape_keyword_value p)"

definition redact :: "string \<Rightarrow> string" where
  "redact raw =
     (let trimmed = trim raw in
      if is_uri trimmed then
        (let authority = uri_authority trimmed in
         case rsplit_once at_sign authority of
           None \<Rightarrow> trimmed
         | Some (userinfo, after) \<Rightarrow>
             (case split_once colon userinfo of
                None \<Rightarrow> trimmed
              | Some (user, _) \<Rightarrow>
                  replace_first authority (user @ [colon] @ MASK @ [at_sign] @ after) trimmed))
      else (case split_keyword_pairs trimmed of
          Inr pairs \<Rightarrow> join [space] (map mask_pair pairs)
        | Inl _ \<Rightarrow> ''[REDACTED]''))"

datatype env_var = Missing | NotUnicode | Value string

definition resolve_dsn_source :: "string option \<Rightarrow> env_var \<Rightarrow> string + string option" where
  "resolve_dsn_source explicit pg_dsn =
     (case explicit of
        Some value \<Rightarrow> Inr (Some value)
      | None \<Rightarrow>
          (case pg_dsn of
             Value v \<Rightarrow> Inr (if trim v \<noteq> [] then Some v else None)
           | Missing \<Rightarrow> Inr None
           | NotUnicode \<Rightarrow> Inl ''Failed to read PG_DSN''))"

end
