(* ===== verification/Discovery.thy ===== *)
theory Discovery
  imports
    Connection
    Catalog_Facts
    Dsn
    "HOL-Library.List_Lexorder"
    "HOL-Library.Char_ord"
begin

text \<open>
  What a run asks of the server before it maintains anything (\<open>src/operations.rs\<close> and
  \<open>src/schema.rs\<close>): which schemas there are, the advisory lock on them, the logbook schema, the settings
  and candidates of each mode, and the explicitly listed tables.

  The candidates are those of the query functions of \<open>Catalog\<close>, applied to the snapshot that the server
  answers with.
\<close>

section \<open>Schemas and the lock\<close>

text \<open>SQL's \<open>LIKE\<close>: an underscore stands for one character, a percent sign for any text.\<close>

fun sql_like :: "string \<Rightarrow> string \<Rightarrow> bool" where
  "sql_like [] s = (s = [])"
| "sql_like (p # ps) [] = (p = percent \<and> sql_like ps [])"
| "sql_like (p # ps) (c # cs) =
     (if p = percent then sql_like ps (c # cs) \<or> sql_like (p # ps) cs
      else if p = CHR ''_'' then sql_like ps (dropWhile is_continuation cs)
      else p = c \<and> sql_like ps cs)"

definition user_schema :: "string \<Rightarrow> bool" where
  "user_schema n =
     (n \<notin> set [''pg_catalog'', ''information_schema'', ''pg_toast'', ''pg_temp_1'', ''pg_toast_temp_1'',
               ''maintainer_logbook'']
      \<and> \<not> sql_like ''pg_temp_%'' n \<and> \<not> sql_like ''pg_toast_temp_%'' n)"

definition GET_ALL_USER_SCHEMAS :: "string list \<Rightarrow> string list" where
  "GET_ALL_USER_SCHEMAS names = sort (filter user_schema names)"

definition discover_all_user_schemas :: "'w env \<Rightarrow> ('w, error + string list) run" where
  "discover_all_user_schemas env =
     try_run (query ''Failed to discover schemas'' (q_namespaces env)) (\<lambda>names.
       ret (Inr (GET_ALL_USER_SCHEMAS names)))"

definition try_acquire_schema_lock :: "'w env \<Rightarrow> string list \<Rightarrow> ('w, error + unit) run" where
  "try_acquire_schema_lock env schemas =
     (let schemas_str = join '','' schemas in
      try_run (query ''Failed to compute schema lock ID'' (q_hashtext env schemas_str)) (\<lambda>lock_id.
      try_run (map_error (context_pg ''Failed to acquire advisory lock'')
        (call_env (q_try_advisory_lock env lock_id) (\<lambda>r. [ELock lock_id r]))) (\<lambda>acquired.
        if \<not> acquired then
          ret (Inl (error_from_text (''Another pg-maintainer run is already active on schema(s): '' @
            schemas_str @ ''. Release the existing lock or wait for the other process to complete.'')))
        else ret (Inr ()))))"

section \<open>The logbook schema\<close>

text \<open>The statements are written on one line here; in the source they are laid out over several.\<close>

definition CREATE_SCHEMA_SQL :: string where
  "CREATE_SCHEMA_SQL = ''CREATE SCHEMA maintainer_logbook''"

definition CREATE_LOGBOOK_TABLE_SQL :: string where
  "CREATE_LOGBOOK_TABLE_SQL =
     ''CREATE TABLE IF NOT EXISTS maintainer_logbook.maintenance_logbook ( '' @
     ''id BIGSERIAL PRIMARY KEY, schema_name VARCHAR(255) NOT NULL, table_name VARCHAR(255) NOT NULL, '' @
     ''operation VARCHAR(32) NOT NULL, mode VARCHAR(32) NOT NULL, status VARCHAR(16) NOT NULL, '' @
     ''dead_tuples_before BIGINT, dead_tuples_removed BIGINT, duration_ms BIGINT, error_message TEXT, '' @
     ''logged_at TIMESTAMPTZ NOT NULL DEFAULT now(), run_started_at TIMESTAMPTZ NOT NULL )''"

definition CREATE_INDEX_TABLE_SQL :: string where
  "CREATE_INDEX_TABLE_SQL =
     ''CREATE INDEX IF NOT EXISTS idx_maintenance_logbook_table '' @
     ''ON maintainer_logbook.maintenance_logbook (schema_name, table_name)''"

definition CREATE_INDEX_TIME_SQL :: string where
  "CREATE_INDEX_TIME_SQL =
     ''CREATE INDEX IF NOT EXISTS idx_maintenance_logbook_logged_at '' @
     ''ON maintainer_logbook.maintenance_logbook (logged_at)''"

definition COMMENT_BEFORE_SQL :: string where
  "COMMENT_BEFORE_SQL =
     ''COMMENT ON COLUMN maintainer_logbook.maintenance_logbook.dead_tuples_before IS '' @ [squote] @
     ''Approximate: pg_stat_user_tables.n_dead_tup read before the operation (a statistics estimate)'' @ [squote]"

definition COMMENT_REMOVED_SQL :: string where
  "COMMENT_REMOVED_SQL =
     ''COMMENT ON COLUMN maintainer_logbook.maintenance_logbook.dead_tuples_removed IS '' @ [squote] @
     ''Approximate: decrease in the n_dead_tup estimate across the operation, not an exact count of removed tuples''
     @ [squote]"

definition schema_exists :: "'w env \<Rightarrow> string \<Rightarrow> ('w, error + bool) run" where
  "schema_exists env name = query ''Failed to check if schema exists'' (q_schema_exists env name)"

definition ensure_logbook_schema :: "'w env \<Rightarrow> ('w, error + bool) run" where
  "ensure_logbook_schema env =
     try_run (map_error (with_context ''Failed to check logbook schema existence'')
       (schema_exists env LOGBOOK_SCHEMA_NAME)) (\<lambda>exists.
     try_run (if exists then ret (Inr ())
              else run_sql env ''Failed to create logbook schema'' CREATE_SCHEMA_SQL) (\<lambda>_.
     try_run (run_sql env ''Failed to create logbook table'' CREATE_LOGBOOK_TABLE_SQL) (\<lambda>_.
     try_run (run_sql env ''Failed to create logbook table index'' CREATE_INDEX_TABLE_SQL) (\<lambda>_.
     try_run (run_sql env ''Failed to create logbook timestamp index'' CREATE_INDEX_TIME_SQL) (\<lambda>_. do {
       _ \<leftarrow> execute env COMMENT_BEFORE_SQL;
       _ \<leftarrow> execute env COMMENT_REMOVED_SQL;
       ret (Inr (\<not> exists))
     })))))"

section \<open>Settings and candidates\<close>

definition get_freeze_max_age :: "'w env \<Rightarrow> ('w, error + int) run" where
  "get_freeze_max_age env = query ''Failed to read autovacuum_freeze_max_age'' (q_freeze_max_age env)"

definition get_vacuum_settings :: "'w env \<Rightarrow> ('w, error + (int \<times> f64)) run" where
  "get_vacuum_settings env = query ''Failed to read autovacuum_vacuum settings'' (q_vacuum_settings env)"

definition get_vacuum_max_threshold :: "'w env \<Rightarrow> int \<Rightarrow> ('w, error + rat) run" where
  "get_vacuum_max_threshold env server_version_num =
     (if server_version_num < PG18_VERSION_NUM then ret (Inr (derive_max_threshold None))
      else try_run (query ''Failed to read autovacuum_vacuum_max_threshold'' (q_vacuum_max_threshold env))
        (\<lambda>v. ret (Inr (derive_max_threshold (Some v)))))"

text \<open>A query runs as a function on the catalogs, with its error message.\<close>

definition catalog_query :: "'w env \<Rightarrow> string \<Rightarrow> (snapshot \<Rightarrow> 'a list) \<Rightarrow> ('w, error + 'a list) run" where
  "catalog_query env msg f = try_run (query msg (q_catalog env)) (\<lambda>s. ret (Inr (f s)))"

definition find_never_vacuumed ::
  "'w env \<Rightarrow> string list \<Rightarrow> string option \<Rightarrow> int \<Rightarrow> int \<Rightarrow> int \<Rightarrow> order_by option \<Rightarrow>
     ('w, error + table_info list) run" where
  "find_never_vacuumed env schemas tbl lo hi lmt order =
     catalog_query env ''Failed to query never-vacuumed tables''
       (FIND_NEVER_VACUUMED schemas tbl lo hi lmt order)"

definition find_never_analyzed ::
  "'w env \<Rightarrow> string list \<Rightarrow> string option \<Rightarrow> int \<Rightarrow> int \<Rightarrow> int \<Rightarrow> order_by option \<Rightarrow>
     ('w, error + table_info list) run" where
  "find_never_analyzed env schemas tbl lo hi lmt order =
     catalog_query env ''Failed to query never-analyzed tables''
       (FIND_NEVER_ANALYZED schemas tbl lo hi lmt order)"

definition find_wraparound_candidates ::
  "'w env \<Rightarrow> string list \<Rightarrow> int \<Rightarrow> string option \<Rightarrow> int \<Rightarrow> int \<Rightarrow> int \<Rightarrow> order_by option \<Rightarrow>
     ('w, error + freeze_table_info list) run" where
  "find_wraparound_candidates env schemas min_age tbl lo hi lmt order =
     catalog_query env ''Failed to query wraparound candidates''
       (FIND_WRAPAROUND_CANDIDATES schemas min_age tbl lo hi lmt order)"

definition find_bloat_candidates ::
  "'w env \<Rightarrow> string list \<Rightarrow> string option \<Rightarrow> f64 \<Rightarrow> int \<Rightarrow> int \<Rightarrow> int \<Rightarrow> int \<Rightarrow> order_by option \<Rightarrow>
     ('w, error + bloat_table_info list) run" where
  "find_bloat_candidates env schemas tbl pct min_dead lo hi lmt order =
     catalog_query env ''Failed to query bloat candidates''
       (FIND_BLOAT_CANDIDATES schemas tbl pct min_dead lo hi lmt order)"

definition find_needs_vacuum_candidates ::
  "'w env \<Rightarrow> string list \<Rightarrow> string option \<Rightarrow> int \<Rightarrow> f64 \<Rightarrow> int \<Rightarrow> int \<Rightarrow> int \<Rightarrow> order_by option \<Rightarrow>
     ('w, error + needs_vacuum_table_info list) run" where
  "find_needs_vacuum_candidates env schemas tbl thr sf lo hi lmt order =
     catalog_query env ''Failed to query needs-vacuum candidates''
       (FIND_NEEDS_VACUUM schemas tbl thr sf lo hi lmt order)"

text \<open>Here the error becomes text, so a lost connection is no longer recognised as one.\<close>

definition find_needs_vacuum_max_threshold_candidates ::
  "'w env \<Rightarrow> string list \<Rightarrow> string option \<Rightarrow> rat \<Rightarrow> int \<Rightarrow> int \<Rightarrow> int \<Rightarrow>
     ('w, error + needs_vacuum_table_info list) run" where
  "find_needs_vacuum_max_threshold_candidates env schemas tbl cap server_version_num lo hi =
     try_run (map_error (\<lambda>e. error_from_text
         (''Failed to query needs-vacuum max-threshold candidates: '' @ own_text e))
       (call_env (q_catalog env) (\<lambda>_. []))) (\<lambda>s.
     ret (Inr (FIND_NEEDS_VACUUM_MAX_THR (PG18_VERSION_NUM \<le> server_version_num) schemas cap lo hi tbl s)))"

definition find_vacuum_overdue_candidates ::
  "'w env \<Rightarrow> string list \<Rightarrow> string option \<Rightarrow> int \<Rightarrow> int \<Rightarrow> int \<Rightarrow> int \<Rightarrow>
     ('w, error + overdue_vacuum_table_info list) run" where
  "find_vacuum_overdue_candidates env schemas tbl days lo hi lmt =
     catalog_query env ''Failed to query vacuum-overdue candidates''
       (FIND_VACUUM_OVERDUE schemas tbl days lo hi lmt)"

definition find_analyze_overdue_candidates ::
  "'w env \<Rightarrow> string list \<Rightarrow> string option \<Rightarrow> int \<Rightarrow> int \<Rightarrow> int \<Rightarrow> int \<Rightarrow>
     ('w, error + overdue_analyze_table_info list) run" where
  "find_analyze_overdue_candidates env schemas tbl days lo hi lmt =
     catalog_query env ''Failed to query analyze-overdue candidates''
       (FIND_ANALYZE_OVERDUE schemas tbl days lo hi lmt)"

section \<open>Explicitly listed tables\<close>

text \<open>The first loop: entries outside the run's schemas are dropped with a warning.\<close>

fun drop_out_of_scope :: "string list \<Rightarrow> table_key list \<Rightarrow> ('w, table_key list) run" where
  "drop_out_of_scope schemas [] = ret []"
| "drop_out_of_scope schemas (t # ts) =
     (if schema_name t = LOGBOOK_SCHEMA_NAME then do {
        log Warning (Text (''Ignoring '' @ quoted (schema_name t) (table_name t) @ '' '' @ em_dash @ '' the '' @
          LOGBOOK_SCHEMA_NAME @ '' schema is managed internally by pg-maintainer''));
        drop_out_of_scope schemas ts
      } else if schema_name t \<notin> set schemas then do {
        log Warning (Text (''Ignoring '' @ quoted (schema_name t) (table_name t) @ '' '' @ em_dash @ '' schema '' @
          [dquote] @ schema_name t @ [dquote] @
          '' is not in the schema list for this run; add it to --schema to include it''));
        drop_out_of_scope schemas ts
      } else do {
        kept \<leftarrow> drop_out_of_scope schemas ts;
        ret (t # kept)
      })"

text \<open>The second loop: entries without such a table are dropped with a warning.\<close>

fun drop_missing :: "(string \<times> string) set \<Rightarrow> table_key list \<Rightarrow> ('w, table_key list) run" where
  "drop_missing existing [] = ret []"
| "drop_missing existing (t # ts) =
     (if table_id t \<in> existing then do {
        kept \<leftarrow> drop_missing existing ts;
        ret (t # kept)
      } else do {
        log Warning (Text (''Ignoring '' @ quoted (schema_name t) (table_name t) @ '' '' @ em_dash @
          '' no such table, materialized view or partitioned table (names are matched exactly, and '' @
          ''PostgreSQL folds unquoted identifiers to lower case)''));
        drop_missing existing ts
      })"

definition resolve_explicit_tables ::
  "'w env \<Rightarrow> table_key list \<Rightarrow> string list \<Rightarrow> ('w, error + table_key list) run" where
  "resolve_explicit_tables env requested schemas =
     (if requested = [] then ret (Inr [])
      else do {
        in_scope \<leftarrow> drop_out_of_scope schemas requested;
        if in_scope = [] then ret (Inr [])
        else try_run (catalog_query env ''Failed to resolve --also-tables entries''
               (FIND_EXPLICIT_TABLES (map schema_name in_scope) (map table_name in_scope))) (\<lambda>existing. do {
          resolved \<leftarrow> drop_missing (set existing) in_scope;
          ret (Inr resolved)
        })
      })"

section \<open>Facts\<close>

definition is_warning :: "event \<Rightarrow> bool" where
  "is_warning e = (case e of ELog Warning m \<Rightarrow> True | _ \<Rightarrow> False)"

text \<open>\<open>warned_for n es\<close>: the events \<open>es\<close> are \<open>n\<close> warnings.\<close>

definition warned_for :: "nat \<Rightarrow> event list \<Rightarrow> bool" where
  "warned_for n es = (length es = n \<and> list_all is_warning es)"

lemma warned_for_simps [simp]:
  "warned_for n [] = (n = 0)"
  "warned_for (Suc n) (ELog Warning m # es) = warned_for n es"
  by (auto simp: warned_for_def is_warning_def)

lemma warned_for_append: "warned_for m es \<Longrightarrow> warned_for n fs \<Longrightarrow> warned_for (m + n) (es @ fs)"
  by (simp add: warned_for_def)

definition in_run :: "string list \<Rightarrow> table_key \<Rightarrow> bool" where
  "in_run schemas t = (schema_name t \<noteq> LOGBOOK_SCHEMA_NAME \<and> schema_name t \<in> set schemas)"

text \<open>Both loops filter and warn; they share the induction step.\<close>

lemma filter_step:
  assumes IH: "\<And>s. \<exists>es. run_state (f ts) s = (filter P ts, s\<lparr>trace := trace s @ es\<rparr>)
      \<and> warned_for (length (filter (\<lambda>t. \<not> P t) ts)) es"
    and keep: "P t \<Longrightarrow> f (t # ts) = do { kept \<leftarrow> f ts; ret (t # kept) }"
    and skip: "\<not> P t \<Longrightarrow> \<exists>m. f (t # ts) = do { log Warning m; f ts }"
  shows "\<exists>es. run_state (f (t # ts)) s = (filter P (t # ts), s\<lparr>trace := trace s @ es\<rparr>)
      \<and> warned_for (length (filter (\<lambda>t. \<not> P t) (t # ts))) es"
proof (cases "P t")
  case True
  obtain es where "run_state (f ts) s = (filter P ts, s\<lparr>trace := trace s @ es\<rparr>)"
    "warned_for (length (filter (\<lambda>t. \<not> P t) ts)) es"
    using IH [of s] by blast
  with True show ?thesis by (intro exI [of _ es]) (simp add: keep [OF True])
next
  case False
  then obtain m where m: "f (t # ts) = do { log Warning m; f ts }" using skip by blast
  obtain es where "run_state (f ts) (s\<lparr>trace := trace s @ [ELog Warning m]\<rparr>) =
      (filter P ts, s\<lparr>trace := trace s @ [ELog Warning m] @ es\<rparr>)"
    "warned_for (length (filter (\<lambda>t. \<not> P t) ts)) es"
    using IH [of "s\<lparr>trace := trace s @ [ELog Warning m]\<rparr>"] by auto
  with False show ?thesis by (intro exI [of _ "ELog Warning m # es"]) (simp add: m)
qed

lemma run_drop_out_of_scope:
  "\<exists>es. run_state (drop_out_of_scope schemas ts) s = (filter (in_run schemas) ts, s\<lparr>trace := trace s @ es\<rparr>)
     \<and> warned_for (length (filter (\<lambda>t. \<not> in_run schemas t) ts)) es"
proof (induction ts arbitrary: s)
  case Nil
  show ?case by (intro exI [of _ "[]"]) simp
next
  case (Cons t ts)
  show ?case
    by (rule filter_step [where f = "drop_out_of_scope schemas" and P = "in_run schemas", OF Cons.IH])
      (auto simp: in_run_def)
qed

lemma run_drop_missing:
  "\<exists>es. run_state (drop_missing existing ts) s =
        (filter (\<lambda>t. table_id t \<in> existing) ts, s\<lparr>trace := trace s @ es\<rparr>)
     \<and> warned_for (length (filter (\<lambda>t. table_id t \<notin> existing) ts)) es"
proof (induction ts arbitrary: s)
  case Nil
  show ?case by (intro exI [of _ "[]"]) simp
next
  case (Cons t ts)
  show ?case
    by (rule filter_step [where f = "drop_missing existing" and P = "\<lambda>t. table_id t \<in> existing", OF Cons.IH]) auto
qed

lemma run_catalog_query:
  "run_state (catalog_query env msg f) s =
     (case q_catalog env (world s) of (r, d, w) \<Rightarrow>
        (map_sum (context_pg msg) f r, s\<lparr>world := w, clock := clock s + d\<rparr>))"
proof -
  obtain r d w where q: "q_catalog env (world s) = (r, d, w)" by (metis prod_cases3)
  show ?thesis by (cases r) (simp_all add: catalog_query_def run_query q del: run_map_error)
qed

text \<open>A relation that can be named in the list: an ordinary or partitioned table or a materialized view.\<close>

definition maintainable :: "snapshot \<Rightarrow> table_key \<Rightarrow> bool" where
  "maintainable c t =
     list_ex (\<lambda>r. (rel_schema r, rel_name r) = table_id t \<and> rel_kind r \<in> set ''rmp'') (rels c)"

lemma join_rows:
  "p \<in> set [(f r, g r). (a, b) \<leftarrow> zs, r \<leftarrow> rs, f r = a \<and> g r = b \<and> K r] \<longleftrightarrow>
     p \<in> set zs \<and> list_ex (\<lambda>r. (f r, g r) = p \<and> K r) rs"
proof -
  have "p \<in> set [(f r, g r). r \<leftarrow> rs, f r = a \<and> g r = b \<and> K r] \<longleftrightarrow>
      p = (a, b) \<and> list_ex (\<lambda>r. (f r, g r) = p \<and> K r) rs" for a b
    by (induction rs) auto
  then show ?thesis by (induction zs) (auto simp del: set_concat)
qed

lemma explicit_tables_iff:
  "table_id t \<in> set (FIND_EXPLICIT_TABLES (map schema_name ts) (map table_name ts) c) \<longleftrightarrow>
     table_id t \<in> table_id ` set ts \<and> maintainable c t"
proof -
  have "set (zip (map schema_name ts) (map table_name ts)) = table_id ` set ts"
    by (induction ts) (auto simp: table_id_def)
  then show ?thesis
    unfolding FIND_EXPLICIT_TABLES_def maintainable_def join_rows by simp
qed

lemma warned_not_listed:
  "\<exists>fs. run_state (drop_missing (set (FIND_EXPLICIT_TABLES (map schema_name ts) (map table_name ts) c)) ts) s =
       (filter (maintainable c) ts, s\<lparr>trace := trace s @ fs\<rparr>)
     \<and> warned_for (length (filter (\<lambda>t. \<not> maintainable c t) ts)) fs"
proof -
  let ?ex = "set (FIND_EXPLICIT_TABLES (map schema_name ts) (map table_name ts) c)"
  have listed: "table_id t \<in> ?ex \<longleftrightarrow> maintainable c t" if "t \<in> set ts" for t
    using that unfolding explicit_tables_iff by (simp only: imageI simp_thms)
  have ex: "filter (\<lambda>t. table_id t \<in> ?ex) ts = filter (maintainable c) ts"
    "filter (\<lambda>t. table_id t \<notin> ?ex) ts = filter (\<lambda>t. \<not> maintainable c t) ts"
    by (rule filter_cong, rule refl, simp only: listed)+
  show ?thesis using run_drop_missing [of ?ex ts s] unfolding ex by blast
qed

text \<open>
  C34: The tables of \<open>--also-tables\<close> are resolved without losing or inventing one: when resolving succeeds,
  the result is, in the order given, exactly the requested tables that lie in the run's schemas, not in
  the logbook, and exist in the catalogs as the server answered, as a table, a partitioned table or a
  materialized view; every other entry is warned about once, and nothing else happens.
\<close>

theorem explicit_tables_resolved:
  assumes "run_state (resolve_explicit_tables env requested schemas) s = (Inr out, s')"
  shows "\<exists>c es. out = filter (\<lambda>t. in_run schemas t \<and> maintainable c t) requested
       \<and> (filter (in_run schemas) requested \<noteq> [] \<longrightarrow> (\<exists>w. fst (q_catalog env w) = Inr c))
       \<and> trace s' = trace s @ es
       \<and> warned_for (length (filter (\<lambda>t. \<not> (in_run schemas t \<and> maintainable c t)) requested)) es"
proof -
  let ?in = "filter (in_run schemas) requested"
  have count: "length (filter (\<lambda>t. \<not> (in_run schemas t \<and> maintainable c t)) requested) =
      length (filter (\<lambda>t. \<not> in_run schemas t) requested) + length (filter (\<lambda>t. \<not> maintainable c t) ?in)" for c
    by (induction requested) auto
  obtain es where es: "run_state (drop_out_of_scope schemas requested) s = (?in, s\<lparr>trace := trace s @ es\<rparr>)"
      "warned_for (length (filter (\<lambda>t. \<not> in_run schemas t) requested)) es"
    using run_drop_out_of_scope by blast
  show ?thesis
  proof (cases "?in = []")
    case True
    then have none: "filter (\<lambda>t. in_run schemas t \<and> maintainable c t) requested = []" for c
      by (auto simp: filter_empty_conv)
    from True assms es(1) have "out = [] \<and> trace s' = trace s @ es \<or> requested = [] \<and> out = [] \<and> s' = s"
      by (auto simp: resolve_explicit_tables_def split: if_splits)
    then show ?thesis
    proof
      assume "out = [] \<and> trace s' = trace s @ es"
      with True es(2) none [of undefined] count [of undefined] show ?thesis
        by (intro exI [of _ undefined] exI [of _ es]) auto
    qed auto
  next
    case False
    then have "requested \<noteq> []" by auto
    obtain r d w where q: "q_catalog env (world s) = (r, d, w)" by (metis prod_cases3)
    from assms False \<open>requested \<noteq> []\<close> q obtain c where r: "r = Inr c"
      by (cases r) (auto simp: resolve_explicit_tables_def es(1) run_catalog_query)
    let ?ex = "set (FIND_EXPLICIT_TABLES (map schema_name ?in) (map table_name ?in) c)"
    let ?s = "s\<lparr>trace := trace s @ es, world := w, clock := clock s + d\<rparr>"
    obtain fs where fs: "run_state (drop_missing ?ex ?in) ?s =
        (filter (maintainable c) ?in, ?s\<lparr>trace := trace ?s @ fs\<rparr>)"
      "warned_for (length (filter (\<lambda>t. \<not> maintainable c t) ?in)) fs"
      using warned_not_listed [of ?in c ?s] by blast
    have "out = filter (maintainable c) ?in \<and> trace s' = trace s @ es @ fs"
      using assms False \<open>requested \<noteq> []\<close>
      by (auto simp: resolve_explicit_tables_def es(1) run_catalog_query q r fs(1))
    with q r warned_for_append [OF es(2) fs(2)] count [of c] show ?thesis
      by (intro exI [of _ c] exI [of _ "es @ fs"]) (auto simp: conj_commute intro!: exI [of _ "world s"])
  qed
qed

definition listed_key :: "string \<Rightarrow> string \<Rightarrow> table_key" where
  "listed_key s t = \<lparr>schema_name = s, table_name = t\<rparr>"

text \<open>The empty catalogs of the concrete server have no such table.\<close>

theorem explicit_tables_resolved_witness:
  "fst (run_state (resolve_explicit_tables scripted_env [listed_key ''public'' ''t'', listed_key ''other'' ''t'']
      [''public'']) (initial_state [])) = Inr []"
proof -
  let ?m = "resolve_explicit_tables scripted_env [listed_key ''public'' ''t'', listed_key ''other'' ''t''] [''public'']"
  obtain s' where run: "run_state ?m (initial_state []) = (Inr [], s')"
    by (simp add: resolve_explicit_tables_def catalog_query_def run_call_env scripted_env_def scripted_catalog_def
        initial_state_def listed_key_def LOGBOOK_SCHEMA_NAME_def FIND_EXPLICIT_TABLES_def)
  from explicit_tables_resolved [OF run] run show ?thesis by simp
qed

end
