(* ===== verification/Options.thy ===== *)
theory Options
  imports Discovery
begin

text \<open>
  The settings of a run (\<open>src/main.rs\<close>): the command line as \<open>clap\<close> hands it over (\<open>args\<close>), the
  configuration file as \<open>toml\<close> hands it over (\<open>toml_config\<close>), how the file is merged into the command line,
  and how a connection string fills what is still unset. Reading the command line and the syntax of the
  configuration file is the work of those libraries.
\<close>

section \<open>Command line and configuration file\<close>

record args =
  arg_dsn :: "string option"
  arg_host :: "string option"
  arg_port :: "nat option"
  arg_database :: "string option"
  arg_username :: "string option"
  arg_password :: "string option"
  arg_schema :: "string option"
  arg_discover_all_schemas :: bool
  arg_table :: "string option"
  arg_dry_run :: bool
  arg_mode :: "string list option"
  arg_force :: bool
  arg_skip_active_vacuum :: bool
  arg_limit :: "int option"
  arg_order_by :: "order_by option"
  arg_vacuum_older_than_days :: "int option"
  arg_analyze_older_than_days :: "int option"
  arg_bloat_threshold_pct :: f64
  arg_vacuum_threshold :: "int option"
  arg_vacuum_scale_factor :: "f64 option"
  arg_min_table_size_gb :: "f64 option"
  arg_max_table_size_gb :: "f64 option"
  arg_wraparound_min_age :: int
  arg_wraparound_pct :: "f64 option"
  arg_maintenance_work_mem_gb :: nat
  arg_vacuum_cost_delay_ms :: "f64 option"
  arg_vacuum_cost_limit :: "int option"
  arg_gentle :: bool
  arg_lock_timeout_ms :: nat
  arg_lock_timeout_retries :: nat
  arg_lock_timeout_retry_delay_ms :: nat
  arg_shutdown_mode :: shutdown_mode
  arg_shutdown_grace_seconds :: nat
  arg_max_replica_lag_seconds :: "f64 option"
  arg_max_replica_lag_wait_seconds :: nat
  arg_skip_xmin_horizon_check :: bool
  arg_xmin_horizon_warn_age :: int
  arg_also_tables :: "string list option"
  arg_sslmode :: ssl_mode
  arg_ssl_ca_cert :: "string option"
  arg_ssl_client_cert :: "string option"
  arg_ssl_client_key :: "string option"
  arg_log_file :: string
  arg_log_format :: log_format
  arg_log_rotation :: log_rotation
  arg_silence_mode :: bool
  arg_statement_timeout_seconds :: nat
  arg_connect_timeout_seconds :: nat
  arg_vacuum_truncate :: bool
  arg_vacuum_disable_page_skipping :: bool
  arg_vacuum_skip_locked :: bool
  arg_vacuum_index_cleanup :: "bool option"
  arg_vacuum_parallel :: "nat option"
  arg_config :: "string option"

record toml_config =
  toml_dsn :: "string option"
  toml_host :: "string option"
  toml_port :: "nat option"
  toml_database :: "string option"
  toml_username :: "string option"
  toml_password :: "string option"
  toml_schema :: "string option"
  toml_discover_all_schemas :: "bool option"
  toml_table :: "string option"
  toml_dry_run :: "bool option"
  toml_mode :: "string list option"
  toml_force :: "bool option"
  toml_skip_active_vacuum :: "bool option"
  toml_limit :: "int option"
  toml_order_by :: "string option"
  toml_vacuum_older_than_days :: "int option"
  toml_analyze_older_than_days :: "int option"
  toml_bloat_threshold_pct :: "f64 option"
  toml_vacuum_threshold :: "int option"
  toml_vacuum_scale_factor :: "f64 option"
  toml_min_table_size_gb :: "f64 option"
  toml_max_table_size_gb :: "f64 option"
  toml_wraparound_min_age :: "int option"
  toml_wraparound_pct :: "f64 option"
  toml_maintenance_work_mem_gb :: "nat option"
  toml_vacuum_cost_delay_ms :: "f64 option"
  toml_vacuum_cost_limit :: "int option"
  toml_gentle :: "bool option"
  toml_lock_timeout_ms :: "nat option"
  toml_lock_timeout_retries :: "nat option"
  toml_lock_timeout_retry_delay_ms :: "nat option"
  toml_shutdown_mode :: "string option"
  toml_shutdown_grace_seconds :: "nat option"
  toml_max_replica_lag_seconds :: "f64 option"
  toml_max_replica_lag_wait_seconds :: "nat option"
  toml_skip_xmin_horizon_check :: "bool option"
  toml_xmin_horizon_warn_age :: "int option"
  toml_also_tables :: "string list option"
  toml_sslmode :: "string option"
  toml_ssl_ca_cert :: "string option"
  toml_ssl_client_cert :: "string option"
  toml_ssl_client_key :: "string option"
  toml_log_file :: "string option"
  toml_log_format :: "string option"
  toml_log_rotation :: "string option"
  toml_silence_mode :: "bool option"
  toml_statement_timeout_seconds :: "nat option"
  toml_connect_timeout_seconds :: "nat option"
  toml_vacuum_truncate :: "bool option"
  toml_vacuum_disable_page_skipping :: "bool option"
  toml_vacuum_skip_locked :: "bool option"
  toml_vacuum_index_cleanup :: "bool option"
  toml_vacuum_parallel :: "nat option"

section \<open>Merging\<close>

text \<open>
  The four patterns of \<open>merge_config\<close>: an option is filled when unset, a flag when not given, a setting
  with a default when it equals the default, and a setting with a name likewise, if the name parses.
\<close>

definition fill_flag :: "bool \<Rightarrow> bool option \<Rightarrow> bool" where
  "fill_flag given file = (if \<not> given then unwrap_or file False else given)"

definition fill_default :: "'a \<Rightarrow> 'a \<Rightarrow> 'a option \<Rightarrow> 'a" where
  "fill_default dflt given file =
     (if given = dflt then (case file of Some v \<Rightarrow> v | None \<Rightarrow> given) else given)"

definition parsed :: "(string \<Rightarrow> string + 'a) \<Rightarrow> string option \<Rightarrow> 'a option" where
  "parsed from_str file =
     (case file of None \<Rightarrow> None | Some s \<Rightarrow> (case from_str s of Inr v \<Rightarrow> Some v | Inl _ \<Rightarrow> None))"

definition merge_config :: "toml_config \<Rightarrow> args \<Rightarrow> args" where
  "merge_config file a =
     \<lparr>arg_dsn = option_or (arg_dsn a) (toml_dsn file),
      arg_host = option_or (arg_host a) (toml_host file),
      arg_port = option_or (arg_port a) (toml_port file),
      arg_database = option_or (arg_database a) (toml_database file),
      arg_username = option_or (arg_username a) (toml_username file),
      arg_password = option_or (arg_password a) (toml_password file),
      arg_schema = option_or (arg_schema a) (toml_schema file),
      arg_discover_all_schemas = fill_flag (arg_discover_all_schemas a) (toml_discover_all_schemas file),
      arg_table = option_or (arg_table a) (toml_table file),
      arg_dry_run = fill_flag (arg_dry_run a) (toml_dry_run file),
      arg_mode = option_or (arg_mode a) (toml_mode file),
      arg_force = fill_flag (arg_force a) (toml_force file),
      arg_skip_active_vacuum = fill_flag (arg_skip_active_vacuum a) (toml_skip_active_vacuum file),
      arg_limit = option_or (arg_limit a) (toml_limit file),
      arg_order_by = option_or (arg_order_by a) (parsed order_by_from_str (toml_order_by file)),
      arg_vacuum_older_than_days = option_or (arg_vacuum_older_than_days a) (toml_vacuum_older_than_days file),
      arg_analyze_older_than_days = option_or (arg_analyze_older_than_days a) (toml_analyze_older_than_days file),
      arg_bloat_threshold_pct =
        fill_default DEFAULT_BLOAT_THRESHOLD_PCT (arg_bloat_threshold_pct a) (toml_bloat_threshold_pct file),
      arg_vacuum_threshold = option_or (arg_vacuum_threshold a) (toml_vacuum_threshold file),
      arg_vacuum_scale_factor = option_or (arg_vacuum_scale_factor a) (toml_vacuum_scale_factor file),
      arg_min_table_size_gb = option_or (arg_min_table_size_gb a) (toml_min_table_size_gb file),
      arg_max_table_size_gb = option_or (arg_max_table_size_gb a) (toml_max_table_size_gb file),
      arg_wraparound_min_age =
        fill_default DEFAULT_WRAPAROUND_MIN_AGE (arg_wraparound_min_age a) (toml_wraparound_min_age file),
      arg_wraparound_pct = option_or (arg_wraparound_pct a) (toml_wraparound_pct file),
      arg_maintenance_work_mem_gb =
        fill_default DEFAULT_MAINTENANCE_WORK_MEM_GB (arg_maintenance_work_mem_gb a) (toml_maintenance_work_mem_gb file),
      arg_vacuum_cost_delay_ms = option_or (arg_vacuum_cost_delay_ms a) (toml_vacuum_cost_delay_ms file),
      arg_vacuum_cost_limit = option_or (arg_vacuum_cost_limit a) (toml_vacuum_cost_limit file),
      arg_gentle = fill_flag (arg_gentle a) (toml_gentle file),
      arg_lock_timeout_ms = fill_default DEFAULT_LOCK_TIMEOUT_MS (arg_lock_timeout_ms a) (toml_lock_timeout_ms file),
      arg_lock_timeout_retries =
        fill_default DEFAULT_LOCK_TIMEOUT_RETRIES (arg_lock_timeout_retries a) (toml_lock_timeout_retries file),
      arg_lock_timeout_retry_delay_ms =
        fill_default DEFAULT_LOCK_TIMEOUT_RETRY_DELAY_MS (arg_lock_timeout_retry_delay_ms a)
          (toml_lock_timeout_retry_delay_ms file),
      arg_shutdown_mode =
        fill_default default_shutdown_mode (arg_shutdown_mode a) (parsed shutdown_mode_from_str (toml_shutdown_mode file)),
      arg_shutdown_grace_seconds =
        fill_default DEFAULT_SHUTDOWN_GRACE_SECONDS (arg_shutdown_grace_seconds a) (toml_shutdown_grace_seconds file),
      arg_max_replica_lag_seconds = option_or (arg_max_replica_lag_seconds a) (toml_max_replica_lag_seconds file),
      arg_max_replica_lag_wait_seconds =
        fill_default DEFAULT_REPLICA_LAG_WAIT_SECONDS (arg_max_replica_lag_wait_seconds a)
          (toml_max_replica_lag_wait_seconds file),
      arg_skip_xmin_horizon_check = fill_flag (arg_skip_xmin_horizon_check a) (toml_skip_xmin_horizon_check file),
      arg_xmin_horizon_warn_age =
        fill_default DEFAULT_XMIN_HORIZON_WARN_AGE (arg_xmin_horizon_warn_age a) (toml_xmin_horizon_warn_age file),
      arg_also_tables = option_or (arg_also_tables a) (toml_also_tables file),
      arg_sslmode = fill_default SslDisable (arg_sslmode a) (parsed ssl_mode_from_str (toml_sslmode file)),
      arg_ssl_ca_cert = option_or (arg_ssl_ca_cert a) (toml_ssl_ca_cert file),
      arg_ssl_client_cert = option_or (arg_ssl_client_cert a) (toml_ssl_client_cert file),
      arg_ssl_client_key = option_or (arg_ssl_client_key a) (toml_ssl_client_key file),
      arg_log_file = fill_default ''maintainer.log'' (arg_log_file a) (toml_log_file file),
      arg_log_format = fill_default TextFormat (arg_log_format a) (parsed log_format_from_str (toml_log_format file)),
      arg_log_rotation =
        fill_default NoRotation (arg_log_rotation a) (parsed log_rotation_from_str (toml_log_rotation file)),
      arg_silence_mode = fill_flag (arg_silence_mode a) (toml_silence_mode file),
      arg_statement_timeout_seconds =
        fill_default 0 (arg_statement_timeout_seconds a) (toml_statement_timeout_seconds file),
      arg_connect_timeout_seconds =
        fill_default DEFAULT_CONNECT_TIMEOUT_SECONDS (arg_connect_timeout_seconds a) (toml_connect_timeout_seconds file),
      arg_vacuum_truncate =
        fill_default True (arg_vacuum_truncate a) (toml_vacuum_truncate file),
      arg_vacuum_disable_page_skipping =
        fill_flag (arg_vacuum_disable_page_skipping a) (toml_vacuum_disable_page_skipping file),
      arg_vacuum_skip_locked = fill_flag (arg_vacuum_skip_locked a) (toml_vacuum_skip_locked file),
      arg_vacuum_index_cleanup = option_or (arg_vacuum_index_cleanup a) (toml_vacuum_index_cleanup file),
      arg_vacuum_parallel = option_or (arg_vacuum_parallel a) (toml_vacuum_parallel file),
      arg_config = arg_config a\<rparr>"

section \<open>The process\<close>

text \<open>
  What the program reads of its surroundings before it connects: the environment and file system (as for
  the password file), reading a file with its I/O error, \<open>PG_DSN\<close>, and the two parsers of other
  packages.
\<close>

record process =
  process_env :: pgpass_env
  read_file :: "string \<Rightarrow> (io_kind \<times> string) + string"
  pg_dsn_var :: env_var
  toml_from_str :: "string \<Rightarrow> string + toml_config"
  driver_parse :: "string \<Rightarrow> string + pg_config"

text \<open>A refusal is an error of \<open>run\<close>; a crash is a panic, which ends the process with code 101.\<close>

datatype stop = Refused error | Crashed

definition in_context :: "string \<Rightarrow> stop + 'a \<Rightarrow> stop + 'a" where
  "in_context msg x =
     (case x of Inl (Refused e) \<Rightarrow> Inl (Refused (with_context msg e)) | Inl Crashed \<Rightarrow> Inl Crashed | Inr y \<Rightarrow> Inr y)"

definition strip_suffix :: "char \<Rightarrow> string \<Rightarrow> string option" where
  "strip_suffix c s = (if s \<noteq> [] \<and> last s = c then Some (butlast s) else None)"

definition resolve_env_interpolation :: "pgpass_env \<Rightarrow> string option \<Rightarrow> string option" where
  "resolve_env_interpolation env value =
     Option.bind value (\<lambda>v.
       case Option.bind (strip_prefix ''${'' v) (strip_suffix (CHR ''}'')) of
         Some var_name \<Rightarrow> getenv env var_name
       | None \<Rightarrow> Some v)"

definition load_config_file :: "process \<Rightarrow> string \<Rightarrow> stop + toml_config" where
  "load_config_file p path =
     (if \<not> file_exists (process_env p) path then
        Inl (Refused (error_from_text (''Configuration file not found: '' @ path)))
      else (case read_file p path of
        Inl (kind, text) \<Rightarrow>
          Inl (Refused [CMsg (''Failed to read configuration file: '' @ path), CIo kind text])
      | Inr content \<Rightarrow>
          (case toml_from_str p content of
             Inl text \<Rightarrow> Inl (Refused [CMsg (''Failed to parse TOML configuration file: '' @ path), CMsg text])
           | Inr cfg \<Rightarrow>
               Inr (cfg\<lparr>toml_password := resolve_env_interpolation (process_env p) (toml_password cfg),
                       toml_dsn := resolve_env_interpolation (process_env p) (toml_dsn cfg)\<rparr>))))"

section \<open>The connection string\<close>

fun keyword_message :: "keyword_error \<Rightarrow> string" where
  "keyword_message EmptyName = ''malformed keyword/value string: empty parameter name''"
| "keyword_message (NoValue key) =
     ''malformed keyword/value string: parameter '' @ [squote] @ key @ [squote] @ '' has no '' @
     [squote] @ ''='' @ [squote] @ '' value''"
| "keyword_message (Unterminated key) =
     ''malformed keyword/value string: unterminated quoted value for '' @ [squote] @ key @ [squote]"

fun dsn_stop :: "dsn_error \<Rightarrow> stop" where
  "dsn_stop (Keyword e) = Refused (error_from_text (keyword_message e))"
| "dsn_stop EmptyDsn = Refused (error_from_text ''--dsn value is empty'')"
| "dsn_stop NotADsn =
     Refused (error_from_text (''could not parse --dsn: expected a postgres:// URI or a libpq '' @
       ''keyword string such as '' @ [dquote] @ ''host=db.internal dbname=mydb'' @ [dquote]))"
| "dsn_stop (BadConfig e) =
     Refused (error_from_text (''could not parse --dsn: '' @ e @ ''. Expected a postgres:// URI or a libpq '' @
       ''keyword string; note that the password must be percent-encoded in a URI''))"
| "dsn_stop (ManyHosts n) =
     Refused (error_from_text (''--dsn names '' @ dec n @ '' hosts '' @ em_dash @
       '' pg-maintainer connects to a single host, '' @
       ''so multi-host (failover) connection strings are not supported''))"
| "dsn_stop (UnsupportedSslmode value) =
     Refused (error_from_text (''DSN sslmode '' @ [squote] @ value @ [squote] @ '' is not supported '' @ em_dash @
       '' pg-maintainer connects either in plaintext or with TLS required, with no opportunistic mode. '' @
       ''Use one of: disable, require, verify-ca, verify-full''))"
| "dsn_stop (InvalidSslmode value) =
     Refused (error_from_text (''DSN has an invalid sslmode '' @ [squote] @ value @ [squote] @
       ''. Must be one of: disable, require, verify-ca, verify-full''))"
| "dsn_stop Panicked = Crashed"

record dsn_outcome =
  redacted :: "string option"
  outcome_ignored :: "string list"
  password_from_dsn :: bool

definition apply_parsed :: "parsed_dsn \<Rightarrow> args \<Rightarrow> args" where
  "apply_parsed d a =
     a\<lparr>arg_host := option_or (arg_host a) (dsn_host d),
       arg_port := option_or (arg_port a) (dsn_port d),
       arg_database := option_or (arg_database a) (dsn_database d),
       arg_username := option_or (arg_username a) (dsn_username d),
       arg_password := option_or (arg_password a) (dsn_password d),
       arg_sslmode := fill_default SslDisable (arg_sslmode a) (dsn_sslmode d),
       arg_ssl_ca_cert := option_or (arg_ssl_ca_cert a) (dsn_ca_cert d),
       arg_ssl_client_cert := option_or (arg_ssl_client_cert a) (dsn_client_cert d),
       arg_ssl_client_key := option_or (arg_ssl_client_key a) (dsn_client_key d),
       arg_connect_timeout_seconds :=
         fill_default DEFAULT_CONNECT_TIMEOUT_SECONDS (arg_connect_timeout_seconds a) (dsn_connect_timeout d)\<rparr>"

definition apply_dsn :: "process \<Rightarrow> args \<Rightarrow> stop + args \<times> dsn_outcome" where
  "apply_dsn p a =
     (case resolve_dsn_source (arg_dsn a) (pg_dsn_var p) of
        Inl msg \<Rightarrow>
          Inl (Refused (with_context msg (error_from_text ''environment variable was not valid unicode'')))
      | Inr None \<Rightarrow> Inr (a, \<lparr>redacted = None, outcome_ignored = [], password_from_dsn = False\<rparr>)
      | Inr (Some raw) \<Rightarrow>
          (case parse (driver_parse p) raw of
             Inl e \<Rightarrow> Inl (dsn_stop e)
           | Inr d \<Rightarrow>
               Inr (apply_parsed d a,
                 \<lparr>redacted = Some (redact raw), outcome_ignored = ignored_params d,
                  password_from_dsn = (arg_password a = None \<and> dsn_password d \<noteq> None)\<rparr>)))"

text \<open>The start of \<open>run\<close>: configuration file, then connection string.\<close>

definition effective_args :: "process \<Rightarrow> args \<Rightarrow> stop + args \<times> dsn_outcome" where
  "effective_args p a =
     (case (case arg_config a of
              None \<Rightarrow> Inr a
            | Some path \<Rightarrow>
                map_sum id (\<lambda>file. merge_config file a)
                  (in_context ''Failed to load configuration file'' (load_config_file p path))) of
        Inl e \<Rightarrow> Inl e
      | Inr merged \<Rightarrow> in_context ''Failed to apply connection string'' (apply_dsn p merged))"

section \<open>Which setting wins\<close>

text \<open>A configuration file that says nothing, and a connection string that says nothing.\<close>

definition no_config :: toml_config where
  "no_config =
     \<lparr>toml_dsn = None, toml_host = None, toml_port = None,
      toml_database = None, toml_username = None, toml_password = None,
      toml_schema = None, toml_discover_all_schemas = None, toml_table = None,
      toml_dry_run = None, toml_mode = None, toml_force = None,
      toml_skip_active_vacuum = None, toml_limit = None, toml_order_by = None,
      toml_vacuum_older_than_days = None, toml_analyze_older_than_days = None, toml_bloat_threshold_pct = None,
      toml_vacuum_threshold = None, toml_vacuum_scale_factor = None, toml_min_table_size_gb = None,
      toml_max_table_size_gb = None, toml_wraparound_min_age = None, toml_wraparound_pct = None,
      toml_maintenance_work_mem_gb = None, toml_vacuum_cost_delay_ms = None, toml_vacuum_cost_limit = None,
      toml_gentle = None, toml_lock_timeout_ms = None, toml_lock_timeout_retries = None,
      toml_lock_timeout_retry_delay_ms = None, toml_shutdown_mode = None, toml_shutdown_grace_seconds = None,
      toml_max_replica_lag_seconds = None, toml_max_replica_lag_wait_seconds = None, toml_skip_xmin_horizon_check = None,
      toml_xmin_horizon_warn_age = None, toml_also_tables = None, toml_sslmode = None,
      toml_ssl_ca_cert = None, toml_ssl_client_cert = None, toml_ssl_client_key = None,
      toml_log_file = None, toml_log_format = None, toml_log_rotation = None,
      toml_silence_mode = None, toml_statement_timeout_seconds = None, toml_connect_timeout_seconds = None,
      toml_vacuum_truncate = None, toml_vacuum_disable_page_skipping = None, toml_vacuum_skip_locked = None,
      toml_vacuum_index_cleanup = None, toml_vacuum_parallel = None\<rparr>"

definition no_dsn :: parsed_dsn where
  "no_dsn =
     \<lparr>dsn_host = None, dsn_port = None, dsn_database = None, dsn_username = None, dsn_password = None,
      dsn_sslmode = None, dsn_ca_cert = None, dsn_client_cert = None, dsn_client_key = None,
      dsn_connect_timeout = None, ignored_params = []\<rparr>"

lemma fill_simps [simp]:
  "fill_flag b None = b"
  "fill_flag (fill_flag b f) f = fill_flag b f"
  "fill_default d x None = x"
  "fill_default d (fill_default d x g) g = fill_default d x g"
  "parsed from_str None = None"
  "option_or (option_or y h) h = option_or y h"
  by (simp add: fill_flag_def unwrap_or_def, cases f, simp_all add: fill_flag_def unwrap_or_def
      fill_default_def parsed_def, cases g, simp_all, cases y, simp_all, cases h, simp_all)

lemma fill_flag_iff: "fill_flag b f = (b \<or> f = Some True)"
  by (cases f) (auto simp: fill_flag_def unwrap_or_def)

lemma fill_default_if: "fill_default d x f = (if x = d then unwrap_or f d else x)"
  by (cases f) (auto simp: fill_default_def unwrap_or_def)

lemma option_or_assoc: "option_or (option_or x y) z = option_or x (option_or y z)"
  by (cases x) simp_all

lemma option_or_eq_None: "option_or x y = None \<longleftrightarrow> x = None \<and> y = None"
  by (cases x) simp_all

lemma Some_unwrap_or: "Some (unwrap_or x v) = option_or x (Some v)"
  by (cases x) (simp_all add: unwrap_or_def)

lemma fill_default_explicit [simp]: "x \<noteq> d \<Longrightarrow> fill_default d x f = x"
  by (simp add: fill_default_def)

lemma merge_no_config: "merge_config no_config a = a"
  by (simp add: merge_config_def no_config_def)

text \<open>
  Merging a configuration file fills, and does no more: a file that says nothing changes nothing, and
  merging the same file again changes nothing. A numeric setting of the command line other than its
  default stays. One that was given explicitly but equals its default is replaced by the file's, although
  the command line is meant to win always: so for the lock timeout, and so for \<open>--vacuum-truncate true\<close>.
\<close>

theorem merge_fills_only:
  "merge_config no_config a = a
   \<and> merge_config file (merge_config file a) = merge_config file a
   \<and> arg_lock_timeout_ms (merge_config file a) =
       (if arg_lock_timeout_ms a = DEFAULT_LOCK_TIMEOUT_MS
        then unwrap_or (toml_lock_timeout_ms file) DEFAULT_LOCK_TIMEOUT_MS else arg_lock_timeout_ms a)
   \<and> arg_wraparound_min_age (merge_config file a) =
       (if arg_wraparound_min_age a = DEFAULT_WRAPAROUND_MIN_AGE
        then unwrap_or (toml_wraparound_min_age file) DEFAULT_WRAPAROUND_MIN_AGE else arg_wraparound_min_age a)
   \<and> arg_vacuum_truncate (merge_config (file\<lparr>toml_vacuum_truncate := Some False\<rparr>) a) = False
   \<and> arg_limit (merge_config file a) = option_or (arg_limit a) (toml_limit file)
   \<and> arg_dry_run (merge_config file a) = (arg_dry_run a \<or> toml_dry_run file = Some True)"
proof -
  have again: "merge_config file (merge_config file a) = merge_config file a"
    unfolding merge_config_def by simp
  show ?thesis
    by (intro conjI merge_no_config again)
      (simp_all add: merge_config_def fill_flag_iff fill_default_if unwrap_or_def)
qed

fun first_some :: "'a option list \<Rightarrow> 'a option" where
  "first_some [] = None"
| "first_some (x # xs) = (case x of Some v \<Rightarrow> Some v | None \<Rightarrow> first_some xs)"

lemma first_some_simps:
  "first_some [x] = x" "first_some (x # y # xs) = option_or x (first_some (y # xs))"
  by (cases x; simp)+

text \<open>The parameters of the session, as \<open>run\<close> passes them on.\<close>

definition connection_of :: "process \<Rightarrow> args \<Rightarrow> connection_config" where
  "connection_of p a =
     from_args (process_env p) (arg_host a) (arg_port a) (arg_database a) (arg_username a) (arg_password a)
       (arg_sslmode a) (arg_ssl_ca_cert a) (arg_ssl_client_cert a) (arg_ssl_client_key a)
       (arg_connect_timeout_seconds a)"

definition file_used :: "process \<Rightarrow> args \<Rightarrow> toml_config \<Rightarrow> bool" where
  "file_used p a file =
     (case arg_config a of None \<Rightarrow> file = no_config | Some path \<Rightarrow> load_config_file p path = Inr file)"

definition dsn_used :: "process \<Rightarrow> string option \<Rightarrow> parsed_dsn \<Rightarrow> bool" where
  "dsn_used p given d =
     (case resolve_dsn_source given (pg_dsn_var p) of
        Inr (Some raw) \<Rightarrow> parse (driver_parse p) raw = Inr d
      | _ \<Rightarrow> d = no_dsn)"

lemma apply_no_dsn: "apply_parsed no_dsn a = a"
  by (simp add: apply_parsed_def no_dsn_def)

lemma in_context_Inr [simp]: "in_context msg x = Inr y \<longleftrightarrow> x = Inr y"
  by (auto simp: in_context_def split: sum.splits stop.splits)

lemma effective_args_layers:
  assumes "effective_args p a = Inr (b, out)"
  obtains cfg d where "file_used p a cfg" "dsn_used p (option_or (arg_dsn a) (toml_dsn cfg)) d"
    "b = apply_parsed d (merge_config cfg a)"
    "password_from_dsn out \<longleftrightarrow> arg_password (merge_config cfg a) = None \<and> dsn_password d \<noteq> None"
proof -
  from assms obtain cfg where cfg: "file_used p a cfg" "apply_dsn p (merge_config cfg a) = Inr (b, out)"
    by (cases "arg_config a"; cases "load_config_file p (the (arg_config a))")
      (auto simp: effective_args_def file_used_def merge_no_config in_context_def
        split: sum.splits stop.splits intro: that)
  have dsn: "arg_dsn (merge_config cfg a) = option_or (arg_dsn a) (toml_dsn cfg)"
    by (simp add: merge_config_def)
  from cfg(2) have "\<exists>d. dsn_used p (arg_dsn (merge_config cfg a)) d \<and> b = apply_parsed d (merge_config cfg a)
      \<and> (password_from_dsn out \<longleftrightarrow> arg_password (merge_config cfg a) = None \<and> dsn_password d \<noteq> None)"
    by (auto simp: apply_dsn_def dsn_used_def apply_no_dsn split: sum.splits option.splits)
      (simp add: no_dsn_def)
  with cfg(1) dsn show thesis by (auto intro: that)
qed

text \<open>A value that says something: one that is not the default.\<close>

definition unless_default :: "'a \<Rightarrow> 'a option \<Rightarrow> 'a option" where
  "unless_default dflt x = (if x = Some dflt then None else x)"

lemma fill_default_twice:
  "Some (fill_default dflt (fill_default dflt x f) g) =
     first_some [unless_default dflt (Some x), unless_default dflt f, unless_default dflt g, Some dflt]"
  by (cases f; cases g) (auto simp: fill_default_def unless_default_def)

text \<open>
  C25: Where the connection parameters come from. Host, port, database and user are each the first that is given
  of: the command line, the configuration file, the connection string, the environment variable, the built-in
  default; for the password the variable, the secret file and the password file come last, in this order; for
  the three certificate files only the first three count. The TLS mode and the connect timeout always have a
  value on the command line: there the first value that differs from the default counts, so that a value given
  explicitly on the command line is replaced when it equals the default. The connection string is the one of
  the command line, or of the file, or of \<open>PG_DSN\<close>.
\<close>

theorem connection_precedence:
  assumes "effective_args p a = Inr (b, out)"
  shows "\<exists>file d. file_used p a file \<and> dsn_used p (option_or (arg_dsn a) (toml_dsn file)) d
    \<and> Some (conn_host (connection_of p b)) =
        first_some [arg_host a, toml_host file, dsn_host d, getenv (process_env p) ''PG_HOST'',
                    Some DEFAULT_POSTGRES_HOST]
    \<and> Some (conn_port (connection_of p b)) =
        first_some [arg_port a, toml_port file, dsn_port d,
                    Option.bind (getenv (process_env p) ''PG_PORT'') parse_u16, Some DEFAULT_POSTGRES_PORT]
    \<and> Some (conn_database (connection_of p b)) =
        first_some [arg_database a, toml_database file, dsn_database d, getenv (process_env p) ''PG_DATABASE'',
                    Some DEFAULT_POSTGRES_DATABASE]
    \<and> Some (conn_username (connection_of p b)) =
        first_some [arg_username a, toml_username file, dsn_username d, getenv (process_env p) ''PG_USER'',
                    Some DEFAULT_POSTGRES_USERNAME]
    \<and> conn_password (connection_of p b) =
        first_some [arg_password a, toml_password file, dsn_password d, env_password (process_env p),
                    file_password (process_env p),
                    (case get_password_from_pgpass (process_env p) (conn_host (connection_of p b))
                            (conn_port (connection_of p b)) (conn_database (connection_of p b))
                            (conn_username (connection_of p b)) of Inr pw \<Rightarrow> pw | Inl _ \<Rightarrow> None)]
    \<and> conn_ca_cert (connection_of p b) = first_some [arg_ssl_ca_cert a, toml_ssl_ca_cert file, dsn_ca_cert d]
    \<and> conn_client_cert (connection_of p b) =
        first_some [arg_ssl_client_cert a, toml_ssl_client_cert file, dsn_client_cert d]
    \<and> conn_client_key (connection_of p b) = first_some [arg_ssl_client_key a, toml_ssl_client_key file, dsn_client_key d]
    \<and> Some (conn_sslmode (connection_of p b)) =
        first_some [unless_default SslDisable (Some (arg_sslmode a)),
                    unless_default SslDisable (parsed ssl_mode_from_str (toml_sslmode file)),
                    unless_default SslDisable (dsn_sslmode d), Some SslDisable]
    \<and> Some (conn_timeout_seconds (connection_of p b)) =
        first_some [unless_default 10 (Some (arg_connect_timeout_seconds a)),
                    unless_default 10 (toml_connect_timeout_seconds file),
                    unless_default 10 (dsn_connect_timeout d), Some 10]
    \<and> password_from_dsn out = (arg_password a = None \<and> toml_password file = None \<and> dsn_password d \<noteq> None)"
proof -
  from assms obtain cfg d where layers: "file_used p a cfg"
    "dsn_used p (option_or (arg_dsn a) (toml_dsn cfg)) d" "b = apply_parsed d (merge_config cfg a)"
    "password_from_dsn out \<longleftrightarrow> arg_password (merge_config cfg a) = None \<and> dsn_password d \<noteq> None"
    by (rule effective_args_layers)
  have "Some (conn_sslmode (connection_of p b)) =
        first_some [unless_default SslDisable (Some (arg_sslmode a)),
                    unless_default SslDisable (parsed ssl_mode_from_str (toml_sslmode cfg)),
                    unless_default SslDisable (dsn_sslmode d), Some SslDisable]"
    "Some (conn_timeout_seconds (connection_of p b)) =
        first_some [unless_default 10 (Some (arg_connect_timeout_seconds a)),
                    unless_default 10 (toml_connect_timeout_seconds cfg),
                    unless_default 10 (dsn_connect_timeout d), Some 10]"
    unfolding fill_default_twice [symmetric]
    by (simp_all add: layers(3) connection_of_def from_args_def Let_def apply_parsed_def merge_config_def
        DEFAULT_CONNECT_TIMEOUT_SECONDS_def)
  moreover note layers(1,2)
  ultimately show ?thesis
    by (intro exI [of _ cfg] exI [of _ d] conjI)
      (simp_all add: layers(3,4) connection_of_def from_args_def Let_def apply_parsed_def merge_config_def
        first_some_simps Some_unwrap_or option_or_assoc option_or_eq_None del: first_some.simps)
qed

text \<open>The command line without arguments, and a process with a file for every path and no variables.\<close>

definition default_args :: args where
  "default_args =
     \<lparr>arg_dsn = None, arg_host = None, arg_port = None, arg_database = None, arg_username = None,
      arg_password = None, arg_schema = None, arg_discover_all_schemas = False, arg_table = None,
      arg_dry_run = False, arg_mode = None, arg_force = False, arg_skip_active_vacuum = False,
      arg_limit = None, arg_order_by = None, arg_vacuum_older_than_days = None,
      arg_analyze_older_than_days = None, arg_bloat_threshold_pct = DEFAULT_BLOAT_THRESHOLD_PCT,
      arg_vacuum_threshold = None, arg_vacuum_scale_factor = None, arg_min_table_size_gb = None,
      arg_max_table_size_gb = None, arg_wraparound_min_age = DEFAULT_WRAPAROUND_MIN_AGE,
      arg_wraparound_pct = None, arg_maintenance_work_mem_gb = DEFAULT_MAINTENANCE_WORK_MEM_GB,
      arg_vacuum_cost_delay_ms = None, arg_vacuum_cost_limit = None, arg_gentle = False,
      arg_lock_timeout_ms = DEFAULT_LOCK_TIMEOUT_MS, arg_lock_timeout_retries = DEFAULT_LOCK_TIMEOUT_RETRIES,
      arg_lock_timeout_retry_delay_ms = DEFAULT_LOCK_TIMEOUT_RETRY_DELAY_MS,
      arg_shutdown_mode = default_shutdown_mode, arg_shutdown_grace_seconds = DEFAULT_SHUTDOWN_GRACE_SECONDS,
      arg_max_replica_lag_seconds = None, arg_max_replica_lag_wait_seconds = DEFAULT_REPLICA_LAG_WAIT_SECONDS,
      arg_skip_xmin_horizon_check = False, arg_xmin_horizon_warn_age = DEFAULT_XMIN_HORIZON_WARN_AGE,
      arg_also_tables = None, arg_sslmode = SslDisable, arg_ssl_ca_cert = None, arg_ssl_client_cert = None,
      arg_ssl_client_key = None, arg_log_file = ''maintainer.log'', arg_log_format = TextFormat,
      arg_log_rotation = NoRotation, arg_silence_mode = False, arg_statement_timeout_seconds = 0,
      arg_connect_timeout_seconds = DEFAULT_CONNECT_TIMEOUT_SECONDS, arg_vacuum_truncate = True,
      arg_vacuum_disable_page_skipping = False, arg_vacuum_skip_locked = False,
      arg_vacuum_index_cleanup = None, arg_vacuum_parallel = None, arg_config = None\<rparr>"

definition example_process :: process where
  "example_process =
     \<lparr>process_env = \<lparr>getenv = (\<lambda>v. None), file_exists = (\<lambda>f. True), file_mode = (\<lambda>f. None), file_text = (\<lambda>f. None)\<rparr>,
      read_file = (\<lambda>f. Inr []), pg_dsn_var = Missing,
      toml_from_str = (\<lambda>t. Inr (no_config\<lparr>toml_host := Some ''filehost''\<rparr>)), driver_parse = (\<lambda>t. Inl [])\<rparr>"

definition example_file :: toml_config where
  "example_file = no_config\<lparr>toml_host := Some ''filehost''\<rparr>"

definition example_args :: args where
  "example_args = default_args\<lparr>arg_config := Some ''f''\<rparr>"

lemma example_settings:
  "toml_host example_file = Some ''filehost''" "toml_port example_file = None" "toml_dsn example_file = None"
  "toml_password example_file = None"
  "arg_host example_args = None" "arg_port example_args = None" "arg_dsn example_args = None"
  "arg_config example_args = Some ''f''" "dsn_port no_dsn = None" "getenv (process_env example_process) v = None"
  by (simp_all add: example_file_def no_config_def example_args_def default_args_def no_dsn_def
      example_process_def)

lemma example_load: "load_config_file example_process path = Inr example_file"
  by (simp add: load_config_file_def example_process_def resolve_env_interpolation_def example_file_def
      no_config_def)

lemma example_dsn: "resolve_dsn_source None (pg_dsn_var example_process) = Inr None"
  by (simp add: resolve_dsn_source_def example_process_def)

lemma example_effective:
  "\<exists>out. effective_args example_process example_args = Inr (merge_config example_file example_args, out)"
proof -
  have "arg_dsn (merge_config example_file example_args) = None"
    by (simp add: merge_config_def example_settings)
  then show ?thesis
    by (simp add: effective_args_def example_settings example_load apply_dsn_def example_dsn in_context_def)
qed

theorem connection_precedence_witness:
  "\<exists>b out. effective_args example_process example_args = Inr (b, out)
     \<and> conn_host (connection_of example_process b) = ''filehost''
     \<and> conn_port (connection_of example_process b) = 5432"
proof -
  obtain b out where run: "effective_args example_process example_args = Inr (b, out)"
    using example_effective by blast
  have used: "file_used example_process example_args cfg \<longleftrightarrow> cfg = example_file" for cfg
    by (auto simp: file_used_def example_settings example_load)
  have none: "dsn_used example_process None d \<longleftrightarrow> d = no_dsn" for d
    by (simp add: dsn_used_def example_dsn)
  from connection_precedence [OF run]
  have "Some (conn_host (connection_of example_process b)) =
      first_some [arg_host example_args, toml_host example_file, dsn_host no_dsn,
        getenv (process_env example_process) ''PG_HOST'', Some DEFAULT_POSTGRES_HOST]"
    "Some (conn_port (connection_of example_process b)) =
      first_some [arg_port example_args, toml_port example_file, dsn_port no_dsn,
        Option.bind (getenv (process_env example_process) ''PG_PORT'') parse_u16, Some DEFAULT_POSTGRES_PORT]"
    unfolding used by (metis none example_settings(3,7) option_or_None)+
  with run show ?thesis by (simp add: example_settings DEFAULT_POSTGRES_PORT_def)
qed

end
