(* ===== verification/Validate.thy ===== *)
theory Validate
  imports Options
begin

text \<open>
  What \<open>run\<close> (\<open>src/main.rs\<close>) checks before it connects: the checks in the order of the code, each with
  its message, and the values it derives from the settings. All checks are made before anything is sent to
  a server.
\<close>

section \<open>The checks\<close>

fun parse_mode_list :: "string list \<Rightarrow> mode set \<Rightarrow> string + mode set" where
  "parse_mode_list [] modes = Inr modes"
| "parse_mode_list (s # ss) modes =
     (case mode_from_str s of
        Inl e \<Rightarrow> Inl (''Invalid mode: '' @ e)
      | Inr m \<Rightarrow> parse_mode_list ss (insert m modes))"

definition parse_modes :: "string list option \<Rightarrow> string + mode set" where
  "parse_modes mode_strs =
     (case mode_strs of
        Some strs \<Rightarrow>
          (case parse_mode_list strs {} of
             Inl e \<Rightarrow> Inl e
           | Inr modes \<Rightarrow> if modes = {} then Inl ''--mode list cannot be empty'' else Inr modes)
      | None \<Rightarrow>
          Inl (''--mode is required (e.g. --mode never-vacuumed,never-analyzed,prevent-wraparound,prevent-bloat); '' @
            ''every mode is opt-in and none run by default. Set it via --mode or the `mode` key in a TOML config file.''))"

text \<open>A check is a condition under which the run is refused, with the message.\<close>

type_synonym check = "bool \<times> string"

definition check_opt :: "'a option \<Rightarrow> ('a \<Rightarrow> check) \<Rightarrow> check" where
  "check_opt x f = (case x of None \<Rightarrow> (False, []) | Some v \<Rightarrow> f v)"

definition days_checks :: "string \<Rightarrow> string \<Rightarrow> bool \<Rightarrow> int option \<Rightarrow> check list" where
  "days_checks mode_name flag enabled days =
     [(enabled \<and> days = None, ''--mode '' @ mode_name @ '' requires '' @ flag),
      check_opt days (\<lambda>d. (enabled \<and> (d < 1 \<or> i32_max < d), flag @ '' ('' @ dec_int d @ '') must be >= 1''))]"

definition between_message :: "string \<Rightarrow> nat \<Rightarrow> nat \<Rightarrow> string" where
  "between_message flag n hi = flag @ '' ('' @ dec n @ '') must be between 1 and '' @ dec hi"

fun throttle_message :: "throttle_error \<Rightarrow> string" where
  "throttle_message (CostDelayOutOfRange d) =
     ''--vacuum-cost-delay-ms ('' @ show_f64 d @ '') must be between 0 and '' @ show_f64 MAX_VACUUM_COST_DELAY_MS"
| "throttle_message (CostLimitOutOfRange l) =
     ''--vacuum-cost-limit ('' @ dec_int l @ '') must be between '' @ dec_int MIN_VACUUM_COST_LIMIT @ '' and '' @
     dec_int MAX_VACUUM_COST_LIMIT"

fun explicit_message :: "explicit_error \<Rightarrow> string" where
  "explicit_message (NotSchemaQualified e) =
     ''--also-tables entry '' @ [squote] @ e @ [squote] @ '' must be schema-qualified, e.g. public.'' @ e"
| "explicit_message (NotASchemaTableName e) =
     ''--also-tables entry '' @ [squote] @ e @ [squote] @ '' is not a valid schema.table name''"
| "explicit_message (MoreThanOneDot e) =
     ''--also-tables entry '' @ [squote] @ e @ [squote] @ '' has more than one '' @ [squote, dot, squote] @ '' '' @
     em_dash @ '' expected schema.table''"

definition check_sum :: "('e \<Rightarrow> string) \<Rightarrow> 'e + 'a \<Rightarrow> check" where
  "check_sum msg x = (case x of Inl e \<Rightarrow> (True, msg e) | Inr _ \<Rightarrow> (False, []))"

definition min_gb :: "args \<Rightarrow> f64" where "min_gb a = unwrap_or (arg_min_table_size_gb a) (Fin 0)"
definition max_gb :: "args \<Rightarrow> f64" where "max_gb a = unwrap_or (arg_max_table_size_gb a) PInf"

definition throttle_of :: "args \<Rightarrow> throttle_settings" where
  "throttle_of a = throttle_resolve (arg_vacuum_cost_delay_ms a) (arg_vacuum_cost_limit a) (arg_gentle a)"

definition also_tables_of :: "args \<Rightarrow> explicit_error + table_key list" where
  "also_tables_of a = (case arg_also_tables a of Some entries \<Rightarrow> parse_list entries | None \<Rightarrow> Inr [])"

definition overdue_checks :: "mode set \<Rightarrow> args \<Rightarrow> check list" where
  "overdue_checks modes a =
     days_checks ''vacuum-overdue'' ''--vacuum-older-than-days'' (VacuumOverdue \<in> modes) (arg_vacuum_older_than_days a) @
     days_checks ''analyze-overdue'' ''--analyze-older-than-days'' (AnalyzeOverdue \<in> modes) (arg_analyze_older_than_days a)"

definition candidate_checks :: "args \<Rightarrow> check list" where
  "candidate_checks a =
     [check_opt (arg_limit a) (\<lambda>l. (l \<le> 0, ''--limit ('' @ dec_int l @ '') must be > 0'')),
      (arg_force a \<and> arg_skip_active_vacuum a,
       ''--force and --skip-active-vacuum are mutually exclusive: choose one intent (terminate or skip)''),
      check_opt (arg_vacuum_threshold a) (\<lambda>t. (t < 0, ''--vacuum-threshold ('' @ dec_int t @ '') must be >= 0'')),
      check_opt (arg_vacuum_scale_factor a)
        (\<lambda>f. (f < Fin 0, ''--vacuum-scale-factor ('' @ show_f64 f @ '') must be >= 0.0'')),
      (\<not> f64_in_range (Fin 0) (Fin 100) (arg_bloat_threshold_pct a),
       ''--bloat-threshold-pct ('' @ show_f64 (arg_bloat_threshold_pct a) @ '') must be between 0 and 100''),
      (min_gb a < Fin 0 \<or> max_gb a < Fin 0, ''--min-table-size-gb and --max-table-size-gb must be >= 0''),
      (max_gb a < min_gb a \<and> max_gb a \<noteq> PInf,
       ''--min-table-size-gb ('' @ show_f64 (min_gb a) @ '') must be <= --max-table-size-gb ('' @ show_f64 (max_gb a) @ '')'')]"

definition session_checks :: "args \<Rightarrow> check list" where
  "session_checks a =
     [(MAX_MAINTENANCE_WORK_MEM_GB < arg_maintenance_work_mem_gb a,
       ''--maintenance-work-mem-gb ('' @ dec (arg_maintenance_work_mem_gb a) @ '') exceeds maximum ('' @
       dec MAX_MAINTENANCE_WORK_MEM_GB @ '')''),
      check_sum throttle_message (throttle_validate (throttle_of a)),
      check_opt (arg_max_replica_lag_seconds a)
        (\<lambda>t. (t < Fin 0, ''--max-replica-lag-seconds ('' @ show_f64 t @ '') must be >= 0'')),
      (arg_xmin_horizon_warn_age a < 0,
       ''--xmin-horizon-warn-age ('' @ dec_int (arg_xmin_horizon_warn_age a) @ '') must be >= 0''),
      check_opt (arg_vacuum_parallel a)
        (\<lambda>n. (MAX_VACUUM_PARALLEL < n,
              ''--vacuum-parallel ('' @ dec n @ '') must be between 0 and '' @ dec MAX_VACUUM_PARALLEL)),
      (\<not> (1 \<le> arg_lock_timeout_ms a \<and> arg_lock_timeout_ms a \<le> MAX_LOCK_TIMEOUT_MS),
       between_message ''--lock-timeout-ms'' (arg_lock_timeout_ms a) MAX_LOCK_TIMEOUT_MS),
      (MAX_LOCK_TIMEOUT_RETRIES < arg_lock_timeout_retries a,
       ''--lock-timeout-retries ('' @ dec (arg_lock_timeout_retries a) @ '') must be <= '' @ dec MAX_LOCK_TIMEOUT_RETRIES),
      (\<not> (1 \<le> arg_lock_timeout_retry_delay_ms a
            \<and> arg_lock_timeout_retry_delay_ms a \<le> MAX_LOCK_TIMEOUT_RETRY_DELAY_MS),
       between_message ''--lock-timeout-retry-delay-ms'' (arg_lock_timeout_retry_delay_ms a)
         MAX_LOCK_TIMEOUT_RETRY_DELAY_MS),
      (\<not> (1 \<le> arg_shutdown_grace_seconds a \<and> arg_shutdown_grace_seconds a \<le> MAX_SHUTDOWN_GRACE_SECONDS),
       between_message ''--shutdown-grace-seconds'' (arg_shutdown_grace_seconds a) MAX_SHUTDOWN_GRACE_SECONDS),
      check_sum explicit_message (also_tables_of a),
      check_opt (arg_wraparound_pct a)
        (\<lambda>p. (\<not> f64_in_range (Fin 0) (Fin 100) p,
              ''--wraparound-pct ('' @ show_f64 p @ '') must be between 0 and 100''))]"

fun first_violated :: "check list \<Rightarrow> string option" where
  "first_violated [] = None"
| "first_violated ((bad, msg) # cs) = (if bad then Some msg else first_violated cs)"

record run_plan =
  plan_modes :: "mode set"
  plan_min_bytes :: int
  plan_max_bytes :: int
  plan_throttle :: throttle_settings
  plan_also_tables :: "table_key list"

definition BYTES_PER_GB :: rat where "BYTES_PER_GB = 1073741824"

definition plan_of :: "mode set \<Rightarrow> args \<Rightarrow> run_plan" where
  "plan_of modes a =
     \<lparr>plan_modes = modes,
      plan_min_bytes = f64_as_i64 (f64_times (min_gb a) BYTES_PER_GB),
      plan_max_bytes = (if max_gb a = PInf then i64_max else f64_as_i64 (f64_times (max_gb a) BYTES_PER_GB)),
      plan_throttle = throttle_of a,
      plan_also_tables = (case also_tables_of a of Inr ts \<Rightarrow> ts | Inl _ \<Rightarrow> [])\<rparr>"

definition validate :: "args \<Rightarrow> string + run_plan" where
  "validate a =
     (if arg_schema a = None \<and> \<not> arg_discover_all_schemas a
      then Inl ''Either --schema or --discover-all-schemas must be provided''
      else (case parse_modes (arg_mode a) of
        Inl e \<Rightarrow> Inl e
      | Inr modes \<Rightarrow>
          (case first_violated (overdue_checks modes a @ candidate_checks a @ session_checks a) of
             Some msg \<Rightarrow> Inl msg
           | None \<Rightarrow> Inr (plan_of modes a))))"

section \<open>What passes\<close>

lemma first_violated_None: "first_violated cs = None \<longleftrightarrow> list_all (\<lambda>c. \<not> fst c) cs"
  by (induction cs rule: first_violated.induct) auto

lemma check_opt_passes [simp]: "\<not> fst (check_opt x f) \<longleftrightarrow> (\<forall>v. x = Some v \<longrightarrow> \<not> fst (f v))"
  by (cases x) (simp_all add: check_opt_def)

lemma check_sum_passes [simp]: "\<not> fst (check_sum msg x) \<longleftrightarrow> (\<exists>y. x = Inr y)"
  by (cases x) (simp_all add: check_sum_def)

lemma parse_mode_list_Inr:
  "parse_mode_list ss acc = Inr out \<longleftrightarrow>
     (\<exists>xs. list_all2 (\<lambda>s m. mode_from_str s = Inr m) ss xs \<and> out = acc \<union> set xs)"
proof (induction ss arbitrary: acc)
  case (Cons s ss)
  show ?case
  proof (cases "mode_from_str s")
    case (Inr m)
    have "(\<exists>xs. list_all2 (\<lambda>s m. mode_from_str s = Inr m) (s # ss) xs \<and> out = acc \<union> set xs) \<longleftrightarrow>
        (\<exists>xs. list_all2 (\<lambda>s m. mode_from_str s = Inr m) ss xs \<and> out = acc \<union> set (m # xs))"
      by (auto simp: list_all2_Cons1 Inr)
    with Inr Cons.IH show ?thesis by simp
  qed (auto simp: list_all2_Cons1)
qed auto

lemma parse_modes_Inr:
  "parse_modes given = Inr modes \<longleftrightarrow>
     (\<exists>ss xs. given = Some ss \<and> list_all2 (\<lambda>s m. mode_from_str s = Inr m) ss xs \<and> modes = set xs \<and> xs \<noteq> [])"
proof -
  have "parse_modes given = Inr modes \<longleftrightarrow> (\<exists>ss. given = Some ss \<and> parse_mode_list ss {} = Inr modes \<and> modes \<noteq> {})"
    by (auto simp: parse_modes_def split: option.split sum.splits)
  then show ?thesis unfolding parse_mode_list_Inr by auto
qed

text \<open>The conditions on the settings, as a user would state them.\<close>

definition overdue_settings_ok :: "mode set \<Rightarrow> args \<Rightarrow> bool" where
  "overdue_settings_ok modes a =
     ((VacuumOverdue \<in> modes \<longrightarrow> (\<exists>d. arg_vacuum_older_than_days a = Some d \<and> 1 \<le> d \<and> d \<le> i32_max))
      \<and> (AnalyzeOverdue \<in> modes \<longrightarrow> (\<exists>d. arg_analyze_older_than_days a = Some d \<and> 1 \<le> d \<and> d \<le> i32_max)))"

definition candidate_settings_ok :: "args \<Rightarrow> bool" where
  "candidate_settings_ok a =
     ((\<forall>l. arg_limit a = Some l \<longrightarrow> 0 < l)
      \<and> \<not> (arg_force a \<and> arg_skip_active_vacuum a)
      \<and> (\<forall>t. arg_vacuum_threshold a = Some t \<longrightarrow> 0 \<le> t)
      \<and> (\<forall>f. arg_vacuum_scale_factor a = Some f \<longrightarrow> f = NaN \<or> Fin 0 \<le> f)
      \<and> (\<exists>p. arg_bloat_threshold_pct a = Fin p \<and> 0 \<le> p \<and> p \<le> 100)
      \<and> (min_gb a = NaN \<or> Fin 0 \<le> min_gb a) \<and> (max_gb a = NaN \<or> Fin 0 \<le> max_gb a)
      \<and> (min_gb a = NaN \<or> max_gb a = NaN \<or> min_gb a \<le> max_gb a))"

definition session_settings_ok :: "args \<Rightarrow> bool" where
  "session_settings_ok a =
     (arg_maintenance_work_mem_gb a \<le> 32
      \<and> throttle_validate (throttle_of a) = Inr ()
      \<and> (\<forall>t. arg_max_replica_lag_seconds a = Some t \<longrightarrow> t = NaN \<or> Fin 0 \<le> t)
      \<and> 0 \<le> arg_xmin_horizon_warn_age a
      \<and> (\<forall>n. arg_vacuum_parallel a = Some n \<longrightarrow> n \<le> 1024)
      \<and> 1 \<le> arg_lock_timeout_ms a \<and> arg_lock_timeout_ms a \<le> 60000
      \<and> arg_lock_timeout_retries a \<le> 20
      \<and> 1 \<le> arg_lock_timeout_retry_delay_ms a \<and> arg_lock_timeout_retry_delay_ms a \<le> 60000
      \<and> 1 \<le> arg_shutdown_grace_seconds a \<and> arg_shutdown_grace_seconds a \<le> 300
      \<and> (\<exists>ts. also_tables_of a = Inr ts)
      \<and> (\<forall>p. arg_wraparound_pct a = Some p \<longrightarrow> (\<exists>r. p = Fin r \<and> 0 \<le> r \<and> r \<le> 100)))"

lemma f64_not_less: "\<not> x < y \<longleftrightarrow> x = NaN \<or> y = NaN \<or> y \<le> x" for x y :: f64
  by (cases x; cases y) auto

lemma f64_percent: "f64_in_range (Fin 0) (Fin 100) x \<longleftrightarrow> (\<exists>r. x = Fin r \<and> 0 \<le> r \<and> r \<le> 100)"
  by (cases x) (auto simp: f64_in_range_def)

lemma days_checks_pass:
  "list_all (\<lambda>c. \<not> fst c) (days_checks name flag enabled days) \<longleftrightarrow>
     (enabled \<longrightarrow> (\<exists>d. days = Some d \<and> 1 \<le> d \<and> d \<le> i32_max))"
  by (cases days) (auto simp: days_checks_def)

lemma overdue_checks_pass: "list_all (\<lambda>c. \<not> fst c) (overdue_checks modes a) \<longleftrightarrow> overdue_settings_ok modes a"
  by (simp add: overdue_checks_def days_checks_pass overdue_settings_ok_def)

lemma le_PInf: "x = NaN \<or> x \<le> PInf" for x :: f64
  by (cases x) simp_all

lemma candidate_checks_pass: "list_all (\<lambda>c. \<not> fst c) (candidate_checks a) \<longleftrightarrow> candidate_settings_ok a"
  unfolding candidate_checks_def candidate_settings_ok_def
  using le_PInf [of "min_gb a"] by (auto simp: f64_percent f64_not_less not_le not_less)

lemma session_checks_pass: "list_all (\<lambda>c. \<not> fst c) (session_checks a) \<longleftrightarrow> session_settings_ok a"
  unfolding session_checks_def session_settings_ok_def
  by (simp add: f64_percent f64_not_less not_le not_less config_defs del: not_ex not_all) auto

lemma validate_Inr:
  "validate a = Inr plan \<longleftrightarrow>
     (arg_schema a \<noteq> None \<or> arg_discover_all_schemas a)
     \<and> (\<exists>modes. parse_modes (arg_mode a) = Inr modes \<and> overdue_settings_ok modes a \<and> plan = plan_of modes a)
     \<and> candidate_settings_ok a \<and> session_settings_ok a"
  by (auto simp: validate_def first_violated_None overdue_checks_pass candidate_checks_pass session_checks_pass
      split: sum.splits option.splits if_splits)
    (metis first_violated_None list_all_append overdue_checks_pass candidate_checks_pass session_checks_pass
      option.distinct(1))+

text \<open>
  C22: The settings that a run accepts are exactly these: schemas given or to be discovered, at least one
  mode and each one known, a positive day count for each overdue mode selected, and every other setting in
  its range. The plan then has the modes listed and the values derived from the settings.
\<close>

theorem validate_accepts_iff:
  "validate a = Inr plan \<longleftrightarrow>
     (arg_schema a \<noteq> None \<or> arg_discover_all_schemas a)
     \<and> (\<exists>strs modes. arg_mode a = Some strs \<and> modes \<noteq> []
          \<and> list_all2 (\<lambda>s m. mode_from_str s = Inr m) strs modes
          \<and> overdue_settings_ok (set modes) a \<and> plan = plan_of (set modes) a)
     \<and> candidate_settings_ok a \<and> session_settings_ok a"
  unfolding validate_Inr parse_modes_Inr by auto

lemma gb_mono: "x \<le> y \<Longrightarrow> f64_as_i64 (f64_times x BYTES_PER_GB) \<le> f64_as_i64 (f64_times y BYTES_PER_GB)"
  by (intro f64_as_i64_mono f64_times_mono) (simp_all add: BYTES_PER_GB_def)

lemma gb_nonneg: "x = NaN \<or> Fin 0 \<le> x \<Longrightarrow> 0 \<le> f64_as_i64 (f64_times x BYTES_PER_GB)"
  using gb_mono [of "Fin 0" x] by (auto simp: i64_clamp_def rat_trunc_def i64_max_def min_def le_max_iff_disj)

lemma le_i64_max: "f64_as_i64 x \<le> i64_max"
  using f64_as_i64_range by (simp add: in_i64_def)

lemma parse_list_distinct: "parse_list entries = Inr ts \<Longrightarrow> distinct ts"
proof -
  have "distinct out \<Longrightarrow> parse_list_from out es = Inr ts \<Longrightarrow> distinct ts" for out es
    by (induction out es rule: parse_list_from.induct)
      (auto simp: Let_def split: if_splits option.splits prod.splits)
  then show "parse_list entries = Inr ts \<Longrightarrow> distinct ts"
    unfolding parse_list_def by (metis distinct.simps(1))
qed

text \<open>
  C23: What a run that was accepted works with: a range of table sizes that is not negative and, unless one of
  the two sizes given is NaN, in order, with no upper bound when none was given; for each of the overdue modes that
  is selected a number of days from 1 to the largest \<open>i32\<close>, so that the conversions of the phase change
  nothing; throttle settings that the server accepts; and an explicit table list without duplicates.
\<close>

theorem plan_sound:
  assumes "validate a = Inr plan"
  shows "0 \<le> plan_min_bytes plan \<and> 0 \<le> plan_max_bytes plan \<and> plan_max_bytes plan \<le> i64_max
    \<and> (min_gb a \<noteq> NaN \<and> max_gb a \<noteq> NaN \<longrightarrow> plan_min_bytes plan \<le> plan_max_bytes plan)
    \<and> (arg_min_table_size_gb a = None \<longrightarrow> plan_min_bytes plan = 0)
    \<and> (arg_max_table_size_gb a = None \<longrightarrow> plan_max_bytes plan = i64_max)
    \<and> plan_modes plan \<noteq> {}
    \<and> (VacuumOverdue \<in> plan_modes plan \<longrightarrow>
         (\<exists>d. arg_vacuum_older_than_days a = Some d \<and> 1 \<le> d \<and> d \<le> 2147483647))
    \<and> (AnalyzeOverdue \<in> plan_modes plan \<longrightarrow>
         (\<exists>d. arg_analyze_older_than_days a = Some d \<and> 1 \<le> d \<and> d \<le> 2147483647))
    \<and> throttle_validate (plan_throttle plan) = Inr ()
    \<and> distinct (plan_also_tables plan)"
proof -
  from assms obtain modes where plan: "plan = plan_of modes a" "parse_modes (arg_mode a) = Inr modes"
    and ok: "candidate_settings_ok a" "session_settings_ok a" "overdue_settings_ok modes a"
    unfolding validate_Inr by blast
  have sizes: "min_gb a = NaN \<or> Fin 0 \<le> min_gb a" "max_gb a = NaN \<or> Fin 0 \<le> max_gb a"
    "min_gb a = NaN \<or> max_gb a = NaN \<or> min_gb a \<le> max_gb a"
    using ok(1) unfolding candidate_settings_ok_def by blast+
  have "0 \<le> i64_max" by (simp add: i64_max_def)
  with sizes have nonneg: "0 \<le> plan_min_bytes plan" "0 \<le> plan_max_bytes plan" "plan_max_bytes plan \<le> i64_max"
    by (simp_all add: plan plan_of_def gb_nonneg le_i64_max)
  have "plan_min_bytes plan \<le> plan_max_bytes plan" if "min_gb a \<noteq> NaN" "max_gb a \<noteq> NaN"
    using that sizes(3) gb_mono by (auto simp: plan plan_of_def le_i64_max)
  moreover have "plan_min_bytes plan = 0" if "arg_min_table_size_gb a = None"
    using that by (simp add: plan plan_of_def min_gb_def unwrap_or_def i64_clamp_def i64_max_def i64_min_def rat_trunc_def)
  moreover have "plan_max_bytes plan = i64_max" if "arg_max_table_size_gb a = None"
    using that by (simp add: plan plan_of_def max_gb_def unwrap_or_def)
  moreover have "plan_modes plan \<noteq> {}" using plan(2) by (auto simp: plan(1) plan_of_def parse_modes_Inr)
  moreover have "throttle_validate (plan_throttle plan) = Inr ()" "distinct (plan_also_tables plan)"
    using ok(2) by (auto simp: plan(1) plan_of_def session_settings_ok_def also_tables_of_def
        intro: parse_list_distinct split: option.splits)
  moreover have "VacuumOverdue \<in> plan_modes plan \<longrightarrow>
      (\<exists>d. arg_vacuum_older_than_days a = Some d \<and> 1 \<le> d \<and> d \<le> 2147483647)"
    "AnalyzeOverdue \<in> plan_modes plan \<longrightarrow>
      (\<exists>d. arg_analyze_older_than_days a = Some d \<and> 1 \<le> d \<and> d \<le> 2147483647)"
    using ok(3) by (simp_all add: plan(1) plan_of_def overdue_settings_ok_def i32_max_def)
  ultimately show ?thesis using nonneg by blast
qed

definition minimal_args :: args where
  "minimal_args = default_args\<lparr>arg_schema := Some ''public'', arg_mode := Some [''never-vacuumed'']\<rparr>"

lemma minimal_args_ok:
  "mode_from_str ''never-vacuumed'' = Inr NeverVacuumed"
  "arg_mode minimal_args = Some [''never-vacuumed'']" "arg_schema minimal_args \<noteq> None"
  "candidate_settings_ok minimal_args" "session_settings_ok minimal_args"
  "overdue_settings_ok {NeverVacuumed} minimal_args"
proof -
  show "mode_from_str ''never-vacuumed'' = Inr NeverVacuumed" by code_simp
  show "arg_mode minimal_args = Some [''never-vacuumed'']" "arg_schema minimal_args \<noteq> None"
    "candidate_settings_ok minimal_args" "session_settings_ok minimal_args"
    "overdue_settings_ok {NeverVacuumed} minimal_args"
    by (simp_all add: minimal_args_def default_args_def candidate_settings_ok_def session_settings_ok_def
        overdue_settings_ok_def min_gb_def max_gb_def unwrap_or_def config_defs throttle_of_def
        throttle_resolve_def throttle_validate_def also_tables_of_def)
qed

lemma minimal_args_plan: "validate minimal_args = Inr (plan_of {NeverVacuumed} minimal_args)"
  using minimal_args_ok unfolding validate_Inr by (auto simp: parse_modes_def)

theorem validate_accepts_iff_witness:
  "validate minimal_args = Inr (plan_of {NeverVacuumed} minimal_args)
     \<and> (\<forall>plan. validate (minimal_args\<lparr>arg_limit := Some 0\<rparr>) \<noteq> Inr plan)"
proof
  have "list_all2 (\<lambda>s m. mode_from_str s = Inr m) [''never-vacuumed''] [NeverVacuumed]"
    using minimal_args_ok(1) by simp
  then show "validate minimal_args = Inr (plan_of {NeverVacuumed} minimal_args)"
    using minimal_args_ok(2-6) unfolding validate_accepts_iff
    by (intro conjI exI [of _ "[''never-vacuumed'']"] exI [of _ "[NeverVacuumed]"]) simp_all
  show "\<forall>plan. validate (minimal_args\<lparr>arg_limit := Some 0\<rparr>) \<noteq> Inr plan"
    unfolding validate_accepts_iff by (simp add: candidate_settings_ok_def)
qed

theorem plan_sound_witness:
  "\<exists>plan. validate minimal_args = Inr plan \<and> plan_min_bytes plan = 0 \<and> plan_max_bytes plan = i64_max"
  using plan_sound [OF minimal_args_plan] minimal_args_plan
  by (simp add: minimal_args_def default_args_def)

text \<open>
  C24: NaN passes every check that compares with a bound from one side, and switches the feature off
  without a word: with NaN for the scale factor, the lag threshold and the largest table size, a run that
  was accepted is still accepted, but the needs-vacuum query finds nothing, the lag gate never sees a lag
  over the threshold, and only empty tables are small enough.
\<close>

theorem nan_accepted_and_disables:
  assumes "validate a = Inr plan"
  shows "\<exists>plan'. validate (a\<lparr>arg_vacuum_scale_factor := Some NaN, arg_max_replica_lag_seconds := Some NaN,
                            arg_max_table_size_gb := Some NaN\<rparr>) = Inr plan'
      \<and> plan_max_bytes plan' = 0
      \<and> FIND_NEEDS_VACUUM schemas tbl thr NaN lo hi lmt order s = []
      \<and> \<not> exceeds obs NaN"
proof -
  let ?b = "a\<lparr>arg_vacuum_scale_factor := Some NaN, arg_max_replica_lag_seconds := Some NaN,
      arg_max_table_size_gb := Some NaN\<rparr>"
  have max: "max_gb ?b = NaN" by (simp add: max_gb_def unwrap_or_def)
  from assms have "\<exists>modes. validate ?b = Inr (plan_of modes ?b)"
    by (auto simp: validate_Inr overdue_settings_ok_def candidate_settings_ok_def session_settings_ok_def max
        min_gb_def throttle_of_def also_tables_of_def)
  moreover have "plan_max_bytes (plan_of modes ?b) = 0" for modes by (simp add: plan_of_def max)
  moreover have "\<not> over_threshold thr NaN r" for r by (simp add: over_threshold_def split: option.split)
  then have "FIND_NEEDS_VACUUM schemas tbl thr NaN lo hi lmt order s = []"
    by (simp add: FIND_NEEDS_VACUUM_def order_rows_def take_opt_def split: option.split order_by.split)
  moreover have "\<not> exceeds obs NaN" by (cases obs) (simp_all add: exceeds_def)
  ultimately show ?thesis by blast
qed

theorem nan_accepted_and_disables_witness:
  "\<exists>plan. validate (minimal_args\<lparr>arg_vacuum_scale_factor := Some NaN, arg_max_replica_lag_seconds := Some NaN,
                            arg_max_table_size_gb := Some NaN\<rparr>) = Inr plan \<and> plan_max_bytes plan = 0"
  using nan_accepted_and_disables [OF minimal_args_plan] by blast

end
