(* ===== verification/Active_Vacuum.thy ===== *)
theory Active_Vacuum
  imports Lag_Gate
begin

text \<open>
  The active-vacuum gate (\<open>find_active_vacuums\<close>, \<open>terminate_backends\<close> and \<open>handle_active_vacuums\<close> of
  \<open>src/operations.rs\<close>): which running VACUUM sessions are terminated before a table is maintained,
  and which make the run skip the table.
\<close>

section \<open>The operations\<close>

definition BACKEND_TYPE_AUTOVACUUM_WORKER :: string where
  "BACKEND_TYPE_AUTOVACUUM_WORKER = ''autovacuum worker''"

definition find_active_vacuums ::
  "'w env \<Rightarrow> string \<Rightarrow> string \<Rightarrow> ('w, error + (int \<times> string) list) run" where
  "find_active_vacuums env schema table =
     map_error (\<lambda>e. error_from_text (''Failed to check active vacuums on '' @ quoted schema table @
         '' : '' @ own_text e))
       (call_env (ask_active_vacuums env schema table) (\<lambda>r. [EActive schema table r]))"

fun terminate_backends :: "'w env \<Rightarrow> int list \<Rightarrow> ('w, error + unit) run" where
  "terminate_backends env [] = ret (Inr ())"
| "terminate_backends env (pid # pids) =
     try_run (map_error (context_pg (''pg_terminate_backend('' @ dec_int pid @ '') failed''))
       (call_env (q_terminate_backend env pid) (\<lambda>r. [ETerminate pid r])))
     (\<lambda>_. terminate_backends env pids)"

text \<open>Terminate the sessions, or say so in a dry run.\<close>

definition clear_sessions ::
  "'w env \<Rightarrow> run_policy \<Rightarrow> int list \<Rightarrow> string \<Rightarrow> string \<Rightarrow> ('w, error + unit) run" where
  "clear_sessions env policy pids would done_msg =
     (if dry_run policy then do { log Warning (Text would); ret (Inr ()) }
      else try_run (terminate_backends env pids) (\<lambda>_. do { log Warning (Text done_msg); ret (Inr ()) }))"

definition pids_of :: "(string \<Rightarrow> bool) \<Rightarrow> (int \<times> string) list \<Rightarrow> int list" where
  "pids_of P sessions = map fst (filter (\<lambda>(_, backend_type). P backend_type) sessions)"

definition clear_autovacuums ::
  "'w env \<Rightarrow> string \<Rightarrow> string \<Rightarrow> run_policy \<Rightarrow> int list \<Rightarrow> ('w, error + unit) run" where
  "clear_autovacuums env schema table policy autovacuum_pids =
     (if autovacuum_pids \<noteq> [] then
        (let workers = dec (length autovacuum_pids) @ '' autovacuum worker(s) on '' @ quoted schema table
         in clear_sessions env policy autovacuum_pids
              (''[DRY RUN] Would terminate '' @ workers @ '' then proceed'')
              (''Terminated '' @ workers))
      else ret (Inr ()))"

definition clear_manual_vacuums ::
  "'w env \<Rightarrow> string \<Rightarrow> string \<Rightarrow> run_policy \<Rightarrow> operation_summary \<Rightarrow> int list \<Rightarrow>
     ('w, error + (bool \<times> operation_summary)) run" where
  "clear_manual_vacuums env schema table policy summary manual_pids =
     (if manual_pids \<noteq> [] then
        (if force policy then
           (let found = dec (length manual_pids) @ '' manual VACUUM session(s) on '' @ quoted schema table
            in try_run (clear_sessions env policy manual_pids
                 (''[DRY RUN] Would terminate '' @ found @ '' then proceed'')
                 (''Terminated '' @ found @ '' (--force)''))
               (\<lambda>_. ret (Inr (True, summary))))
         else do {
           log Warning (Text (''Skipping '' @ quoted schema table @ '' '' @ em_dash @ '' '' @
             dec (length manual_pids) @ '' manual VACUUM session(s) running '' @
             ''(use --force to terminate and proceed)''));
           ret (Inr (False, count_skipped summary))
         })
      else ret (Inr (True, summary)))"

definition handle_active_vacuums ::
  "'w env \<Rightarrow> string \<Rightarrow> string \<Rightarrow> run_policy \<Rightarrow> operation_summary \<Rightarrow>
     ('w, error + (bool \<times> operation_summary)) run" where
  "handle_active_vacuums env schema table policy summary =
     try_run (find_active_vacuums env schema table) (\<lambda>active_sessions.
     if active_sessions = [] then ret (Inr (True, summary))
     else if skip_active_vacuum policy then do {
       log Warning (Text (''Skipping '' @ quoted schema table @ '' '' @ em_dash @ '' '' @
         dec (length active_sessions) @ '' active VACUUM session(s) found (--skip-active-vacuum)''));
       ret (Inr (False, count_skipped summary))
     } else
       try_run (clear_autovacuums env schema table policy
                  (pids_of (\<lambda>kind. kind = BACKEND_TYPE_AUTOVACUUM_WORKER) active_sessions)) (\<lambda>_.
       clear_manual_vacuums env schema table policy summary
         (pids_of (\<lambda>kind. kind \<noteq> BACKEND_TYPE_AUTOVACUUM_WORKER) active_sessions)))"

section \<open>Facts\<close>

lemma emits_terminate_backends:
  "(\<And>p r. p \<in> set pids \<Longrightarrow> Q (ETerminate p r)) \<Longrightarrow> emits Q (terminate_backends env pids)"
  by (induction pids) (auto intro!: emits_intros)

lemma emits_clear_sessions:
  "(\<And>p r. p \<in> set pids \<Longrightarrow> \<not> dry_run policy \<Longrightarrow> Q (ETerminate p r)) \<Longrightarrow> (\<And>l m. Q (ELog l m)) \<Longrightarrow>
     emits Q (clear_sessions env policy pids a b)"
  unfolding clear_sessions_def by (auto intro!: emits_intros emits_terminate_backends)

lemma emits_handle_active_vacuums [emits_intros]:
  assumes "\<And>r. Q (EActive schema table r)" "\<And>l m. Q (ELog l m)"
    "\<And>p r. \<not> dry_run policy \<Longrightarrow> Q (ETerminate p r)"
  shows "emits Q (handle_active_vacuums env schema table policy summary)"
  unfolding handle_active_vacuums_def find_active_vacuums_def clear_autovacuums_def
    clear_manual_vacuums_def Let_def
  using assms by (auto intro!: emits_intros emits_clear_sessions)

text \<open>All sessions were sent the termination, and nothing else happened.\<close>

lemma terminate_backends_spec:
  assumes "run_state (terminate_backends env pids) s = (r, s')"
  shows "\<exists>es. trace s' = trace s @ es \<and> (\<forall>e\<in>set es. \<exists>p\<in>set pids. \<exists>x. e = ETerminate p x)
     \<and> (r = Inr () \<longrightarrow> (\<forall>p\<in>set pids. ETerminate p (Inr ()) \<in> set es))
     \<and> (\<forall>err. r = Inl err \<longrightarrow> (\<exists>p e. ETerminate p (Inl e) \<in> set es))"
  using assms
proof (induction pids arbitrary: s)
  case Nil
  then show ?case by auto
next
  case (Cons pid pids)
  obtain r1 d w where call: "q_terminate_backend env pid (world s) = (r1, d, w)" by (metis prod_cases3)
  let ?s1 = "s\<lparr>world := w, clock := clock s + d, trace := trace s @ [ETerminate pid r1]\<rparr>"
  show ?case
  proof (cases r1)
    case (Inl e)
    with Cons.prems call show ?thesis by (intro exI [of _ "[ETerminate pid r1]"]) auto
  next
    case (Inr u)
    with Cons.prems call have "run_state (terminate_backends env pids) ?s1 = (r, s')" by simp
    from Cons.IH [OF this] obtain es where "trace s' = trace ?s1 @ es"
      "\<forall>e\<in>set es. \<exists>p\<in>set pids. \<exists>x. e = ETerminate p x"
      "r = Inr () \<longrightarrow> (\<forall>p\<in>set pids. ETerminate p (Inr ()) \<in> set es)"
      "\<forall>err. r = Inl err \<longrightarrow> (\<exists>p e. ETerminate p (Inl e) \<in> set es)" by blast
    with Inr show ?thesis by (intro exI [of _ "ETerminate pid r1 # es"]) auto
  qed
qed

lemma clear_sessions_spec:
  assumes "run_state (clear_sessions env policy pids a b) s = (r, s')"
  shows "\<exists>es. trace s' = trace s @ es
     \<and> (\<forall>p x. ETerminate p x \<in> set es \<longrightarrow> p \<in> set pids \<and> \<not> dry_run policy)
     \<and> (r = Inr () \<longrightarrow> dry_run policy \<or> (\<forall>p\<in>set pids. ETerminate p (Inr ()) \<in> set es))
     \<and> (\<forall>err. r = Inl err \<longrightarrow> (\<exists>p e. ETerminate p (Inl e) \<in> set es))"
proof (cases "dry_run policy")
  case True
  with assms show ?thesis by (auto simp: clear_sessions_def)
next
  case False
  obtain r1 s1 where t: "run_state (terminate_backends env pids) s = (r1, s1)" by fastforce
  from terminate_backends_spec [OF t] obtain es where "trace s1 = trace s @ es"
    "\<forall>e\<in>set es. \<exists>p\<in>set pids. \<exists>x. e = ETerminate p x"
    "r1 = Inr () \<longrightarrow> (\<forall>p\<in>set pids. ETerminate p (Inr ()) \<in> set es)"
    "\<forall>err. r1 = Inl err \<longrightarrow> (\<exists>p e. ETerminate p (Inl e) \<in> set es)" by blast
  with False assms t show ?thesis
    by (cases r1) (auto simp: clear_sessions_def)
qed

lemma pids_of_iff: "p \<in> set (pids_of P sessions) \<longleftrightarrow> (\<exists>kind. (p, kind) \<in> set sessions \<and> P kind)"
  by (force simp: pids_of_def)

lemma pids_of_mem: "(p, kind) \<in> set sessions \<Longrightarrow> P kind \<Longrightarrow> p \<in> set (pids_of P sessions)"
  by (auto simp: pids_of_iff)

lemma pids_of_Nil: "pids_of P sessions = [] \<longleftrightarrow> (\<forall>(p, kind)\<in>set sessions. \<not> P kind)"
  by (auto simp: pids_of_def filter_empty_conv)

lemma clear_autovacuums_spec:
  assumes "run_state (clear_autovacuums env schema table policy pids) s = (r, s')"
  shows "\<exists>es. trace s' = trace s @ es
     \<and> (\<forall>p x. ETerminate p x \<in> set es \<longrightarrow> p \<in> set pids \<and> \<not> dry_run policy)
     \<and> (r = Inr () \<longrightarrow> dry_run policy \<or> (\<forall>p\<in>set pids. ETerminate p (Inr ()) \<in> set es))
     \<and> (\<forall>err. r = Inl err \<longrightarrow> (\<exists>p e. ETerminate p (Inl e) \<in> set es))"
proof (cases "pids = []")
  case True
  with assms show ?thesis by (auto simp: clear_autovacuums_def)
next
  case False
  with assms show ?thesis
    unfolding clear_autovacuums_def Let_def by (simp only: if_True simp_thms) (rule clear_sessions_spec)
qed

lemma clear_manual_vacuums_spec:
  assumes "run_state (clear_manual_vacuums env schema table policy summary pids) s = (r, s')"
  shows "\<exists>es. trace s' = trace s @ es
     \<and> (\<forall>p x. ETerminate p x \<in> set es \<longrightarrow> p \<in> set pids \<and> \<not> dry_run policy \<and> force policy)
     \<and> (\<forall>sm. r = Inr (True, sm) \<longrightarrow> sm = summary \<and> (pids \<noteq> [] \<longrightarrow> force policy)
          \<and> (dry_run policy \<or> (\<forall>p\<in>set pids. ETerminate p (Inr ()) \<in> set es)))
     \<and> (\<forall>sm. r = Inr (False, sm) \<longrightarrow> sm = count_skipped summary \<and> pids \<noteq> [] \<and> \<not> force policy)
     \<and> (\<forall>err. r = Inl err \<longrightarrow> (\<exists>p e. ETerminate p (Inl e) \<in> set es))"
proof (cases "pids \<noteq> [] \<and> force policy")
  case False
  then consider "pids = []" | "pids \<noteq> []" "\<not> force policy" by blast
  then show ?thesis by cases (use assms in \<open>auto simp: clear_manual_vacuums_def\<close>)
next
  case True
  then obtain a b where eq: "clear_manual_vacuums env schema table policy summary pids =
      try_run (clear_sessions env policy pids a b) (\<lambda>_. ret (Inr (True, summary)))"
    unfolding clear_manual_vacuums_def Let_def by simp
  obtain r1 s1 where c: "run_state (clear_sessions env policy pids a b) s = (r1, s1)" by fastforce
  with assms eq have r: "r = (case r1 of Inl e \<Rightarrow> Inl e | Inr _ \<Rightarrow> Inr (True, summary))" "s' = s1"
    by (auto split: sum.splits)
  from clear_sessions_spec [OF c] True r show ?thesis by (auto split: sum.splits)
qed

text \<open>The two clearing steps in the order they run: the autovacuum workers, then the other sessions.\<close>

lemma clear_both_spec:
  fixes sessions :: "(int \<times> string) list"
  defines "auto_pids \<equiv> pids_of (\<lambda>kind. kind = BACKEND_TYPE_AUTOVACUUM_WORKER) sessions"
    and "manual \<equiv> pids_of (\<lambda>kind. \<not> kind = BACKEND_TYPE_AUTOVACUUM_WORKER) sessions"
  assumes "run_state (clear_autovacuums env schema table policy auto_pids) s = (Inr (), s1)"
    and "run_state (clear_manual_vacuums env schema table policy summary manual) s1 = (r, s')"
  shows "\<exists>es. trace s' = trace s @ es
     \<and> (\<forall>p x. ETerminate p x \<in> set es \<longrightarrow> \<not> dry_run policy \<and>
          (\<exists>kind. (p, kind) \<in> set sessions \<and> (kind = BACKEND_TYPE_AUTOVACUUM_WORKER \<or> force policy)))
     \<and> (\<forall>sm. r = Inr (True, sm) \<longrightarrow> sm = summary \<and> (\<forall>(p, kind)\<in>set sessions.
          (kind = BACKEND_TYPE_AUTOVACUUM_WORKER \<or> force policy) \<and> (dry_run policy \<or> ETerminate p (Inr ()) \<in> set es)))
     \<and> (\<forall>sm. r = Inr (False, sm) \<longrightarrow> sm = count_skipped summary
          \<and> (\<exists>(p, kind)\<in>set sessions. kind \<noteq> BACKEND_TYPE_AUTOVACUUM_WORKER \<and> \<not> force policy))
     \<and> (dry_run policy \<or> (\<forall>(p, kind)\<in>set sessions. kind = BACKEND_TYPE_AUTOVACUUM_WORKER \<longrightarrow>
          ETerminate p (Inr ()) \<in> set es))
     \<and> (\<forall>err. r = Inl err \<longrightarrow> (\<exists>p e. ETerminate p (Inl e) \<in> set es))"
proof -
  let ?auto = "\<lambda>kind. kind = BACKEND_TYPE_AUTOVACUUM_WORKER"
  from clear_autovacuums_spec [OF assms(3)] obtain es where es: "trace s1 = trace s @ es"
    "\<And>p x. ETerminate p x \<in> set es \<Longrightarrow> p \<in> set auto_pids \<and> \<not> dry_run policy"
    "dry_run policy \<or> (\<forall>p\<in>set auto_pids. ETerminate p (Inr ()) \<in> set es)" by blast
  from clear_manual_vacuums_spec [OF assms(4)] obtain fs where fs: "trace s' = trace s1 @ fs"
    "\<And>p x. ETerminate p x \<in> set fs \<Longrightarrow> p \<in> set manual \<and> \<not> dry_run policy \<and> force policy"
    "\<And>sm. r = Inr (True, sm) \<Longrightarrow> sm = summary \<and> (manual \<noteq> [] \<longrightarrow> force policy)
      \<and> (dry_run policy \<or> (\<forall>p\<in>set manual. ETerminate p (Inr ()) \<in> set fs))"
    "\<And>sm. r = Inr (False, sm) \<Longrightarrow> sm = count_skipped summary \<and> manual \<noteq> [] \<and> \<not> force policy"
    "\<And>err. r = Inl err \<Longrightarrow> \<exists>p e. ETerminate p (Inl e) \<in> set fs" by blast
  have "\<not> dry_run policy \<and> (\<exists>kind. (p, kind) \<in> set sessions \<and> (?auto kind \<or> force policy))"
    if "ETerminate p x \<in> set (es @ fs)" for p x
    using that es(2) [of p x] fs(2) [of p x] by (auto simp: pids_of_iff auto_pids_def manual_def)
  moreover have "sm = summary \<and> (\<forall>(p, kind)\<in>set sessions. (?auto kind \<or> force policy)
      \<and> (dry_run policy \<or> ETerminate p (Inr ()) \<in> set (es @ fs)))" if "r = Inr (True, sm)" for sm
  proof -
    note t = fs(3) [OF that]
    have "dry_run policy \<or> ETerminate p (Inr ()) \<in> set (es @ fs)" if "(p, kind) \<in> set sessions" for p kind
      using t es(3) that by (cases "?auto kind") (auto simp: auto_pids_def manual_def dest: pids_of_mem)
    with t show ?thesis by (auto simp: pids_of_Nil manual_def)
  qed
  moreover have "sm = count_skipped summary \<and> (\<exists>(p, kind)\<in>set sessions. \<not> ?auto kind \<and> \<not> force policy)"
    if "r = Inr (False, sm)" for sm
    using fs(4) [OF that] by (auto simp: pids_of_Nil manual_def)
  moreover have "dry_run policy \<or> (\<forall>(p, kind)\<in>set sessions. ?auto kind \<longrightarrow> ETerminate p (Inr ()) \<in> set (es @ fs))"
    using es(3) by (auto simp: auto_pids_def dest: pids_of_mem)
  moreover have "\<exists>p e. ETerminate p (Inl e) \<in> set (es @ fs)" if "r = Inl err" for err
    using fs(5) [OF that] by auto
  ultimately show ?thesis using es(1) fs(1)
    by (intro exI [of _ "es @ fs"] conjI) (simp_all only: append_assoc, blast+)
qed

lemma handle_active_vacuums_spec:
  assumes "run_state (handle_active_vacuums env schema table policy summary) s = (r, s')"
    and "found = fst (ask_active_vacuums env schema table (world s))"
  shows "\<exists>es. trace s' = trace s @ EActive schema table found # es
     \<and> (\<forall>p x. ETerminate p x \<in> set es \<longrightarrow> \<not> dry_run policy \<and> \<not> skip_active_vacuum policy
          \<and> (\<exists>sessions kind. found = Inr sessions \<and> (p, kind) \<in> set sessions
               \<and> (kind = BACKEND_TYPE_AUTOVACUUM_WORKER \<or> force policy)))
     \<and> (\<forall>b sm. r = Inr (b, sm) \<longrightarrow> (\<exists>sessions. found = Inr sessions \<and>
          (let protected = (\<lambda>kind. skip_active_vacuum policy
                 \<or> kind \<noteq> BACKEND_TYPE_AUTOVACUUM_WORKER \<and> \<not> force policy)
           in (b \<longrightarrow> sm = summary \<and> (\<forall>(p, kind)\<in>set sessions. \<not> protected kind
                 \<and> (dry_run policy \<or> ETerminate p (Inr ()) \<in> set es)))
            \<and> (\<not> b \<longrightarrow> sm = count_skipped summary \<and> (\<exists>(p, kind)\<in>set sessions. protected kind)))
        \<and> (skip_active_vacuum policy \<or> dry_run policy
             \<or> (\<forall>(p, kind)\<in>set sessions. kind = BACKEND_TYPE_AUTOVACUUM_WORKER \<longrightarrow> ETerminate p (Inr ()) \<in> set es))))
     \<and> (\<forall>err. r = Inl err \<longrightarrow> (\<exists>e. found = Inl e) \<and> es = [] \<or> (\<exists>p e. ETerminate p (Inl e) \<in> set es))"
proof -
  let ?auto = "\<lambda>kind. kind = BACKEND_TYPE_AUTOVACUUM_WORKER"
  obtain d w where call: "ask_active_vacuums env schema table (world s) = (found, d, w)"
    using assms(2) by (metis prod.collapse)
  let ?s0 = "s\<lparr>world := w, clock := clock s + d, trace := trace s @ [EActive schema table found]\<rparr>"
  note defs = handle_active_vacuums_def find_active_vacuums_def
  consider (err) e where "found = Inl e" | (none) "found = Inr []"
    | (skip) sessions where "found = Inr sessions" "sessions \<noteq> []" "skip_active_vacuum policy"
    | (act) sessions where "found = Inr sessions" "sessions \<noteq> []" "\<not> skip_active_vacuum policy"
    by (cases found) auto
  then show ?thesis
  proof cases
    case err
    with assms(1) call show ?thesis by (auto simp: defs)
  next
    case none
    with assms(1) call show ?thesis by (auto simp: defs)
  next
    case skip
    with assms(1) call show ?thesis by (auto simp: defs neq_Nil_conv; blast)
  next
    case act
    let ?m = "pids_of (\<lambda>kind. \<not> ?auto kind) sessions"
    obtain r1 s1 where a: "run_state (clear_autovacuums env schema table policy (pids_of ?auto sessions)) ?s0
        = (r1, s1)" by fastforce
    from clear_autovacuums_spec [OF a] obtain es where es: "trace s1 = trace ?s0 @ es"
      "\<And>p x. ETerminate p x \<in> set es \<Longrightarrow> p \<in> set (pids_of ?auto sessions) \<and> \<not> dry_run policy"
      "\<And>err. r1 = Inl err \<Longrightarrow> \<exists>p e. ETerminate p (Inl e) \<in> set es" by blast
    show ?thesis
    proof (cases r1)
      case (Inl e)
      with assms(1) call act a have "r = Inl e" "s' = s1" by (auto simp: defs)
      moreover have "\<exists>p e. ETerminate p (Inl e) \<in> set es" using es(3) [OF Inl] .
      ultimately show ?thesis using es(1,2) act by (intro exI [of _ es]) (auto simp: pids_of_iff)
    next
      case (Inr u)
      with assms(1) call act a
      have run: "run_state (clear_manual_vacuums env schema table policy summary ?m) s1 = (r, s')"
        by (auto simp: defs)
      from a Inr have "run_state (clear_autovacuums env schema table policy (pids_of ?auto sessions)) ?s0 = (Inr (), s1)"
        by simp
      from clear_both_spec [OF this run] obtain fs where fs: "trace s' = trace ?s0 @ fs"
        "\<And>p x. ETerminate p x \<in> set fs \<Longrightarrow> \<not> dry_run policy \<and>
          (\<exists>kind. (p, kind) \<in> set sessions \<and> (?auto kind \<or> force policy))"
        "\<And>sm. r = Inr (True, sm) \<Longrightarrow> sm = summary \<and> (\<forall>(p, kind)\<in>set sessions. (?auto kind \<or> force policy)
          \<and> (dry_run policy \<or> ETerminate p (Inr ()) \<in> set fs))"
        "\<And>sm. r = Inr (False, sm) \<Longrightarrow> sm = count_skipped summary
          \<and> (\<exists>(p, kind)\<in>set sessions. \<not> ?auto kind \<and> \<not> force policy)"
        "dry_run policy \<or> (\<forall>(p, kind)\<in>set sessions. ?auto kind \<longrightarrow> ETerminate p (Inr ()) \<in> set fs)"
        "\<And>err. r = Inl err \<Longrightarrow> \<exists>p e. ETerminate p (Inl e) \<in> set fs" by blast
      with act show ?thesis unfolding Let_def by (intro exI [of _ fs]) auto
    qed
  qed
qed

text \<open>
  C21: Who is terminated and when a table is maintained next to other VACUUMs. Only sessions that
  were just found on this table are ever terminated, never in a dry run, never with
  \<open>--skip-active-vacuum\<close>, and a session that is not an autovacuum worker only with \<open>--force\<close>. Whenever the
  check gives a verdict, and the run is neither a dry run nor one with \<open>--skip-active-vacuum\<close>, every autovacuum
  worker found was successfully sent its termination, also if the table is then skipped because of a manual
  VACUUM. When the table may be maintained, then either nobody was vacuuming it, or (the run not being a dry
  run) every session found was successfully sent its termination; when it is skipped, exactly one skip is
  counted, and there was a session that the policy protects. The check fails only if the look at the sessions
  failed, and then nothing was done, or if a termination failed.
\<close>

theorem active_vacuum_policy:
  assumes "run_state (handle_active_vacuums env schema table policy summary) s = (r, s')"
    and "found = fst (ask_active_vacuums env schema table (world s))"
  shows "\<exists>es. trace s' = trace s @ EActive schema table found # es
     \<and> (\<forall>p x. ETerminate p x \<in> set es \<longrightarrow> \<not> dry_run policy \<and> \<not> skip_active_vacuum policy
          \<and> (\<exists>sessions kind. found = Inr sessions \<and> (p, kind) \<in> set sessions
               \<and> (kind = BACKEND_TYPE_AUTOVACUUM_WORKER \<or> force policy)))
     \<and> (\<forall>b sm. r = Inr (b, sm) \<longrightarrow> (\<exists>sessions. found = Inr sessions \<and>
          (let protected = (\<lambda>kind. skip_active_vacuum policy
                 \<or> kind \<noteq> BACKEND_TYPE_AUTOVACUUM_WORKER \<and> \<not> force policy)
           in (b \<longrightarrow> sm = summary \<and> (\<forall>(p, kind)\<in>set sessions. \<not> protected kind
                 \<and> (dry_run policy \<or> ETerminate p (Inr ()) \<in> set es)))
            \<and> (\<not> b \<longrightarrow> sm = count_skipped summary \<and> (\<exists>(p, kind)\<in>set sessions. protected kind)))
        \<and> (skip_active_vacuum policy \<or> dry_run policy
             \<or> (\<forall>(p, kind)\<in>set sessions. kind = BACKEND_TYPE_AUTOVACUUM_WORKER \<longrightarrow> ETerminate p (Inr ()) \<in> set es))))
     \<and> (\<forall>err. r = Inl err \<longrightarrow> (\<exists>e. found = Inl e) \<and> es = [] \<or> (\<exists>p e. ETerminate p (Inl e) \<in> set es))"
  using assms by (rule handle_active_vacuums_spec)

definition example_session :: "int \<Rightarrow> string \<Rightarrow> backend_row" where
  "example_session pid kind =
     \<lparr>be_pid = pid, be_type = kind, be_user = None, be_state = Some ''active'', be_xmin_age = None,
      be_xact_start = None, be_query_start = None, be_query = None\<rparr>"

definition vacuumed_env :: "(pg_error + unit) list env" where
  "vacuumed_env = scripted_env
     \<lparr>q_active_vacuums := (\<lambda>s t w. (Inr (idle_monitor
        \<lparr>mon_backends := [example_session 101 ''autovacuum worker'', example_session 202 ''client backend''],
         mon_vacuums := [(101, s, t), (202, s, t)]\<rparr>), 1000000, w))\<rparr>"


theorem active_vacuum_policy_witness:
  "\<forall>x. ETerminate 202 x \<notin> set (trace (snd (run_state (handle_active_vacuums vacuumed_env ''public'' ''t''
      (retry_policy 0) \<lparr>total = 1, succeeded = 0, failed = 0, skipped = 0\<rparr>) (initial_state []))))"
proof -
  let ?sm = "\<lparr>total = 1, succeeded = 0, failed = 0, skipped = 0\<rparr> :: operation_summary"
  have found: "fst (ask_active_vacuums vacuumed_env ''public'' ''t'' (world (initial_state []))) =
      Inr [(101, ''autovacuum worker''), (202, ''client backend'')]"
    by (simp add: vacuumed_env_def ask_active_vacuums_def reading_def FIND_ACTIVE_VACUUMS_ON_TABLE_def
        example_session_def)
  from active_vacuum_policy [OF surjective_pairing found [symmetric], of "retry_policy 0" ?sm]
  obtain es where "trace (snd (run_state (handle_active_vacuums vacuumed_env ''public'' ''t''
      (retry_policy 0) ?sm) (initial_state []))) = [EActive ''public'' ''t''
        (Inr [(101, ''autovacuum worker''), (202, ''client backend'')])] @ es"
    and "\<And>p x. ETerminate p x \<in> set es \<Longrightarrow> p = 101"
    by (auto simp: retry_policy_def BACKEND_TYPE_AUTOVACUUM_WORKER_def initial_state_def)
  from this(1) this(2) [of 202] show ?thesis by auto
qed

end
