(* ===== verification/Xmin_Horizon.thy ===== *)
theory Xmin_Horizon
  imports Active_Vacuum
begin

text \<open>
  The vacuum horizon (\<open>observe_xmin_horizon\<close>, \<open>describe_xmin_blocker\<close>, \<open>format_duration\<close>,
  \<open>log_initial_xmin_horizon\<close> and \<open>describe_worst_xmin_blocker\<close> of \<open>src/operations.rs\<close>): who holds it
  back, in words.
\<close>

definition observe_xmin_horizon :: "'w env \<Rightarrow> ('w, error + horizon_observation) run" where
  "observe_xmin_horizon env =
     try_run (map_error (context_pg ''Failed to check activity/xmin privileges'')
       (call_env (q_can_read_activity env) (\<lambda>_. []))) (\<lambda>can_read.
     if \<not> can_read then ret (Inr HorizonUnobservable)
     else try_run (map_error (context_pg ''Failed to read xmin horizon blockers'')
       (call_env (ask_blockers env) (\<lambda>_. []))) (\<lambda>rows.
       ret (Inr (HorizonObserved rows))))"

definition or_default :: "string option \<Rightarrow> string \<Rightarrow> string" where
  "or_default x d = (case x of Some s \<Rightarrow> s | None \<Rightarrow> d)"

text \<open>\<open>{:02}\<close>.\<close>

definition dec2 :: "nat \<Rightarrow> string" where
  "dec2 n = (if n < 10 then ''0'' @ dec n else dec n)"

definition format_duration :: "nat \<Rightarrow> string" where
  "format_duration total_secs =
     (let hours = total_secs div 3600;
          minutes = (total_secs mod 3600) div 60;
          secs = total_secs mod 60
      in if 0 < hours then dec hours @ ''h'' @ dec2 minutes @ ''m'' @ dec2 secs @ ''s''
         else if 0 < minutes then dec minutes @ ''m'' @ dec2 secs @ ''s''
         else dec secs @ ''s'')"

definition format_xid_age :: "int \<Rightarrow> string" where
  "format_xid_age age = dec_int age @ '' XIDs''"

definition describe_xmin_blocker :: "xmin_horizon_blocker \<Rightarrow> string" where
  "describe_xmin_blocker b =
     (if holder_type b = ''backend'' then
        (let det = or_default (detail b) ''<unknown>'';
             stat = or_default (status b) ''unknown''
         in case (xact_duration b, query_duration b) of
              (Some xact_dur, Some query_dur) \<Rightarrow>
                (let query_text = or_default (query_snippet b) '''' in
                 if stat = ''idle''
                 then ''backend PID '' @ holder_name b @ '' ('' @ det @ ''), idle in transaction '' @
                      format_duration xact_dur @ '' (last query '' @ format_duration query_dur @ '' ago)''
                 else ''backend PID '' @ holder_name b @ '' ('' @ det @ ''), running for '' @
                      format_duration xact_dur @ '': '' @ query_text)
            | (Some xact_dur, None) \<Rightarrow>
                ''backend PID '' @ holder_name b @ '' ('' @ det @ ''), transaction open for '' @
                format_duration xact_dur
            | _ \<Rightarrow> ''backend PID '' @ holder_name b)
      else if holder_type b = ''replication_slot'' then
        ''replication slot '' @ [squote] @ holder_name b @ [squote] @ '' ('' @
        or_default (detail b) ''unknown'' @ '', active: '' @ or_default (status b) ''unknown'' @
        ''), XID age '' @ format_xid_age (blocker_xid_age b)
      else if holder_type b = ''prepared_xact'' then
        ''prepared transaction '' @ [squote] @ holder_name b @ [squote] @ '' (owner: '' @
        or_default (detail b) ''unknown'' @ ''), XID age '' @ format_xid_age (blocker_xid_age b)
      else holder_type b @ '' '' @ holder_name b)"

definition log_initial_xmin_horizon :: "'w env \<Rightarrow> int \<Rightarrow> ('w, error + unit) run" where
  "log_initial_xmin_horizon env warn_age_threshold =
     try_run (observe_xmin_horizon env) (\<lambda>observation.
       case observation of
         HorizonUnobservable \<Rightarrow> do {
           log Warning (Text (''Cannot check the vacuum horizon '' @ em_dash @
             '' the connected role lacks pg_read_all_stats (granted by pg_monitor). '' @
             ''Horizon diagnostics are disabled for this run.''));
           ret (Inr ())
         }
       | HorizonObserved [] \<Rightarrow> do {
           log Info (Text (''Vacuum horizon check: no long-running transactions, slots, or prepared '' @
             ''transactions found.''));
           ret (Inr ())
         }
       | HorizonObserved (worst # others) \<Rightarrow>
           if warn_age_threshold \<le> blocker_xid_age worst then do {
             let described = join ''; '' (map describe_xmin_blocker (take 3 (worst # others)));
             log Warning (Text (''Vacuum horizon may be pinned: '' @ described @
               '' (oldest XID age: '' @ dec_int (blocker_xid_age worst) @ '')''));
             ret (Inr ())
           } else do {
             log Info (Text (''Vacuum horizon is healthy (oldest XID age: '' @
               format_xid_age (blocker_xid_age worst) @ '')''));
             ret (Inr ())
           })"

definition describe_worst_xmin_blocker :: "'w env \<Rightarrow> ('w, error + string option) run" where
  "describe_worst_xmin_blocker env =
     try_run (observe_xmin_horizon env) (\<lambda>observation.
       case observation of
         HorizonUnobservable \<Rightarrow> ret (Inr None)
       | HorizonObserved [] \<Rightarrow> ret (Inr None)
       | HorizonObserved (worst # _) \<Rightarrow> ret (Inr (Some (describe_xmin_blocker worst))))"

lemma emits_horizon [emits_intros]:
  "emits Q (case h of HorizonUnobservable \<Rightarrow> m | HorizonObserved bs \<Rightarrow> f bs)"
  if "emits Q m" "\<And>bs. emits Q (f bs)"
  using that by (cases h) auto

lemma emits_list [emits_intros]:
  "emits Q (case xs of [] \<Rightarrow> m | y # ys \<Rightarrow> f y ys)" if "emits Q m" "\<And>y ys. emits Q (f y ys)"
  using that by (cases xs) auto

lemma emits_observe_xmin_horizon [emits_intros]: "emits Q (observe_xmin_horizon env)"
  unfolding observe_xmin_horizon_def by (auto intro!: emits_intros)

lemma emits_describe_worst_xmin_blocker [emits_intros]: "emits Q (describe_worst_xmin_blocker env)"
  unfolding describe_worst_xmin_blocker_def by (auto intro!: emits_intros)

lemma emits_log_initial_xmin_horizon [emits_intros]:
  "(\<And>l m. Q (ELog l m)) \<Longrightarrow> emits Q (log_initial_xmin_horizon env n)"
  unfolding log_initial_xmin_horizon_def Let_def by (auto intro!: emits_intros)

text \<open>Reading a duration back, by its unit letters.\<close>

definition read_duration :: "string \<Rightarrow> nat option" where
  "read_duration s =
     (case (split_once (CHR ''h'') s, split_once (CHR ''m'') s) of
        (Some (h, rest), _) \<Rightarrow>
          (case split_once (CHR ''m'') rest of
             Some (m, t) \<Rightarrow> Some (read_nat h * 3600 + read_nat m * 60 + read_nat (butlast t))
           | None \<Rightarrow> None)
      | (None, Some (m, t)) \<Rightarrow> Some (read_nat m * 60 + read_nat (butlast t))
      | (None, None) \<Rightarrow> Some (read_nat (butlast s)))"

lemma dec_letters: "c \<in> set (dec n) \<Longrightarrow> c \<notin> {CHR ''h'', CHR ''m'', CHR ''s''}"
  using dec_digits [of c n] by auto

lemma dec2_letters: "c \<in> set (dec2 n) \<Longrightarrow> c \<notin> {CHR ''h'', CHR ''m'', CHR ''s''}"
  using dec_letters [of c n] by (auto simp: dec2_def split: if_splits)

lemma read_nat_dec2 [simp]: "read_nat (dec2 n) = n"
proof -
  have "read_nat (CHR ''0'' # xs) = read_nat xs" for xs by (simp add: read_nat_def)
  then show ?thesis by (simp add: dec2_def)
qed

text \<open>
  A duration in a log line is exact: the text of any number of seconds, read back by its units,
  is that number, so no two durations are shown alike.
\<close>

theorem format_duration_exact: "read_duration (format_duration n) = Some n"
proof -
  let ?h = "n div 3600" and ?m = "(n mod 3600) div 60" and ?s = "n mod 60"
  have n: "n = ?h * 3600 + ?m * 60 + ?s"
  proof -
    have "(n mod 3600) mod 60 = n mod 60" by (simp add: mod_mod_cancel)
    then show ?thesis
      by (metis add.assoc div_mult_mod_eq)
  qed
  have nh: "CHR ''h'' \<notin> set (dec k)" "CHR ''h'' \<notin> set (dec2 k)"
    "CHR ''m'' \<notin> set (dec k)" "CHR ''m'' \<notin> set (dec2 k)" for k
    using dec_letters dec2_letters by blast+
  consider "0 < ?h" | "?h = 0" "0 < ?m" | "?h = 0" "?m = 0" by blast
  then show ?thesis
  proof cases
    case 1
    then have f: "format_duration n = dec ?h @ CHR ''h'' # dec2 ?m @ CHR ''m'' # dec2 ?s @ ''s''"
      by (simp add: format_duration_def Let_def)
    have "split_once (CHR ''h'') (format_duration n) = Some (dec ?h, dec2 ?m @ CHR ''m'' # dec2 ?s @ ''s'')"
      unfolding split_once_Some f using nh by auto
    moreover have "split_once (CHR ''m'') (dec2 ?m @ CHR ''m'' # dec2 ?s @ ''s'') = Some (dec2 ?m, dec2 ?s @ ''s'')"
      unfolding split_once_Some using nh by auto
    ultimately have "read_duration (format_duration n) = Some (?h * 3600 + ?m * 60 + ?s)"
      by (simp add: read_duration_def butlast_append)
    with n show ?thesis by simp
  next
    case 2
    then have f: "format_duration n = dec ?m @ CHR ''m'' # dec2 ?s @ ''s''"
      by (simp add: format_duration_def Let_def)
    have "split_once (CHR ''h'') (format_duration n) = None"
      unfolding split_once_None f using nh by auto
    moreover have "split_once (CHR ''m'') (format_duration n) = Some (dec ?m, dec2 ?s @ ''s'')"
      unfolding split_once_Some f using nh by auto
    ultimately have "read_duration (format_duration n) = Some (?m * 60 + ?s)"
      by (simp add: read_duration_def butlast_append)
    with n 2 show ?thesis by simp
  next
    case 3
    then have f: "format_duration n = dec ?s @ ''s''"
      by (simp add: format_duration_def Let_def)
    have "split_once (CHR ''h'') (format_duration n) = None" "split_once (CHR ''m'') (format_duration n) = None"
      unfolding split_once_None f using nh by auto
    then have "read_duration (format_duration n) = Some ?s"
      by (simp add: read_duration_def f butlast_append)
    with n 3 show ?thesis by simp
  qed
qed

section \<open>What is observed\<close>

lemma observed_blockers:
  assumes "run_state (observe_xmin_horizon env) s = (Inr (HorizonObserved bs), s')"
  obtains m w where "fst (q_xmin_horizon_blockers env w) = Inr m" "bs = blockers m"
proof -
  obtain r d w where ask: "q_can_read_activity env (world s) = (r, d, w)" by (metis prod_cases3)
  obtain x e v where holders: "q_xmin_horizon_blockers env w = (x, e, v)" by (metis prod_cases3)
  from assms ask holders have "\<exists>m. x = Inr m \<and> bs = blockers m"
    by (auto simp: observe_xmin_horizon_def ask_blockers_def reading_def and_then_Inr split: sum.splits if_splits)
  with holders that show thesis by (metis fst_conv)
qed

text \<open>
  C20: What the check of the vacuum horizon reports is the truth about the server's views: every holder of the
  horizon and nothing else, the oldest first. But a replication slot that has only one of its two transaction
  ids counts as older than any real one: with such a slot, the age that is compared with the warning threshold
  is at least 2147483647, whatever the slot really holds back.
\<close>

theorem horizon_observation_sound:
  assumes "run_state (observe_xmin_horizon env) s = (Inr (HorizonObserved bs), s')"
  shows "\<exists>m w. fst (q_xmin_horizon_blockers env w) = Inr m
     \<and> mset bs = image_mset read_holder (mset (holders m))
     \<and> (\<forall>r\<in>set (holders m). bs \<noteq> [] \<and> hr_age r \<le> blocker_xid_age (hd bs))
     \<and> ((\<exists>slot\<in>set (mon_slots m). (slot_xmin_age slot = None) \<noteq> (slot_catalog_xmin_age slot = None)) \<longrightarrow>
          AGE_OF_NO_XID \<le> blocker_xid_age (hd bs))"
proof -
  obtain m w where m: "fst (q_xmin_horizon_blockers env w) = Inr m" and bs: "bs = blockers m"
    by (rule observed_blockers [OF assms])
  have oldest: "bs \<noteq> [] \<and> hr_age r \<le> blocker_xid_age (hd bs)" if "r \<in> set (holders m)" for r
  proof (cases bs)
    case Nil
    with that bs show ?thesis using blockers_set [of m] by auto
  next
    case (Cons worst others)
    with bs have "blockers m = worst # others" by simp
    from first_blocker_oldest [OF this that] Cons show ?thesis by simp
  qed
  moreover have "AGE_OF_NO_XID \<le> blocker_xid_age (hd bs)"
    if slot: "slot \<in> set (mon_slots m)" "(slot_xmin_age slot = None) \<noteq> (slot_catalog_xmin_age slot = None)" for slot
  proof -
    from slot have "slot_holder slot \<in> set (holders m)" by (auto simp: holders_def)
    with oldest half_slot_age [OF slot(2)] show ?thesis by force
  qed
  ultimately show ?thesis using m bs blockers_mset [of m] by blast
qed

definition pinned_env :: "(pg_error + unit) list env" where
  "pinned_env = scripted_env
     \<lparr>q_can_read_activity := (\<lambda>w. (Inr True, 1000000, w)),
      q_xmin_horizon_blockers := (\<lambda>w. (Inr (idle_monitor
        \<lparr>mon_slots := [\<lparr>slot_name = ''standby1'', slot_type = ''physical'', slot_active = True,
           slot_xmin_age = Some 5, slot_catalog_xmin_age = None\<rparr>]\<rparr>), 1000000, w))\<rparr>"

theorem horizon_observation_sound_witness:
  "\<exists>worst others s'. run_state (observe_xmin_horizon pinned_env) (initial_state []) =
       (Inr (HorizonObserved (worst # others)), s') \<and> 2147483647 \<le> blocker_xid_age worst"
proof -
  obtain bs s' where run: "run_state (observe_xmin_horizon pinned_env) (initial_state []) = (Inr (HorizonObserved bs), s')"
    by (simp add: observe_xmin_horizon_def pinned_env_def ask_blockers_def reading_def)
  have slot: "fst (q_xmin_horizon_blockers pinned_env w) = Inr m \<Longrightarrow>
      \<exists>slot\<in>set (mon_slots m). (slot_xmin_age slot = None) \<noteq> (slot_catalog_xmin_age slot = None)
        \<and> slot_holder slot \<in> set (holders m)" for w m
    by (auto simp: pinned_env_def holders_def)
  from horizon_observation_sound [OF run] slot have "bs \<noteq> []" "2147483647 \<le> blocker_xid_age (hd bs)"
    unfolding AGE_OF_NO_XID_def by blast+
  with run show ?thesis by (cases bs) auto
qed

end
