(* ===== verification/Session_Setup.thy ===== *)
theory Session_Setup
  imports Validate Xmin_Horizon
begin

text \<open>
  The part of \<open>run\<close> (\<open>src/main.rs\<close>) between validation and the first phase: opening the session, the
  schemas of the run and the lock on them, the logbook schema, the session settings, the wraparound age, the
  lag gate, the horizon check and the explicit table list.

  The shutdown watcher that \<open>run\<close> starts is a task of its own (theory \<open>Shutdown\<close>); what it does to the
  session shows here as the server's answer to the statement it cancelled.
\<close>

section \<open>Messages\<close>

fun cause_text :: "cause \<Rightarrow> string" where
  "cause_text (CLost l) = connection_lost_display l"
| "cause_text (CPg e) = own_text e"
| "cause_text (CIo k t) = t"
| "cause_text (CMsg t) = t"

text \<open>\<open>{e}\<close> prints the outermost cause of an error, \<open>{e:#}\<close> the whole chain.\<close>

definition error_text :: "error \<Rightarrow> string" where
  "error_text e = (case e of c # _ \<Rightarrow> cause_text c | [] \<Rightarrow> [])"

definition error_chain_text :: "error \<Rightarrow> string" where
  "error_chain_text e = join '': '' (map cause_text e)"

definition banner :: "string \<Rightarrow> string" where
  "banner title =
     (let rule = concat (replicate 3 [CHR 0xE2, CHR 0x95, CHR 0x90]) in rule @ '' '' @ title @ '' '' @ rule)"

section \<open>The session\<close>

definition open_session :: "'w env \<Rightarrow> connection_config \<Rightarrow> args \<Rightarrow> dsn_outcome \<Rightarrow> ('w, error + unit) run" where
  "open_session env cfg a outcome = do {
     (case redacted outcome of
        None \<Rightarrow> ret ()
      | Some shown \<Rightarrow> do {
          log Info (Text (''Using connection string: '' @ shown));
          (if outcome_ignored outcome = [] then ret ()
           else log Warning (Text (''Ignoring connection string parameter(s) not used by pg-maintainer: '' @
             join '', '' (outcome_ignored outcome))))
        });
     log Info (Text (''Connecting to database '' @ [squote] @ conn_database cfg @ [squote] @ '' at '' @
       conn_host cfg @ '':'' @ dec (conn_port cfg)));
     try_run (map_error (with_context ''Failed to connect to PostgreSQL'')
       (connect env (build_connection_string cfg) (ssl_options_of cfg) (arg_statement_timeout_seconds a))) (\<lambda>_. do {
     log Success (Text (''Connected to database '' @ [squote] @ conn_database cfg @ [squote]));
     try_run (query ''Failed to read pg_backend_pid()'' (q_backend_pid env)) (\<lambda>backend_pid.
     ret (Inr ())) })
   }"

section \<open>The schemas\<close>

definition listed_schemas :: "string option \<Rightarrow> string list" where
  "listed_schemas schema =
     filter (\<lambda>s. s \<noteq> []) (map trim (split_on (CHR '','') (unwrap_or schema [])))"

definition requested_schemas :: "'w env \<Rightarrow> args \<Rightarrow> ('w, error + string list) run" where
  "requested_schemas env a =
     (if arg_discover_all_schemas a \<and> arg_schema a = None then do {
        log Info (Text ''Discovering all user schemas...'');
        try_run (discover_all_user_schemas env) (\<lambda>discovered.
          if discovered = [] then
            ret (Inl (error_from_text ''No user schemas found. System schemas are excluded.''))
          else do {
            log Success (Text (''Discovered '' @ dec (length discovered) @ '' schema(s): '' @ join '', '' discovered));
            ret (Inr discovered)
          })
      } else ret (Inr (listed_schemas (arg_schema a))))"

definition take_lock :: "'w env \<Rightarrow> string list \<Rightarrow> ('w, error + string list) run" where
  "take_lock env schemas =
     (if schemas = [] then ret (Inl (error_from_text ''No schemas to process.''))
      else try_run (map_error (with_context ''Failed to acquire concurrency guard'')
             (try_acquire_schema_lock env schemas)) (\<lambda>_. do {
        log Info (Text (''Acquired advisory lock for schema(s): '' @ join '', '' schemas));
        ret (Inr schemas)
      }))"

definition lock_schemas :: "'w env \<Rightarrow> string list \<Rightarrow> ('w, error + string list) run" where
  "lock_schemas env wanted = do {
     (if LOGBOOK_SCHEMA_NAME \<in> set wanted
      then log Warning (Text (''Excluding '' @ [squote] @ LOGBOOK_SCHEMA_NAME @ [squote] @
        '' schema from maintenance '' @ em_dash @ '' it is managed internally by pg-maintainer''))
      else ret ());
     take_lock env (filter (\<lambda>s. s \<noteq> LOGBOOK_SCHEMA_NAME) wanted)
   }"

definition run_schemas :: "'w env \<Rightarrow> args \<Rightarrow> ('w, error + string list) run" where
  "run_schemas env a = try_run (requested_schemas env a) (lock_schemas env)"

text \<open>Best effort: a failure only loses the logbook.\<close>

definition set_up_logbook :: "'w env \<Rightarrow> ('w, unit) run" where
  "set_up_logbook env = do {
     r \<leftarrow> ensure_logbook_schema env;
     case r of
       Inr created \<Rightarrow> if created then log Info (Text ''Created maintainer_logbook schema'') else ret ()
     | Inl e \<Rightarrow> log Warning (Text (''Could not set up logbook schema: '' @ error_text e @ '' '' @ em_dash @
         '' maintenance will continue without logging''))
   }"

section \<open>Session settings\<close>

definition apply_memory :: "'w env \<Rightarrow> args \<Rightarrow> ('w, error + unit) run" where
  "apply_memory env a =
     try_run (map_error (with_context ''Failed to set maintenance_work_mem'')
       (set_maintenance_work_mem env (arg_maintenance_work_mem_gb a))) (\<lambda>_. do {
       log Info (Text (''maintenance_work_mem set to '' @ dec (arg_maintenance_work_mem_gb a) @
         ''GB for this session''));
       ret (Inr ())
     })"

definition apply_cost_delay :: "'w env \<Rightarrow> throttle_settings \<Rightarrow> ('w, error + unit) run" where
  "apply_cost_delay env throttle =
     (case cost_delay_ms throttle of
        None \<Rightarrow> ret (Inr ())
      | Some delay \<Rightarrow>
          try_run (map_error (with_context ''Failed to set vacuum_cost_delay'')
            (set_vacuum_cost_delay env delay)) (\<lambda>_. do {
            (if Fin 0 < delay
             then log Info (Text (''vacuum_cost_delay set to '' @ show_f64 delay @ ''ms for this session '' @ em_dash @
               '' VACUUM and ANALYZE are throttled''))
             else log Info (Text (''vacuum_cost_delay set to 0 for this session '' @ em_dash @
               '' I/O throttling explicitly disabled'')));
            ret (Inr ())
          }))"

definition apply_cost_limit :: "'w env \<Rightarrow> throttle_settings \<Rightarrow> ('w, error + unit) run" where
  "apply_cost_limit env throttle =
     (case cost_limit throttle of
        None \<Rightarrow> ret (Inr ())
      | Some lmt \<Rightarrow>
          try_run (map_error (with_context ''Failed to set vacuum_cost_limit'')
            (set_vacuum_cost_limit env lmt)) (\<lambda>_. do {
            log Info (Text (''vacuum_cost_limit set to '' @ dec_int lmt @ '' for this session''));
            ret (Inr ())
          }))"

definition buffer_limit_message :: "int \<Rightarrow> int \<Rightarrow> string" where
  "buffer_limit_message limit_kb shared_buffers_kb =
     ''vacuum_buffer_usage_limit set to '' @ format_kb_readable limit_kb @ '' (1/16 of shared_buffers '' @
     format_kb_readable shared_buffers_kb @ '')''"

definition apply_buffer_limit :: "'w env \<Rightarrow> ('w, unit) run" where
  "apply_buffer_limit env = do {
     r \<leftarrow> set_vacuum_buffer_usage_limit env;
     case r of
       Inr (shared_buffers_kb, limit_kb) \<Rightarrow>
         log Info (Text (buffer_limit_message limit_kb shared_buffers_kb))
     | Inl e \<Rightarrow>
         log Warning (Text (''Could not set vacuum_buffer_usage_limit (requires PostgreSQL 16+): '' @ error_text e))
   }"

definition announce_workers :: "'w env \<Rightarrow> nat option \<Rightarrow> int \<Rightarrow> ('w, unit) run" where
  "announce_workers env requested workers =
     (case requested of
        None \<Rightarrow> log Info (Text (''max_parallel_maintenance_workers set to '' @ dec_int workers @
          '' (matches max_parallel_workers)''))
      | Some n \<Rightarrow> do {
          limits \<leftarrow> call_env (q_worker_limits env) (\<lambda>_. []);
          let (max_pw, max_wp) = (case limits of Inr p \<Rightarrow> p | Inl _ \<Rightarrow> (''?'', ''?''));
          log Info (Text (''VACUUM PARALLEL '' @ dec n @ '' requested; max_parallel_maintenance_workers set to '' @
            dec_int workers @ '' (server max_parallel_workers='' @ max_pw @ '', max_worker_processes='' @ max_wp @ '')''));
          if workers < int n
          then log Warning (Text (''--vacuum-parallel '' @ dec n @
            '' exceeds max_parallel_workers; effective cap is '' @ dec_int workers))
          else ret ()
        })"

definition apply_workers :: "'w env \<Rightarrow> args \<Rightarrow> throttle_settings \<Rightarrow> ('w, unit) run" where
  "apply_workers env a throttle = do {
     r \<leftarrow> set_max_parallel_maintenance_workers env (arg_vacuum_parallel a);
     case r of
       Inr workers \<Rightarrow> do {
         announce_workers env (arg_vacuum_parallel a) workers;
         if throttle_is_active throttle \<and> 0 < workers
         then log Warning (Text (''I/O throttling is active alongside '' @ dec_int workers @
           '' parallel maintenance worker(s) '' @ em_dash @
           '' PostgreSQL shares one cost budget across all workers, so the extra workers '' @
           ''will not exceed the configured I/O limit, but will not speed the run up either''))
         else ret ()
       }
     | Inl e \<Rightarrow> log Warning (Text (''Could not set max_parallel_maintenance_workers: '' @ error_text e))
   }"

definition apply_lock_timeout :: "'w env \<Rightarrow> args \<Rightarrow> ('w, error + unit) run" where
  "apply_lock_timeout env a =
     try_run (map_error (with_context ''Failed to set lock_timeout'')
       (set_lock_timeout env (arg_lock_timeout_ms a))) (\<lambda>_. do {
       log Info (Text (''lock_timeout set to '' @ dec (arg_lock_timeout_ms a) @ ''ms for this session''));
       ret (Inr ())
     })"

definition apply_settings :: "'w env \<Rightarrow> args \<Rightarrow> throttle_settings \<Rightarrow> ('w, error + unit) run" where
  "apply_settings env a throttle =
     try_run (apply_memory env a) (\<lambda>_.
     try_run (apply_cost_delay env throttle) (\<lambda>_.
     try_run (apply_cost_limit env throttle) (\<lambda>_. do {
       apply_buffer_limit env;
       apply_workers env a throttle;
       apply_lock_timeout env a
     })))"

definition announce_run :: "args \<Rightarrow> ('w, unit) run" where
  "announce_run a = do {
     (if arg_dry_run a
      then log Warning (Text (''DRY RUN MODE '' @ em_dash @ '' no maintenance commands will be executed.''))
      else ret ());
     case arg_table a of
       None \<Rightarrow> ret ()
     | Some tbl \<Rightarrow> log Info (Text (''Table filter active '' @ em_dash @ '' limiting all phases to table '' @
         [dquote] @ tbl @ [dquote]))
   }"

definition wraparound_age :: "f64 \<Rightarrow> int \<Rightarrow> int" where
  "wraparound_age pct max_age = f64_as_i64 (f64_times (f64_over pct 100) (i64_as_f64 max_age))"

definition wraparound_message :: "f64 \<Rightarrow> int \<Rightarrow> int \<Rightarrow> string" where
  "wraparound_message pct max_age computed =
     ''Wraparound threshold: '' @ show_fixed 1 pct @ ''% of freeze_max_age '' @ dec_int max_age @ '' = '' @
     dec_int computed @ '' XID age''"

definition effective_min_age :: "'w env \<Rightarrow> args \<Rightarrow> ('w, error + int) run" where
  "effective_min_age env a =
     (case arg_wraparound_pct a of
        None \<Rightarrow> ret (Inr (arg_wraparound_min_age a))
      | Some pct \<Rightarrow>
          try_run (get_freeze_max_age env) (\<lambda>max_age. do {
            let computed = wraparound_age pct max_age;
            log Info (Text (wraparound_message pct max_age computed));
            ret (Inr computed)
          }))"

definition start_lag_gate :: "'w env \<Rightarrow> args \<Rightarrow> ('w, error + unit) run" where
  "start_lag_gate env a =
     (case arg_max_replica_lag_seconds a of
        None \<Rightarrow> ret (Inr ())
      | Some threshold \<Rightarrow> do {
          let gate = new_gate threshold (arg_max_replica_lag_wait_seconds a);
          set_gate gate;
          map_error (with_context ''Failed to read replication lag'') (log_initial_replica_lag env gate)
        })"

definition check_horizon :: "'w env \<Rightarrow> args \<Rightarrow> ('w, error + unit) run" where
  "check_horizon env a =
     (if arg_skip_xmin_horizon_check a then ret (Inr ())
      else map_error (with_context ''Failed to check the vacuum horizon'')
        (log_initial_xmin_horizon env (arg_xmin_horizon_warn_age a)))"

section \<open>All of it\<close>

record session =
  ses_schemas :: "string list"
  ses_min_age :: int
  ses_also :: "table_key list"

definition prepare_session :: "'w env \<Rightarrow> args \<Rightarrow> run_plan \<Rightarrow> string list \<Rightarrow> ('w, error + session) run" where
  "prepare_session env a plan schemas = do {
     set_up_logbook env;
     try_run (apply_settings env a (plan_throttle plan)) (\<lambda>_. do {
     announce_run a;
     try_run (effective_min_age env a) (\<lambda>min_age.
     try_run (start_lag_gate env a) (\<lambda>_.
     try_run (check_horizon env a) (\<lambda>_.
     try_run (map_error (with_context ''Failed to resolve --also-tables entries'')
       (resolve_explicit_tables env (plan_also_tables plan) schemas)) (\<lambda>also_tables.
     ret (Inr \<lparr>ses_schemas = schemas, ses_min_age = min_age, ses_also = also_tables\<rparr>))))) })
   }"

definition set_up_session ::
  "'w env \<Rightarrow> connection_config \<Rightarrow> args \<Rightarrow> dsn_outcome \<Rightarrow> run_plan \<Rightarrow> ('w, error + session) run" where
  "set_up_session env cfg a outcome plan =
     try_run (open_session env cfg a outcome) (\<lambda>_.
     try_run (run_schemas env a) (\<lambda>schemas.
     prepare_session env a plan schemas))"

section \<open>The wraparound threshold\<close>

lemma share_error:
  assumes "0 \<le> p" "p \<le> 100" "0 \<le> n" "n \<le> 2 ^ 31"
  obtains v where "f64_times (f64_over (Fin p) 100) (i64_as_f64 n) = Fin v" "0 \<le> v" "v \<le> of_int n"
    "\<bar>v - p * of_int n / 100\<bar> \<le> 2 powi -22"
proof -
  let ?n = "of_int n :: rat" and ?q = "p / 100"
  have "of_int n \<le> (of_int (2 ^ 31) :: rat)" using assms(4) by (simp only: of_int_le_iff)
  then have n: "0 \<le> ?n" "?n \<le> 2 ^ 31" using assms(3) by simp_all
  have exact: "i64_as_f64 n = ?n" using assms(3,4) by (intro i64_as_f64_exact) simp_all
  have q: "0 \<le> ?q" "?q \<le> 1" using assms(1,2) by simp_all
  then have rq: "0 \<le> rnd ?q" "rnd ?q \<le> 1" using rnd_nonneg rnd_le [of ?q 1] binary64_of_int [of 1] by simp_all
  let ?y = "rnd ?q * ?n"
  have y: "0 \<le> ?y" "?y \<le> ?n" using rq n mult_right_mono [of "rnd ?q" 1 ?n] by simp_all
  have "binary64 ?n" using assms(3,4) by (intro binary64_of_int) simp
  then have ry: "0 \<le> rnd ?y" "rnd ?y \<le> ?n" using y rnd_nonneg rnd_le by simp_all
  have "\<bar>rnd ?q\<bar> < f64_limit" "\<bar>rnd ?y\<bar> < f64_limit"
    using rq ry n by (simp_all add: f64_limit_def)
  then have v: "f64_times (f64_over (Fin p) 100) (i64_as_f64 n) = Fin (rnd ?y)"
    by (simp add: f64_over_def f64_of_small exact)
  have "\<bar>rnd ?q - ?q\<bar> \<le> 2 powi (0 - 54)" using q by (intro rnd_error) simp_all
  then have "\<bar>rnd ?q - ?q\<bar> * ?n \<le> 2 powi -54 * 2 ^ 31" using n by (intro mult_mono) simp_all
  moreover have "?y - p * ?n / 100 = (rnd ?q - ?q) * ?n" by (simp add: left_diff_distrib)
  then have "\<bar>?y - p * ?n / 100\<bar> = \<bar>rnd ?q - ?q\<bar> * ?n" using n(1) by (simp add: abs_mult)
  moreover have "\<bar>rnd ?y - ?y\<bar> \<le> 2 powi (31 - 54)" using y n by (intro rnd_error) simp_all
  ultimately have "\<bar>rnd ?y - p * ?n / 100\<bar> \<le> 2 powi -54 * 2 ^ 31 + 2 powi (31 - 54)" by linarith
  also have "\<dots> = 2 powi -22" by (simp add: power_int_minus)
  finally show ?thesis using that [OF v ry] by blast
qed

lemma share_truncated:
  assumes "0 \<le> v" "v \<le> of_int n" "n \<le> 2 ^ 31"
  shows "f64_as_i64 (Fin v) = \<lfloor>v\<rfloor>" "0 \<le> \<lfloor>v\<rfloor>" "\<lfloor>v\<rfloor> \<le> n"
proof -
  show "0 \<le> \<lfloor>v\<rfloor>" "\<lfloor>v\<rfloor> \<le> n" using assms(1,2) by (simp_all add: floor_le_iff)
  moreover have "n \<le> 2147483648" using assms(3) by simp
  ultimately have "in_i64 \<lfloor>v\<rfloor>" unfolding in_i64_def i64_min_def i64_max_def by linarith
  with assms(1) show "f64_as_i64 (Fin v) = \<lfloor>v\<rfloor>" by (simp add: rat_trunc_def i64_clamp_id)
qed

lemma wraparound_age_mono:
  assumes "p \<le> p'" "0 < n" "n \<le> 2 ^ 31"
  shows "wraparound_age (Fin p) n \<le> wraparound_age (Fin p') n"
proof -
  have "0 < i64_as_f64 n" using assms(2,3) by (subst i64_as_f64_exact) simp_all
  moreover have "f64_over (Fin p) 100 \<le> f64_over (Fin p') 100"
    using assms(1) by (simp add: f64_over_def f64_of_mono divide_right_mono)
  ultimately show ?thesis unfolding wraparound_age_def by (intro f64_as_i64_mono f64_times_mono)
qed

text \<open>
  C37: The age that \<open>--wraparound-pct\<close> stands for. For a percentage between 0 and 100 and a freeze age as servers
  have it, the computed age lies between 0 and the freeze age, grows with the percentage, and is the exact share
  rounded down, up to the rounding of two floating-point operations (less than a millionth): when the exact share
  is a whole number the age may be one short of it, and it is never above it.
\<close>

theorem wraparound_age_sound:
  assumes "0 \<le> p" "p \<le> 100" "0 < n" "n \<le> 2 ^ 31"
  shows "0 \<le> wraparound_age (Fin p) n \<and> wraparound_age (Fin p) n \<le> n
    \<and> of_int (wraparound_age (Fin p) n) \<le> p * of_int n / 100 + 2 powi -22
    \<and> p * of_int n / 100 - 2 powi -22 < of_int (wraparound_age (Fin p) n) + 1
    \<and> (\<forall>k. p * of_int n / 100 = of_int k \<longrightarrow> wraparound_age (Fin p) n \<in> {k - 1, k})
    \<and> (\<forall>p'. p \<le> p' \<longrightarrow> wraparound_age (Fin p) n \<le> wraparound_age (Fin p') n)"
proof -
  obtain v where v: "f64_times (f64_over (Fin p) 100) (i64_as_f64 n) = Fin v" "0 \<le> v" "v \<le> of_int n"
    "\<bar>v - p * of_int n / 100\<bar> \<le> 2 powi -22"
    by (rule share_error [OF assms(1,2) less_imp_le [OF assms(3)] assms(4)])
  note trunc = share_truncated [OF v(2,3) assms(4)]
  have age: "wraparound_age (Fin p) n = \<lfloor>v\<rfloor>" unfolding wraparound_age_def v(1) by (rule trunc(1))
  have tiny: "2 powi -22 < (1 :: rat)" by (simp add: power_int_minus)
  have "of_int \<lfloor>v\<rfloor> \<le> v" "v < of_int \<lfloor>v\<rfloor> + 1" by linarith+
  with v(4) have near: "of_int \<lfloor>v\<rfloor> \<le> p * of_int n / 100 + 2 powi -22"
    "p * of_int n / 100 - 2 powi -22 < of_int \<lfloor>v\<rfloor> + 1" by linarith+
  have "\<lfloor>v\<rfloor> \<in> {k - 1, k}" if "p * of_int n / 100 = of_int k" for k
  proof -
    from near tiny have "(of_int \<lfloor>v\<rfloor> :: rat) < of_int (k + 1)" "of_int (k - 1) < (of_int (\<lfloor>v\<rfloor> + 1) :: rat)"
      unfolding that by simp_all
    then show ?thesis by (simp only: of_int_less_iff) auto
  qed
  moreover have "\<forall>p'. p \<le> p' \<longrightarrow> \<lfloor>v\<rfloor> \<le> wraparound_age (Fin p') n"
    using wraparound_age_mono [OF _ assms(3,4)] age by metis
  ultimately show ?thesis using near trunc(2,3) unfolding age by blast
qed

text \<open>One short: 57 percent of the default freeze age.\<close>

lemma age_57: "wraparound_age (Fin 57) 200000000 = 113999999"
proof -
  have "exponent_of 2 (57 / 100) = -1" by (intro exponent_of_unique) (simp_all add: power_int_minus)
  then have s1: "spacing (57 / 100) = 1 / 2 ^ 53" by (simp add: spacing_def power_int_minus)
  have "rnd_pos (57 / 100) = of_int 5134103575202365 * spacing (57 / 100)"
    by (rule rnd_pos_unique [OF refl]) (simp add: s1)
  then have q: "rnd (57 / 100) = 5134103575202365 / 2 ^ 53" by (simp add: rnd_def s1)
  define y where "y = (5134103575202365 / 2 ^ 53 * 200000000 :: rat)"
  have "exponent_of 2 y = 26" by (intro exponent_of_unique) (simp_all add: y_def)
  then have s2: "spacing y = 1 / 2 ^ 26" by (simp add: spacing_def power_int_minus)
  have "rnd_pos y = of_int 7650410495999999 * spacing y"
    by (rule rnd_pos_unique [OF refl]) (simp add: s2, simp add: y_def)
  then have y: "rnd y = 7650410495999999 / 2 ^ 26" unfolding s2 by (simp add: rnd_def y_def)
  have "f64_over (Fin 57) 100 = Fin (5134103575202365 / 2 ^ 53)"
    by (simp add: f64_over_def f64_of_small q f64_limit_def)
  moreover have "i64_as_f64 200000000 = 200000000" by (simp add: i64_as_f64_def)
  moreover have "f64_of y = Fin (7650410495999999 / 2 ^ 26)" by (simp add: f64_of_small y f64_limit_def)
  ultimately have "f64_times (f64_over (Fin 57) 100) (i64_as_f64 200000000) = Fin (7650410495999999 / 2 ^ 26)"
    by (simp add: y_def)
  moreover have "rat_trunc (7650410495999999 / 2 ^ 26) = 113999999" by (simp add: rat_trunc_def floor_eq_iff)
  ultimately show ?thesis by (simp add: wraparound_age_def i64_clamp_def i64_min_def i64_max_def)
qed

theorem wraparound_age_sound_witness:
  "wraparound_age (Fin 57) 200000000 \<in> {113999999, 114000000} \<and> wraparound_age (Fin 57) 200000000 \<noteq> 114000000"
  using wraparound_age_sound [of 57 200000000] age_57 by simp

end
