(* ===== verification/Runners.thy ===== *)
theory Runners
  imports Xmin_Horizon
begin

text \<open>
  The eight runners of \<open>src/operations.rs\<close> (\<open>run_vacuum_never_vacuumed\<close> to \<open>run_also_tables\<close>). In the
  source they are eight copies of one loop over the candidates of a phase; here the loop is
  \<open>run_phase\<close>, and what distinguishes the copies is a \<open>phase\<close> record per runner: its labels and
  messages, the command it runs, whether it consults a set of tables that earlier phases handled, how
  often it passes the lag gate (\<open>run_also_tables\<close> has that block twice), and what it reports.
\<close>

section \<open>Reporting a result\<close>

definition report_change ::
  "'w env \<Rightarrow> run_policy \<Rightarrow> string \<Rightarrow> string \<Rightarrow> operation_result \<Rightarrow> ('w, unit) run" where
  "report_change env policy schema table result =
     (case dead_tuples_reduced_approx result of
        None \<Rightarrow> ret ()
      | Some n \<Rightarrow> log (if n = 0 then Warning else Info)
          (Text (format_dead_tuple_change ''VACUUM'' schema table n)))"

definition report_change_with_horizon ::
  "'w env \<Rightarrow> run_policy \<Rightarrow> string \<Rightarrow> string \<Rightarrow> operation_result \<Rightarrow> ('w, unit) run" where
  "report_change_with_horizon env policy schema table result =
     (case dead_tuples_reduced_approx result of
        None \<Rightarrow> ret ()
      | Some n \<Rightarrow>
          (let msg = format_dead_tuple_change ''VACUUM'' schema table n in
           if n = 0 then
             (if check_xmin_horizon policy then do {
                blocker \<leftarrow> describe_worst_xmin_blocker env;
                case blocker of
                  Inr (Some desc) \<Rightarrow> log Warning (Text (msg @ '' '' @ em_dash @ '' blocked by: '' @ desc))
                | _ \<Rightarrow> log Warning (Text msg)
              } else log Warning (Text msg))
           else log Info (Text msg)))"

definition report_positive_change ::
  "'w env \<Rightarrow> run_policy \<Rightarrow> string \<Rightarrow> string \<Rightarrow> operation_result \<Rightarrow> ('w, unit) run" where
  "report_positive_change env policy schema table result =
     (case dead_tuples_reduced_approx result of
        None \<Rightarrow> ret ()
      | Some n \<Rightarrow> if 0 < n
          then log Info (Text (format_dead_tuple_change ''VACUUM (ANALYZE)'' schema table n))
          else ret ())"

datatype report_kind = NoReport | DeadTuples | DeadTuplesWithHorizon | PositiveDeadTuples

fun report_result ::
  "report_kind \<Rightarrow> 'w env \<Rightarrow> run_policy \<Rightarrow> string \<Rightarrow> string \<Rightarrow> operation_result \<Rightarrow> ('w, unit) run" where
  "report_result NoReport env policy schema table result = ret ()"
| "report_result DeadTuples env policy schema table result = report_change env policy schema table result"
| "report_result DeadTuplesWithHorizon env policy schema table result =
     report_change_with_horizon env policy schema table result"
| "report_result PositiveDeadTuples env policy schema table result =
     report_positive_change env policy schema table result"

section \<open>Phases\<close>

record 'z phase =
  op_label :: string
  nothing_found :: "log_level \<times> string"
  found_message :: "nat \<Rightarrow> log_level \<times> string"
  announce :: "'z table_key_scheme \<Rightarrow> (log_level \<times> log_msg) list"
  skip_set :: "(string \<times> string) set option"
  skip_message :: string
  gate_passes :: nat
  dry_run_message :: "vacuum_options \<Rightarrow> 'z table_key_scheme \<Rightarrow> log_msg"
  phase_command :: command
  logbook_operation :: string
  logbook_mode :: string
  report :: report_kind

datatype flow = NextTable | StopPhase

fun pass_lag_gate ::
  "'w env \<Rightarrow> run_policy \<Rightarrow> string \<Rightarrow> string \<Rightarrow> nat \<Rightarrow> ('w, error + lag_gate_verdict) run" where
  "pass_lag_gate env policy schema table 0 = ret (Inr Proceed)"
| "pass_lag_gate env policy schema table (Suc k) = do {
     gate \<leftarrow> get_gate;
     case gate of
       None \<Rightarrow> pass_lag_gate env policy schema table k
     | Some g \<Rightarrow> try_run (wait_for_replica_lag env g schema table policy) (\<lambda>verdict.
         if verdict = Proceed then pass_lag_gate env policy schema table k
         else ret (Inr verdict))
   }"

text \<open>\<open>elapsed().as_millis() as i64\<close>.\<close>

definition elapsed_ms :: "nat \<Rightarrow> nat \<Rightarrow> int" where
  "elapsed_ms start t = i64_wrap (int ((t - start) div 1000000))"

text \<open>The error arm of the match: classify, then skip, record or abort.\<close>

definition record_failure ::
  "'w env \<Rightarrow> run_policy \<Rightarrow> 'z phase \<Rightarrow> nat \<Rightarrow> nat \<Rightarrow> string \<Rightarrow> string \<Rightarrow> nat \<Rightarrow> pg_error \<Rightarrow>
     operation_summary \<Rightarrow> ('w, error + (flow \<times> operation_summary)) run" where
  "record_failure env policy ph i n schema table start e summary = do {
     t \<leftarrow> now;
     let duration_ms = elapsed_ms start t;
     stop \<leftarrow> shutdown_requested;
     case classify_op_error e stop of
       ConnectionLost \<Rightarrow> do {
         lost \<leftarrow> connection_lost_error (op_label ph) schema table (Some (i, n)) (describe_pg_error e);
         ret (Inl lost)
       }
     | ShutdownInterrupted \<Rightarrow> do {
         summary \<leftarrow> handle_shutdown_interrupt env policy summary schema table
           (logbook_operation ph) (logbook_mode ph) duration_ms;
         ret (Inr (StopPhase, summary))
       }
     | _ \<Rightarrow>
       if is_lock_timeout e then do {
         log Warning (Text (lock_timeout_skip_message policy schema table));
         ret (Inr (NextTable, count_skipped summary))
       } else do {
         log ErrorLevel (TableFailed schema table (op_label ph) (own_text e));
         log_maintenance_operation env (dry_run policy)
           \<lparr>entry_schema = schema, entry_table = table, entry_operation = logbook_operation ph,
            entry_mode = logbook_mode ph, entry_status = ''error'', entry_dead_before = None,
            entry_dead_reduced = None, entry_duration_ms = duration_ms,
            entry_error = Some (own_text e)\<rparr>;
         ret (Inr (NextTable, count_failed summary))
       }
   }"

definition record_success ::
  "'w env \<Rightarrow> run_policy \<Rightarrow> 'z phase \<Rightarrow> string \<Rightarrow> string \<Rightarrow> nat \<Rightarrow> operation_result \<Rightarrow>
     operation_summary \<Rightarrow> ('w, error + (flow \<times> operation_summary)) run" where
  "record_success env policy ph schema table start result summary = do {
     t \<leftarrow> now;
     let duration_ms = elapsed_ms start t;
     log Success (TableSuccess schema table (op_label ph) (t - start));
     report_result (report ph) env policy schema table result;
     log_maintenance_operation env (dry_run policy)
       \<lparr>entry_schema = schema, entry_table = table, entry_operation = logbook_operation ph,
        entry_mode = logbook_mode ph, entry_status = ''success'',
        entry_dead_before = dead_tuples_before result,
        entry_dead_reduced = dead_tuples_reduced_approx result,
        entry_duration_ms = duration_ms, entry_error = None\<rparr>;
     ret (Inr (NextTable, count_succeeded summary))
   }"

text \<open>From \<open>log_table_start\<close> to the end of the loop body.\<close>

definition run_operation ::
  "'w env \<Rightarrow> run_policy \<Rightarrow> vacuum_options \<Rightarrow> 'z phase \<Rightarrow> nat \<Rightarrow> nat \<Rightarrow> string \<Rightarrow> string \<Rightarrow>
     operation_summary \<Rightarrow> ('w, error + (flow \<times> operation_summary)) run" where
  "run_operation env policy v ph i n schema table summary = do {
     log Info (TableStart i n schema table (op_label ph));
     start \<leftarrow> now;
     r \<leftarrow> with_lock_timeout_retry env policy schema table
       (run_command env v (phase_command ph) schema table);
     case r of
       Inr result \<Rightarrow> record_success env policy ph schema table start result summary
     | Inl e \<Rightarrow> record_failure env policy ph i n schema table start e summary
   }"

text \<open>The loop body from the lag gate on.\<close>

definition guarded_operation ::
  "'w env \<Rightarrow> run_policy \<Rightarrow> vacuum_options \<Rightarrow> 'z phase \<Rightarrow> nat \<Rightarrow> nat \<Rightarrow> 'z table_key_scheme \<Rightarrow>
     operation_summary \<Rightarrow> ('w, error + (flow \<times> operation_summary)) run" where
  "guarded_operation env policy v ph i n t summary =
     try_run (pass_lag_gate env policy (schema_name t) (table_name t) (gate_passes ph)) (\<lambda>verdict.
     if verdict = SkipTable then ret (Inr (NextTable, count_skipped summary))
     else if verdict = ShutdownRequested then ret (Inr (StopPhase, summary))
     else try_run (handle_active_vacuums env (schema_name t) (table_name t) policy summary)
       (\<lambda>(go, summary).
         if \<not> go then ret (Inr (NextTable, summary))
         else if dry_run policy then do {
           log Info (dry_run_message ph v t);
           ret (Inr (NextTable, summary))
         } else run_operation env policy v ph i n (schema_name t) (table_name t) summary))"

definition maintain_table ::
  "'w env \<Rightarrow> run_policy \<Rightarrow> vacuum_options \<Rightarrow> 'z phase \<Rightarrow> nat \<Rightarrow> nat \<Rightarrow> 'z table_key_scheme \<Rightarrow>
     operation_summary \<Rightarrow> ('w, error + (flow \<times> operation_summary)) run" where
  "maintain_table env policy v ph i n t summary = do {
     gone \<leftarrow> is_closed env;
     if gone then do {
       lost \<leftarrow> connection_lost_error (op_label ph) (schema_name t) (table_name t) (Some (i, n))
         ''connection closed'';
       ret (Inl lost)
     } else do {
       stop \<leftarrow> shutdown_requested;
       if stop then do {
         log Warning (Text (''Shutdown signal received '' @ em_dash @ '' stopping after current table.''));
         ret (Inr (StopPhase, summary))
       } else case skip_set ph of
         Some handled \<Rightarrow>
           if table_id t \<in> handled then do {
             log Info (Text (''Skipping '' @ quoted (schema_name t) (table_name t) @ '' '' @ em_dash @
               '' '' @ skip_message ph));
             ret (Inr (NextTable, count_skipped summary))
           } else guarded_operation env policy v ph i n t summary
       | None \<Rightarrow> guarded_operation env policy v ph i n t summary
     }
   }"

fun for_tables ::
  "'w env \<Rightarrow> run_policy \<Rightarrow> vacuum_options \<Rightarrow> 'z phase \<Rightarrow> nat \<Rightarrow> nat \<Rightarrow> 'z table_key_scheme list \<Rightarrow>
     operation_summary \<Rightarrow> ('w, error + operation_summary) run" where
  "for_tables env policy v ph i n [] summary = ret (Inr summary)"
| "for_tables env policy v ph i n (t # ts) summary =
     try_run (maintain_table env policy v ph i n t summary) (\<lambda>(flow, summary).
       case flow of
         StopPhase \<Rightarrow> ret (Inr summary)
       | NextTable \<Rightarrow> for_tables env policy v ph (i + 1) n ts summary)"

fun log_all :: "(log_level \<times> log_msg) list \<Rightarrow> ('w, unit) run" where
  "log_all [] = ret ()"
| "log_all ((level, msg) # msgs) = do { log level msg; log_all msgs }"

definition empty_summary :: "nat \<Rightarrow> operation_summary" where
  "empty_summary n = \<lparr>total = n, succeeded = 0, failed = 0, skipped = 0\<rparr>"

definition run_phase ::
  "'w env \<Rightarrow> run_policy \<Rightarrow> vacuum_options \<Rightarrow> 'z phase \<Rightarrow> 'z table_key_scheme list \<Rightarrow>
     ('w, error + operation_summary) run" where
  "run_phase env policy v ph tables =
     (let summary = empty_summary (length tables) in
      if tables = [] then do {
        log (fst (nothing_found ph)) (Text (snd (nothing_found ph)));
        ret (Inr summary)
      } else do {
        log (fst (found_message ph (length tables))) (Text (snd (found_message ph (length tables))));
        log_all (concat (map (announce ph) tables));
        for_tables env policy v ph 1 (length tables) tables summary
      })"

section \<open>The eight runners\<close>

definition OP_VACUUM :: string where "OP_VACUUM = ''VACUUM''"
definition OP_ANALYZE :: string where "OP_ANALYZE = ''ANALYZE''"
definition OP_FREEZE :: string where "OP_FREEZE = ''VACUUM FREEZE''"
definition OP_BLOAT :: string where "OP_BLOAT = ''VACUUM (BLOAT)''"
definition OP_NEEDS_VACUUM :: string where "OP_NEEDS_VACUUM = ''VACUUM (NEEDS VACUUM)''"
definition OP_VACUUM_OVERDUE :: string where "OP_VACUUM_OVERDUE = ''VACUUM (OVERDUE)''"
definition OP_ANALYZE_OVERDUE :: string where "OP_ANALYZE_OVERDUE = ''ANALYZE (OVERDUE)''"
definition OP_VACUUM_ANALYZE :: string where "OP_VACUUM_ANALYZE = ''VACUUM ANALYZE''"

definition count_message :: "log_level \<Rightarrow> string \<Rightarrow> string \<Rightarrow> nat \<Rightarrow> log_level \<times> string" where
  "count_message level before after n = (level, before @ dec n @ after)"

definition never_vacuumed_phase :: "unit table_info_ext phase" where
  "never_vacuumed_phase =
     \<lparr>op_label = OP_VACUUM,
      nothing_found = (Success, ''No never-vacuumed tables found.''),
      found_message = count_message Info ''Found '' '' never-vacuumed table(s).'',
      announce = (\<lambda>t. []),
      skip_set = None, skip_message = [], gate_passes = 1,
      dry_run_message = (\<lambda>v t. WouldRun ''VACUUM'' (schema_name t) (table_name t)
        (LiveDead (n_live_tup t) (n_dead_tup t))),
      phase_command = Vacuum, logbook_operation = ''VACUUM'', logbook_mode = ''never-vacuumed'',
      report = DeadTuples\<rparr>"

definition run_vacuum_never_vacuumed ::
  "'w env \<Rightarrow> table_info list \<Rightarrow> run_policy \<Rightarrow> vacuum_options \<Rightarrow> ('w, error + operation_summary) run" where
  "run_vacuum_never_vacuumed env tables policy v = run_phase env policy v never_vacuumed_phase tables"

definition never_analyzed_phase :: "unit table_info_ext phase" where
  "never_analyzed_phase =
     \<lparr>op_label = OP_ANALYZE,
      nothing_found = (Success, ''No never-analyzed tables found.''),
      found_message = count_message Info ''Found '' '' never-analyzed table(s).'',
      announce = (\<lambda>t. []),
      skip_set = None, skip_message = [], gate_passes = 1,
      dry_run_message = (\<lambda>v t. WouldRun ''ANALYZE'' (schema_name t) (table_name t) (Live (n_live_tup t))),
      phase_command = Analyze, logbook_operation = ''ANALYZE'', logbook_mode = ''never-analyzed'',
      report = NoReport\<rparr>"

text \<open>ANALYZE takes no VACUUM options: the options handed to the loop are not used.\<close>

definition no_vacuum_options :: vacuum_options where
  "no_vacuum_options = \<lparr>vo_truncate = True, disable_page_skipping = False, skip_locked = False,
     index_cleanup = None, parallel = None\<rparr>"

definition run_analyze_never_analyzed ::
  "'w env \<Rightarrow> table_info list \<Rightarrow> run_policy \<Rightarrow> ('w, error + operation_summary) run" where
  "run_analyze_never_analyzed env tables policy =
     run_phase env policy no_vacuum_options never_analyzed_phase tables"

definition freeze_phase :: "unit freeze_table_info_ext phase" where
  "freeze_phase =
     \<lparr>op_label = OP_FREEZE,
      nothing_found = (Success, ''No wraparound candidates found '' @ em_dash @
        '' all tables are safely within the freeze window.''),
      found_message = count_message Warning ''Found '' ('' wraparound candidate(s) '' @ em_dash @
        '' these tables need immediate VACUUM FREEZE.''),
      announce = (\<lambda>t. [(Warning, WraparoundCandidate t)]),
      skip_set = None, skip_message = [], gate_passes = 1,
      dry_run_message = (\<lambda>v t. WouldRun
        (''VACUUM (VERBOSE, FREEZE, '' @
         (if index_cleanup v = Some True then ''INDEX_CLEANUP TRUE'' else ''INDEX_CLEANUP FALSE'') @ '')'')
        (schema_name t) (table_name t) NoDetail),
      phase_command = Freeze, logbook_operation = ''FREEZE'', logbook_mode = ''prevent-wraparound'',
      report = NoReport\<rparr>"

definition run_freeze_wraparound ::
  "'w env \<Rightarrow> freeze_table_info list \<Rightarrow> run_policy \<Rightarrow> vacuum_options \<Rightarrow> ('w, error + operation_summary) run" where
  "run_freeze_wraparound env tables policy v = run_phase env policy v freeze_phase tables"

definition bloat_phase :: "(string \<times> string) set \<Rightarrow> unit table_info_ext phase" where
  "bloat_phase already_handled =
     \<lparr>op_label = OP_BLOAT,
      nothing_found = (Success, ''No bloat candidates found '' @ em_dash @ '' all tables within the threshold.''),
      found_message = count_message Info ''Found '' '' bloat candidate(s).'',
      announce = (\<lambda>t. []),
      skip_set = Some already_handled, skip_message = ''already handled by an earlier phase'',
      gate_passes = 1,
      dry_run_message = (\<lambda>v t. WouldRun ''VACUUM (VERBOSE)'' (schema_name t) (table_name t)
        (BloatPct (pct_bloat t))),
      phase_command = Vacuum, logbook_operation = ''VACUUM'', logbook_mode = ''prevent-bloat'',
      report = DeadTuplesWithHorizon\<rparr>"

definition run_bloat_vacuum ::
  "'w env \<Rightarrow> bloat_table_info list \<Rightarrow> run_policy \<Rightarrow> (string \<times> string) set \<Rightarrow> vacuum_options \<Rightarrow>
     ('w, error + operation_summary) run" where
  "run_bloat_vacuum env tables policy already_handled v =
     run_phase env policy v (bloat_phase already_handled) tables"

definition needs_vacuum_phase ::
  "int \<Rightarrow> f64 \<Rightarrow> (string \<times> string) set \<Rightarrow> unit needs_vacuum_table_info_ext table_info_ext phase" where
  "needs_vacuum_phase vacuum_threshold vacuum_scale_factor already_vacuumed =
     \<lparr>op_label = OP_NEEDS_VACUUM,
      nothing_found = (Success, ''No needs-vacuum candidates found.''),
      found_message = count_message Info ''Found '' '' needs-vacuum candidate(s).'',
      announce = (\<lambda>t. []),
      skip_set = Some already_vacuumed, skip_message = ''already handled by an earlier phase'',
      gate_passes = 1,
      dry_run_message = (\<lambda>v t. WouldRun ''VACUUM (VERBOSE)'' (schema_name t) (table_name t)
        (DeadThreshold (n_dead_tup t) (effective_threshold t vacuum_threshold vacuum_scale_factor)
           (via_max_threshold t))),
      phase_command = Vacuum, logbook_operation = ''VACUUM'', logbook_mode = ''needs-vacuum'',
      report = DeadTuplesWithHorizon\<rparr>"

definition run_needs_vacuum ::
  "'w env \<Rightarrow> needs_vacuum_table_info list \<Rightarrow> int \<Rightarrow> f64 \<Rightarrow> run_policy \<Rightarrow> (string \<times> string) set \<Rightarrow>
     vacuum_options \<Rightarrow> ('w, error + operation_summary) run" where
  "run_needs_vacuum env tables vacuum_threshold vacuum_scale_factor policy already_vacuumed v =
     run_phase env policy v
       (needs_vacuum_phase vacuum_threshold vacuum_scale_factor already_vacuumed) tables"

definition vacuum_overdue_phase ::
  "(string \<times> string) set \<Rightarrow> unit overdue_vacuum_table_info_ext phase" where
  "vacuum_overdue_phase already_vacuumed =
     \<lparr>op_label = OP_VACUUM_OVERDUE,
      nothing_found = (Success, ''No tables overdue for VACUUM.''),
      found_message = count_message Info ''Found '' '' table(s) overdue for VACUUM.'',
      announce = (\<lambda>t. []),
      skip_set = Some already_vacuumed, skip_message = ''already vacuumed by an earlier phase'',
      gate_passes = 1,
      dry_run_message = (\<lambda>v t. WouldRun ''VACUUM'' (schema_name t) (table_name t)
        (LastVacuumed (days_since_vacuum t) (overdue_n_live_tup t) (overdue_n_dead_tup t))),
      phase_command = Vacuum, logbook_operation = ''VACUUM'', logbook_mode = ''vacuum-overdue'',
      report = NoReport\<rparr>"

definition run_vacuum_overdue ::
  "'w env \<Rightarrow> overdue_vacuum_table_info list \<Rightarrow> run_policy \<Rightarrow> (string \<times> string) set \<Rightarrow> vacuum_options \<Rightarrow>
     ('w, error + operation_summary) run" where
  "run_vacuum_overdue env tables policy already_vacuumed v =
     run_phase env policy v (vacuum_overdue_phase already_vacuumed) tables"

definition analyze_overdue_phase ::
  "(string \<times> string) set \<Rightarrow> unit overdue_analyze_table_info_ext phase" where
  "analyze_overdue_phase already_analyzed =
     \<lparr>op_label = OP_ANALYZE_OVERDUE,
      nothing_found = (Success, ''No tables overdue for ANALYZE.''),
      found_message = count_message Info ''Found '' '' table(s) overdue for ANALYZE.'',
      announce = (\<lambda>t. []),
      skip_set = Some already_analyzed, skip_message = ''already analyzed by an earlier phase'',
      gate_passes = 1,
      dry_run_message = (\<lambda>v t. WouldRun ''ANALYZE'' (schema_name t) (table_name t)
        (LastAnalyzed (days_since_analyze t) (n_mod_since_analyze t))),
      phase_command = Analyze, logbook_operation = ''ANALYZE'', logbook_mode = ''analyze-overdue'',
      report = NoReport\<rparr>"

definition run_analyze_overdue ::
  "'w env \<Rightarrow> overdue_analyze_table_info list \<Rightarrow> run_policy \<Rightarrow> (string \<times> string) set \<Rightarrow>
     ('w, error + operation_summary) run" where
  "run_analyze_overdue env tables policy already_analyzed =
     run_phase env policy no_vacuum_options (analyze_overdue_phase already_analyzed) tables"

definition also_tables_phase :: "(string \<times> string) set \<Rightarrow> unit phase" where
  "also_tables_phase already_handled =
     \<lparr>op_label = OP_VACUUM_ANALYZE,
      nothing_found = (Success, ''No explicitly listed tables to maintain.''),
      found_message = count_message Info ''Maintaining '' '' explicitly listed table(s).'',
      announce = (\<lambda>t. []),
      skip_set = Some already_handled, skip_message = ''already handled by an earlier phase'',
      gate_passes = 2,
      dry_run_message = (\<lambda>v t. WouldRun ''VACUUM (VERBOSE, ANALYZE)'' (schema_name t) (table_name t) NoDetail),
      phase_command = VacuumAnalyze, logbook_operation = OP_VACUUM_ANALYZE, logbook_mode = ''also-tables'',
      report = PositiveDeadTuples\<rparr>"

definition run_also_tables ::
  "'w env \<Rightarrow> table_key list \<Rightarrow> run_policy \<Rightarrow> (string \<times> string) set \<Rightarrow> vacuum_options \<Rightarrow>
     ('w, error + operation_summary) run" where
  "run_also_tables env tables policy already_handled v =
     run_phase env policy v (also_tables_phase already_handled) tables"

end
