(* ===== verification/Runner_Facts.thy ===== *)
theory Runner_Facts
  imports Runners
begin

text \<open>
  What holds of every phase, whatever its labels, its command and the server's answers: a dry run only
  looks, the handled tables a phase consults are left alone, the summary and the logbook agree, a shutdown stops the phase,
  and a lost connection ends the run.
\<close>

section \<open>What a phase may do\<close>

lemma emits_report [emits_intros]:
  "(\<And>l m. Q (ELog l m)) \<Longrightarrow> emits Q (report_result k env policy schema table res)"
  by (cases k)
    (auto simp: report_change_def report_change_with_horizon_def report_positive_change_def Let_def
      intro!: emits_intros)

lemma emits_log_all [emits_intros]: "(\<And>l m. Q (ELog l m)) \<Longrightarrow> emits Q (log_all msgs)"
  by (induction msgs rule: log_all.induct) (auto intro!: emits_intros)

lemma emits_flow [emits_intros]:
  "emits Q m \<Longrightarrow> emits Q n \<Longrightarrow> emits Q (case f of NextTable \<Rightarrow> m | StopPhase \<Rightarrow> n)"
  by (cases f) auto

lemma emits_kind [emits_intros]:
  "emits Q m1 \<Longrightarrow> emits Q m2 \<Longrightarrow> emits Q m3 \<Longrightarrow> emits Q m4 \<Longrightarrow>
     emits Q (case k of LockTimeout \<Rightarrow> m1 | ConnectionLost \<Rightarrow> m2 | ShutdownInterrupted \<Rightarrow> m3 | OtherError \<Rightarrow> m4)"
  by (cases k) auto

lemma emits_logbook [emits_intros]:
  "(\<not> dry \<Longrightarrow> Q (ELogbook e)) \<Longrightarrow> emits Q (log_maintenance_operation env dry e)"
  unfolding log_maintenance_operation_def by (auto intro!: emits_intros)

lemma emits_lost [emits_intros]:
  "(\<And>l m. Q (ELogAlways l m)) \<Longrightarrow> emits Q (connection_lost_error op schema table pos reason)"
  unfolding connection_lost_error_def Let_def by (auto intro!: emits_intros)

lemma emits_interrupt [emits_intros]:
  "(\<And>l m. Q (ELog l m)) \<Longrightarrow>
   (\<And>e. \<not> dry_run policy \<Longrightarrow> entry_schema e = schema \<Longrightarrow> entry_table e = table \<Longrightarrow> Q (ELogbook e)) \<Longrightarrow>
     emits Q (handle_shutdown_interrupt env policy sm schema table op mode d)"
  unfolding handle_shutdown_interrupt_def by (auto intro!: emits_intros)

lemma emits_pass_lag_gate [emits_intros]:
  assumes "\<And>obs. Q (ELag obs)" "\<And>d. \<not> dry_run policy \<Longrightarrow> Q (ESleep d)" "\<And>l m. Q (ELog l m)"
  shows "emits Q (pass_lag_gate env policy schema table k)"
  by (induction k) (use assms in \<open>auto intro!: emits_intros\<close>)

text \<open>The events of a table: what may be traced while \<open>t\<close> is being maintained.\<close>

fun table_event ::
  "run_policy \<Rightarrow> vacuum_options \<Rightarrow> command \<Rightarrow> 'z table_key_scheme \<Rightarrow> event \<Rightarrow> bool" where
  "table_event policy v c t (ESql sql r n) =
     (\<not> dry_run policy \<and> sql = command_sql v c (schema_name t) (table_name t))"
| "table_event policy v c t (ECount s tb r) = (\<not> dry_run policy \<and> s = schema_name t \<and> tb = table_name t)"
| "table_event policy v c t (EActive s tb r) = (s = schema_name t \<and> tb = table_name t)"
| "table_event policy v c t (ETerminate p r) = (\<not> dry_run policy)"
| "table_event policy v c t (ELogbook e) =
     (\<not> dry_run policy \<and> entry_schema e = schema_name t \<and> entry_table e = table_name t)"
| "table_event policy v c t (ESleep d) = (\<not> dry_run policy)"
| "table_event policy v c t (ELag obs) = True"
| "table_event policy v c t (ELog l m) = True"
| "table_event policy v c t (ELogAlways l m) = True"
| "table_event policy v c t _ = False"

lemma emits_guarded_operation:
  "emits (table_event policy v (phase_command ph) t) (guarded_operation env policy v ph i n t sm)"
  unfolding guarded_operation_def run_operation_def record_success_def record_failure_def
    with_lock_timeout_retry_def Let_def
  by (auto intro!: emits_intros command.emits_retry)

text \<open>Whether an earlier phase handled the table, as far as this phase looks.\<close>

definition is_handled :: "'z phase \<Rightarrow> 'z table_key_scheme \<Rightarrow> bool" where
  "is_handled ph t = (case skip_set ph of Some handled \<Rightarrow> table_id t \<in> handled | None \<Rightarrow> False)"

fun only_log :: "event \<Rightarrow> bool" where
  "only_log (ELog l m) = True"
| "only_log (ELogAlways l m) = True"
| "only_log _ = False"

lemma only_log_table_event: "only_log e \<Longrightarrow> table_event policy v c t e"
  by (cases e) auto

lemma emits_maintain_table:
  "emits (\<lambda>e. only_log e \<or> \<not> is_handled ph t \<and> table_event policy v (phase_command ph) t e)
     (maintain_table env policy v ph i n t sm)"
  unfolding maintain_table_def is_handled_def
  by (auto intro!: emits_intros intro: emits_mono [OF emits_guarded_operation])

lemma emits_for_tables:
  assumes "\<And>i t sm. t \<in> set ts \<Longrightarrow> emits Q (maintain_table env policy v ph i n t sm)"
  shows "emits Q (for_tables env policy v ph i n ts sm)"
  using assms by (induction ts arbitrary: i sm) (auto intro!: emits_intros)

definition phase_event :: "run_policy \<Rightarrow> vacuum_options \<Rightarrow> 'z phase \<Rightarrow> 'z table_key_scheme list \<Rightarrow> event \<Rightarrow> bool" where
  "phase_event policy v ph ts e =
     (only_log e \<or> (\<exists>t\<in>set ts. \<not> is_handled ph t \<and> table_event policy v (phase_command ph) t e))"

lemma emits_run_phase: "emits (phase_event policy v ph ts) (run_phase env policy v ph ts)"
proof -
  have "emits (phase_event policy v ph ts) (maintain_table env policy v ph i n t sm)" if "t \<in> set ts" for i n t sm
    by (rule emits_mono [OF emits_maintain_table]) (use that in \<open>auto simp: phase_event_def\<close>)
  moreover have "phase_event policy v ph ts (ELog l m)" for l m by (simp add: phase_event_def)
  ultimately show ?thesis
    unfolding run_phase_def Let_def by (auto intro!: emits_intros emits_for_tables)
qed

section \<open>The summary\<close>

fun entry_with :: "string \<Rightarrow> event \<Rightarrow> bool" where
  "entry_with st (ELogbook e) = (entry_status e = st)"
| "entry_with st _ = False"

definition entries :: "string \<Rightarrow> event list \<Rightarrow> nat" where
  "entries st es = length (filter (entry_with st) es)"

lemma entries_simps [simp]:
  "entries st [] = 0" "entries st (es @ fs) = entries st es + entries st fs"
  "entries st (e # es) = (if entry_with st e then 1 else 0) + entries st es"
  by (simp_all add: entries_def)

fun not_logbook :: "event \<Rightarrow> bool" where
  "not_logbook (ELogbook _) = False"
| "not_logbook _ = True"

lemma entries_none: "\<forall>e\<in>set es. not_logbook e \<Longrightarrow> entries st es = 0"
proof (induction es)
  case (Cons e es)
  then show ?case by (cases e) auto
qed simp

definition finished :: "operation_summary \<Rightarrow> nat" where
  "finished sm = succeeded sm + failed sm + skipped sm"

text \<open>How a step of the loop may change the summary, next to the events it traced.\<close>

definition accounts :: "operation_summary \<Rightarrow> operation_summary \<Rightarrow> event list \<Rightarrow> bool" where
  "accounts sm sm' es =
     (total sm' = total sm
      \<and> succeeded sm' = succeeded sm + entries ''success'' es
      \<and> failed sm' = failed sm + entries ''error'' es
      \<and> skipped sm + entries ''cancelled'' es \<le> skipped sm')"

lemma accounts_trans:
  "accounts a b es \<Longrightarrow> accounts b c fs \<Longrightarrow> accounts a c (es @ fs)"
  by (simp add: accounts_def)

lemma no_entries:
  assumes "emits not_logbook m" "run_state m s = (r, s')"
  obtains es where "trace s' = trace s @ es" "\<forall>st. entries st es = 0"
proof -
  from emitsD [OF assms] obtain es where "trace s' = trace s @ es" "\<forall>e\<in>set es. not_logbook e"
    by (auto simp: evolves_def)
  with that entries_none show thesis by blast
qed

lemma record_success_accounts:
  assumes "run_state (record_success env policy ph sch tab start res sm) s = (r, s')" "\<not> dry_run policy"
  shows "\<exists>es. trace s' = trace s @ es \<and> r = Inr (NextTable, count_succeeded sm)
       \<and> entries ''success'' es = 1 \<and> entries ''error'' es = 0 \<and> entries ''cancelled'' es = 0"
proof -
  let ?m = "ELog Success (TableSuccess sch tab (op_label ph) (clock s - start))"
  obtain s1 where r: "run_state (report_result (report ph) env policy sch tab res)
      (s\<lparr>trace := trace s @ [?m]\<rparr>) = ((), s1)" by (metis (full_types) old.unit.exhaust surj_pair)
  obtain es where es: "trace s1 = trace s @ [?m] @ es" "\<forall>st. entries st es = 0"
    by (rule no_entries [OF _ r]) (auto intro!: emits_intros)
  from assms r es show ?thesis
    by (auto simp: record_success_def log_maintenance_operation_def Let_def)
qed

lemma log_entry_accounts:
  assumes "run_state (log_maintenance_operation env False e) s = (u, s')"
  shows "trace s' = trace s @ [ELogbook e]"
  using assms by (auto simp: log_maintenance_operation_def)

lemma interrupt_accounts:
  assumes "run_state (handle_shutdown_interrupt env policy sm sch tab op mode d) s = (sm', s')"
    "\<not> dry_run policy"
  shows "\<exists>es. trace s' = trace s @ es \<and> accounts sm sm' es \<and> finished sm' = finished sm + 1"
proof -
  let ?m = "ELog Warning (Text (quoted sch tab @ '' interrupted by shutdown (statement cancelled); safe to re-run''))"
  show ?thesis
  proof (cases "client_is_closed env (world s)")
    case True
    with assms show ?thesis
      by (intro exI [of _ "[?m]"])
        (auto simp: handle_shutdown_interrupt_def accounts_def count_skipped_def finished_def)
  next
    case False
    with assms obtain e u where e: "run_state (log_maintenance_operation env False e) (s\<lparr>trace := trace s @ [?m]\<rparr>) = (u, s')"
      and "entry_status e = ''cancelled''" "sm' = count_skipped sm"
      by (auto simp: handle_shutdown_interrupt_def split: prod.splits)
    with log_entry_accounts [OF e] show ?thesis
      by (intro exI [of _ "[?m, ELogbook e]"]) (auto simp: accounts_def count_skipped_def finished_def)
  qed
qed

definition error_entry :: "'z phase \<Rightarrow> string \<Rightarrow> string \<Rightarrow> int \<Rightarrow> pg_error \<Rightarrow> log_entry" where
  "error_entry ph schema table duration_ms e =
     \<lparr>entry_schema = schema, entry_table = table, entry_operation = logbook_operation ph,
      entry_mode = logbook_mode ph, entry_status = ''error'', entry_dead_before = None,
      entry_dead_reduced = None, entry_duration_ms = duration_ms, entry_error = Some (own_text e)\<rparr>"

lemma run_record_failure:
  "run_state (record_failure env policy ph i n sch tab start e sm) s =
     (let d = elapsed_ms start (clock s);
          other = (if is_lock_timeout e
             then (Inr (NextTable, count_skipped sm),
                   s\<lparr>trace := trace s @ [ELog Warning (Text (lock_timeout_skip_message policy sch tab))]\<rparr>)
             else (Inr (NextTable, count_failed sm),
                   snd (run_state (log_maintenance_operation env (dry_run policy) (error_entry ph sch tab d e))
                     (s\<lparr>trace := trace s @ [ELog ErrorLevel (TableFailed sch tab (op_label ph) (own_text e))]\<rparr>))))
      in case classify_op_error e (signalled (signal_at s) (clock s)) of
           ConnectionLost \<Rightarrow>
             (let lost = \<lparr>lost_operation = op_label ph, lost_schema = sch, lost_table = tab,
                          lost_position = Some (i, n), lost_cause = describe_pg_error e\<rparr>
              in (Inl [CLost lost], s\<lparr>trace := trace s @ [ELogAlways ErrorLevel (LostConnection lost)]\<rparr>))
         | ShutdownInterrupted \<Rightarrow>
             map_prod (\<lambda>sm'. Inr (StopPhase, sm')) id
               (run_state (handle_shutdown_interrupt env policy sm sch tab (logbook_operation ph) (logbook_mode ph) d) s)
         | LockTimeout \<Rightarrow> other | OtherError \<Rightarrow> other)"
  by (cases "classify_op_error e (signalled (signal_at s) (clock s))")
    (simp_all add: record_failure_def connection_lost_error_def error_entry_def Let_def split: prod.split)

lemma record_failure_accounts:
  assumes "run_state (record_failure env policy ph i n sch tab start e sm) s = (r, s')" "\<not> dry_run policy"
  shows "\<exists>es. trace s' = trace s @ es \<and> (\<forall>flow sm'. r = Inr (flow, sm') \<longrightarrow> accounts sm sm' es
       \<and> finished sm' = finished sm + 1)"
proof -
  let ?k = "classify_op_error e (signalled (signal_at s) (clock s))"
  let ?f = "ELog ErrorLevel (TableFailed sch tab (op_label ph) (own_text e))"
  let ?en = "error_entry ph sch tab (elapsed_ms start (clock s)) e"
  consider "?k = ConnectionLost" | "?k = ShutdownInterrupted"
    | (lock) "?k = LockTimeout \<or> ?k = OtherError" "is_lock_timeout e"
    | (other) "?k = LockTimeout \<or> ?k = OtherError" "\<not> is_lock_timeout e"
    by (cases ?k) auto
  then show ?thesis
  proof cases
    case 1
    with assms show ?thesis by (auto simp: run_record_failure Let_def)
  next
    case 2
    with assms obtain sm' where "run_state (handle_shutdown_interrupt env policy sm sch tab
        (logbook_operation ph) (logbook_mode ph) (elapsed_ms start (clock s))) s = (sm', s')"
      "r = Inr (StopPhase, sm')"
      by (auto simp: run_record_failure Let_def map_prod_def split: prod.splits)
    with interrupt_accounts [OF this(1) assms(2)] show ?thesis by auto
  next
    case lock
    with assms(1) have "r = Inr (NextTable, count_skipped sm)"
      "trace s' = trace s @ [ELog Warning (Text (lock_timeout_skip_message policy sch tab))]"
      by (elim disjE; auto simp: run_record_failure Let_def)+
    then show ?thesis
      by (auto simp: accounts_def count_skipped_def finished_def)
  next
    case other
    with assms(1) have "r = Inr (NextTable, count_failed sm)"
      "s' = snd (run_state (log_maintenance_operation env (dry_run policy) ?en) (s\<lparr>trace := trace s @ [?f]\<rparr>))"
      by (elim disjE; auto simp: run_record_failure Let_def)+
    moreover from this assms(2) have "trace s' = (trace s @ [?f]) @ [ELogbook ?en]"
      using log_entry_accounts [OF surjective_pairing, of env ?en "s\<lparr>trace := trace s @ [?f]\<rparr>"] by simp
    moreover have "entry_status ?en = ''error''" by (simp add: error_entry_def)
    ultimately show ?thesis
      by (intro exI [of _ "[?f, ELogbook ?en]"]) (auto simp: accounts_def count_failed_def finished_def)
  qed
qed

lemma accounts_quiet:
  "\<forall>st. entries st es = 0 \<Longrightarrow> accounts sm sm' fs \<Longrightarrow> accounts sm sm' (es @ fs)"
  "\<forall>st. entries st fs = 0 \<Longrightarrow> accounts sm sm' es \<Longrightarrow> accounts sm sm' (es @ fs)"
  by (simp_all add: accounts_def)

lemma entries_log [simp]: "entries st (ELog l m # es) = entries st es"
  by simp

lemma run_run_operation:
  "run_state (run_operation env policy v ph i n sch tab sm) s =
     (case run_state (with_lock_timeout_retry env policy sch tab
             (run_command env v (phase_command ph) sch tab))
           (s\<lparr>trace := trace s @ [ELog Info (TableStart i n sch tab (op_label ph))]\<rparr>) of
        (Inl e, s1) \<Rightarrow> run_state (record_failure env policy ph i n sch tab (clock s) e sm) s1
      | (Inr res, s1) \<Rightarrow> run_state (record_success env policy ph sch tab (clock s) res sm) s1)"
  by (simp add: run_operation_def split: prod.split sum.split)

lemma run_operation_accounts:
  assumes "run_state (run_operation env policy v ph i n sch tab sm) s = (r, s')" "\<not> dry_run policy"
  shows "\<exists>es. trace s' = trace s @ es \<and> (\<forall>flow sm'. r = Inr (flow, sm') \<longrightarrow> accounts sm sm' es
       \<and> finished sm' = finished sm + 1)"
proof -
  let ?m = "ELog Info (TableStart i n sch tab (op_label ph))"
  let ?s0 = "s\<lparr>trace := trace s @ [?m]\<rparr>"
  obtain x s1 where op: "run_state (with_lock_timeout_retry env policy sch tab
      (run_command env v (phase_command ph) sch tab)) ?s0 = (x, s1)" by fastforce
  obtain es where es: "trace s1 = trace ?s0 @ es" "\<forall>st. entries st es = 0"
    by (rule no_entries [OF _ op])
      (auto simp: with_lock_timeout_retry_def intro!: command.emits_retry)
  then have pre: "trace s1 = trace s @ (?m # es)" "\<forall>st. entries st (?m # es) = 0" by simp_all
  show ?thesis
  proof (cases x)
    case (Inl e)
    with assms op have "run_state (record_failure env policy ph i n sch tab (clock s) e sm) s1 = (r, s')"
      by (simp add: run_run_operation)
    from record_failure_accounts [OF this assms(2)] obtain fs where fs: "trace s' = trace s1 @ fs"
      "\<forall>flow sm'. r = Inr (flow, sm') \<longrightarrow> accounts sm sm' fs \<and> finished sm' = finished sm + 1" by blast
    have "trace s' = trace s @ ((?m # es) @ fs)" using fs(1) pre(1) by simp
    moreover have "\<forall>flow sm'. r = Inr (flow, sm') \<longrightarrow> accounts sm sm' ((?m # es) @ fs)
        \<and> finished sm' = finished sm + 1"
      using fs(2) accounts_quiet(1) [OF pre(2)] by blast
    ultimately show ?thesis by blast
  next
    case (Inr res)
    with assms op have "run_state (record_success env policy ph sch tab (clock s) res sm) s1 = (r, s')"
      by (simp add: run_run_operation)
    from record_success_accounts [OF this assms(2)] obtain fs where fs: "trace s' = trace s1 @ fs"
      "r = Inr (NextTable, count_succeeded sm)"
      "entries ''success'' fs = 1" "entries ''error'' fs = 0" "entries ''cancelled'' fs = 0" by blast
    then have "accounts sm (count_succeeded sm) fs" "finished (count_succeeded sm) = finished sm + 1"
      by (simp_all add: accounts_def count_succeeded_def finished_def)
    then have "accounts sm (count_succeeded sm) ((?m # es) @ fs)" "finished (count_succeeded sm) = finished sm + 1"
      using accounts_quiet(1) [OF pre(2)] by blast+
    moreover have "trace s' = trace s @ ((?m # es) @ fs)" using fs(1) pre(1) by simp
    ultimately show ?thesis using fs(2) by (intro exI [of _ "(?m # es) @ fs"]) simp
  qed
qed

lemma handle_active_vacuums_summary:
  assumes "run_state (handle_active_vacuums env sch tab policy sm) s = (Inr (go, sm'), s')"
  shows "sm' = (if go then sm else count_skipped sm)"
  using handle_active_vacuums_spec [OF assms refl] by (cases go) (auto simp: Let_def)

lemma gate_no_entries:
  assumes "run_state (pass_lag_gate env policy sch tab k) s = (r, s')"
  obtains es where "trace s' = trace s @ es" "\<forall>st. entries st es = 0"
  by (rule no_entries [OF _ assms]) (auto intro!: emits_intros that)

lemma active_no_entries:
  assumes "run_state (handle_active_vacuums env sch tab policy sm) s = (r, s')"
  obtains es where "trace s' = trace s @ es" "\<forall>st. entries st es = 0"
  by (rule no_entries [OF _ assms]) (auto intro!: emits_intros that)

text \<open>
  A table adds at most one to the summary, and (outside a dry run, with the phase going on) exactly one.
\<close>

definition table_ok ::
  "run_policy \<Rightarrow> operation_summary \<Rightarrow> error + (flow \<times> operation_summary) \<Rightarrow> event list \<Rightarrow> bool" where
  "table_ok policy sm r es =
     (\<forall>flow sm'. r = Inr (flow, sm') \<longrightarrow> accounts sm sm' es \<and> finished sm' \<le> finished sm + 1
        \<and> (flow = NextTable \<and> \<not> dry_run policy \<longrightarrow> finished sm' = finished sm + 1))"

lemma table_ok_quiet:
  assumes "\<forall>st. entries st es = 0"
    "\<forall>flow sm'. r = Inr (flow, sm') \<longrightarrow> accounts sm sm' fs \<and> finished sm' = finished sm + 1"
  shows "table_ok policy sm r (es @ fs)"
  unfolding table_ok_def
proof (intro allI impI)
  fix flow sm'
  assume "r = Inr (flow, sm')"
  with assms(2) have "accounts sm sm' fs" "finished sm' = finished sm + 1" by blast+
  then show "accounts sm sm' (es @ fs) \<and> finished sm' \<le> finished sm + 1 \<and>
      (flow = NextTable \<and> \<not> dry_run policy \<longrightarrow> finished sm' = finished sm + 1)"
    using accounts_quiet(1) [OF assms(1)] by simp
qed

lemma table_ok_still:
  assumes "\<forall>st. entries st es = 0"
    "(\<exists>e. r = Inl e) \<or> r = Inr (NextTable, count_skipped sm) \<or> r = Inr (StopPhase, sm)"
  shows "table_ok policy sm r es"
  using assms(2)
proof (elim disjE exE)
  have "accounts sm sm es" "accounts sm (count_skipped sm) es" "finished (count_skipped sm) = finished sm + 1"
    using assms(1) by (simp_all add: accounts_def count_skipped_def finished_def)
  then show "table_ok policy sm r es" if "r = Inr (NextTable, count_skipped sm)"
    using that by (simp add: table_ok_def)
  show "table_ok policy sm r es" if "r = Inr (StopPhase, sm)"
    using that \<open>accounts sm sm es\<close> by (simp add: table_ok_def)
qed (simp add: table_ok_def)

lemma table_ok_dry:
  "\<forall>st. entries st es = 0 \<Longrightarrow> dry_run policy \<Longrightarrow> r = Inr (NextTable, sm) \<Longrightarrow>
     table_ok policy sm r (es @ [ELog l m])"
  by (simp add: table_ok_def accounts_def)

lemma run_guarded:
  "run_state (guarded_operation env policy v ph i n t sm) s =
     (case run_state (pass_lag_gate env policy (schema_name t) (table_name t) (gate_passes ph)) s of
        (Inl e, s1) \<Rightarrow> (Inl e, s1)
      | (Inr SkipTable, s1) \<Rightarrow> (Inr (NextTable, count_skipped sm), s1)
      | (Inr ShutdownRequested, s1) \<Rightarrow> (Inr (StopPhase, sm), s1)
      | (Inr Proceed, s1) \<Rightarrow>
          (case run_state (handle_active_vacuums env (schema_name t) (table_name t) policy sm) s1 of
             (Inl e, s2) \<Rightarrow> (Inl e, s2)
           | (Inr (go, sm'), s2) \<Rightarrow>
               if \<not> go then (Inr (NextTable, sm'), s2)
               else if dry_run policy
               then (Inr (NextTable, sm'), s2\<lparr>trace := trace s2 @ [ELog Info (dry_run_message ph v t)]\<rparr>)
               else run_state (run_operation env policy v ph i n (schema_name t) (table_name t) sm') s2))"
  by (simp add: guarded_operation_def split: prod.split sum.split lag_gate_verdict.split)

lemma active_answer_cases:
  assumes "run_state (handle_active_vacuums env sch tab policy sm) s = (a, s')"
  obtains "a = Inr (True, sm)" | e where "a = Inl e" | "a = Inr (False, count_skipped sm)"
proof (cases a)
  case (Inr p)
  obtain b sm' where p: "p = (b, sm')" by (cases p)
  with Inr assms have "sm' = (if b then sm else count_skipped sm)"
    by (auto dest: handle_active_vacuums_summary)
  with p Inr that show ?thesis by (cases b) simp_all
qed (use that in blast)

text \<open>What happens to one table: nothing is sent to it, or a dry run says what would be, or its command
  is run.\<close>

lemma guarded_cases:
  assumes "run_state (guarded_operation env policy v ph i n t sm) s = (r, s')"
  obtains es where "trace s' = trace s @ es" "\<forall>st. entries st es = 0"
      "(\<exists>e. r = Inl e) \<or> r = Inr (NextTable, count_skipped sm) \<or> r = Inr (StopPhase, sm)"
  | es where "trace s' = trace s @ es @ [ELog Info (dry_run_message ph v t)]" "\<forall>st. entries st es = 0"
      "dry_run policy" "r = Inr (NextTable, sm)"
  | es s1 where "trace s1 = trace s @ es" "\<forall>st. entries st es = 0" "\<not> dry_run policy"
      "run_state (run_operation env policy v ph i n (schema_name t) (table_name t) sm) s1 = (r, s')"
proof -
  let ?s = "schema_name t" and ?t = "table_name t"
  obtain g s1 where gate: "run_state (pass_lag_gate env policy ?s ?t (gate_passes ph)) s = (g, s1)"
    by fastforce
  obtain es where es: "trace s1 = trace s @ es" "\<forall>st. entries st es = 0" by (rule gate_no_entries [OF gate])
  obtain a s2 where act: "run_state (handle_active_vacuums env ?s ?t policy sm) s1 = (a, s2)" by fastforce
  obtain fs where fs: "trace s2 = trace s1 @ fs" "\<forall>st. entries st fs = 0" by (rule active_no_entries [OF act])
  have pre: "trace s2 = trace s @ (es @ fs)" "\<forall>st. entries st (es @ fs) = 0" using es fs by simp_all
  show ?thesis
  proof (cases "g = Inr Proceed")
    case False
    then have "s' = s1 \<and> ((\<exists>e. r = Inl e) \<or> r = Inr (NextTable, count_skipped sm) \<or> r = Inr (StopPhase, sm))"
      using assms gate by (auto simp: run_guarded split: sum.splits lag_gate_verdict.splits)
    with es show ?thesis by (intro that(1)) auto
  next
    case True
    note run = assms [unfolded run_guarded] gate act True
    from act show ?thesis
    proof (cases rule: active_answer_cases)
      case 1
      with run pre show ?thesis by (cases "dry_run policy") (auto intro: that(2,3) simp: run_guarded)
    qed (use run pre in \<open>auto intro!: that(1) simp: run_guarded\<close>)
  qed
qed

lemma guarded_operation_accounts:
  assumes "run_state (guarded_operation env policy v ph i n t sm) s = (r, s')"
  shows "\<exists>es. trace s' = trace s @ es \<and> table_ok policy sm r es"
  using assms
proof (cases rule: guarded_cases)
  case (1 es)
  with table_ok_still [OF 1(2), of r sm policy] show ?thesis by blast
next
  case (2 es)
  with table_ok_dry [OF 2(2,3,4)] show ?thesis by auto
next
  case (3 es s1)
  from run_operation_accounts [OF 3(4,3)] obtain gs where gs: "trace s' = trace s1 @ gs"
    "\<forall>flow sm'. r = Inr (flow, sm') \<longrightarrow> accounts sm sm' gs \<and> finished sm' = finished sm + 1" by blast
  then have "trace s' = trace s @ (es @ gs)" using 3(1) by simp
  with table_ok_quiet [OF 3(2) gs(2)] show ?thesis by blast
qed

lemma run_maintain_table:
  "run_state (maintain_table env policy v ph i n t sm) s =
     (if client_is_closed env (world s)
      then (let lost = \<lparr>lost_operation = op_label ph, lost_schema = schema_name t, lost_table = table_name t,
                        lost_position = Some (i, n), lost_cause = ''connection closed''\<rparr>
            in (Inl [CLost lost], s\<lparr>trace := trace s @ [ELogAlways ErrorLevel (LostConnection lost)]\<rparr>))
      else if signalled (signal_at s) (clock s)
      then (Inr (StopPhase, sm), s\<lparr>trace := trace s @ [ELog Warning
             (Text (''Shutdown signal received '' @ em_dash @ '' stopping after current table.''))]\<rparr>)
      else if is_handled ph t
      then (Inr (NextTable, count_skipped sm), s\<lparr>trace := trace s @ [ELog Info
             (Text (''Skipping '' @ quoted (schema_name t) (table_name t) @ '' '' @ em_dash @ '' '' @ skip_message ph))]\<rparr>)
      else run_state (guarded_operation env policy v ph i n t sm) s)"
  by (simp add: maintain_table_def connection_lost_error_def is_handled_def Let_def split: option.split)

lemma maintain_table_accounts:
  assumes "run_state (maintain_table env policy v ph i n t sm) s = (r, s')"
  shows "\<exists>es. trace s' = trace s @ es \<and> table_ok policy sm r es"
proof (cases "client_is_closed env (world s) \<or> signalled (signal_at s) (clock s) \<or> is_handled ph t")
  case False
  with assms have "run_state (guarded_operation env policy v ph i n t sm) s = (r, s')"
    by (simp add: run_maintain_table)
  then show ?thesis by (rule guarded_operation_accounts)
next
  case True
  with assms have "\<exists>e. trace s' = trace s @ [e] \<and> only_log e
      \<and> ((\<exists>err. r = Inl err) \<or> r = Inr (StopPhase, sm) \<or> r = Inr (NextTable, count_skipped sm))"
    by (auto simp: run_maintain_table Let_def split: if_splits)
  then obtain e where e: "trace s' = trace s @ [e]" "only_log e"
    "(\<exists>err. r = Inl err) \<or> r = Inr (NextTable, count_skipped sm) \<or> r = Inr (StopPhase, sm)" by blast
  from e(2) have "\<forall>st. entries st [e] = 0" by (cases e) auto
  from e(1) table_ok_still [OF this e(3)] show ?thesis by blast
qed

lemma for_tables_accounts:
  "run_state (for_tables env policy v ph i n ts sm) s = (r, s') \<Longrightarrow>
     \<exists>es. trace s' = trace s @ es
       \<and> (\<forall>sm'. r = Inr sm' \<longrightarrow> accounts sm sm' es \<and> finished sm' \<le> finished sm + length ts)"
proof (induction ts arbitrary: i sm s)
  case Nil
  then show ?case by (auto simp: accounts_def)
next
  case (Cons t ts)
  obtain x s1 where x: "run_state (maintain_table env policy v ph i n t sm) s = (x, s1)" by fastforce
  from maintain_table_accounts [OF x] obtain es where
    es: "trace s1 = trace s @ es" "table_ok policy sm x es" by blast
  show ?case
  proof (cases "\<exists>sm1. x = Inr (NextTable, sm1)")
    case False
    with Cons.prems x have "s' = s1 \<and> ((\<exists>e. r = Inl e) \<or> (\<exists>sm1. x = Inr (StopPhase, sm1) \<and> r = Inr sm1))"
      by (auto split: sum.splits flow.splits)
    with es show ?thesis by (intro exI [of _ es]) (auto simp: table_ok_def)
  next
    case True
    then obtain sm1 where sm1: "x = Inr (NextTable, sm1)" by blast
    with Cons.prems x have "run_state (for_tables env policy v ph (i + 1) n ts sm1) s1 = (r, s')" by simp
    from Cons.IH [OF this] obtain fs where fs: "trace s' = trace s1 @ fs"
      "\<forall>sm'. r = Inr sm' \<longrightarrow> accounts sm1 sm' fs \<and> finished sm' \<le> finished sm1 + length ts" by blast
    from es(2) sm1 have "accounts sm sm1 es" "finished sm1 \<le> finished sm + 1" by (auto simp: table_ok_def)
    with es(1) fs show ?thesis
      by (intro exI [of _ "es @ fs"]) (auto dest: accounts_trans)
  qed
qed

section \<open>After the signal\<close>

definition late_statements :: "nat option \<Rightarrow> event list \<Rightarrow> nat" where
  "late_statements sig es = length (filter (late sig) es)"

lemma late_statements_simps [simp]:
  "late_statements sig [] = 0"
  "late_statements sig (es @ fs) = late_statements sig es + late_statements sig fs"
  "late_statements sig (e # es) = (if late sig e then 1 else 0) + late_statements sig es"
  by (simp_all add: late_statements_def)

lemma no_late:
  assumes "emits (\<lambda>e. \<not> is_statement e) m" "run_state m s = (r, s')"
  obtains es where "trace s' = trace s @ es" "late_statements sig es = 0" "signal_at s' = signal_at s"
proof -
  from emitsD [OF assms] obtain es where es: "trace s' = trace s @ es" "\<forall>e\<in>set es. \<not> is_statement e"
    and sig: "signal_at s' = signal_at s" by (auto simp: evolves_def)
  have "late_statements sig es = 0"
    using es(2) by (auto simp: late_statements_def filter_empty_conv dest: late_statement)
  with that es(1) sig show thesis by blast
qed

lemma record_no_statement:
  "emits (\<lambda>e. \<not> is_statement e) (record_success env policy ph sch tab start res sm)"
  "emits (\<lambda>e. \<not> is_statement e) (record_failure env policy ph i n sch tab start e sm)"
  unfolding record_success_def record_failure_def Let_def by (auto intro!: emits_intros)

lemma run_operation_late:
  assumes "run_state (run_operation env policy v ph i n sch tab sm) s = (r, s')"
  shows "\<exists>es. trace s' = trace s @ es \<and> late_statements (signal_at s) es \<le> 1"
proof -
  let ?m = "ELog Info (TableStart i n sch tab (op_label ph))"
  let ?s0 = "s\<lparr>trace := trace s @ [?m]\<rparr>"
  obtain x s1 where op: "run_state (with_lock_timeout_retry env policy sch tab
      (run_command env v (phase_command ph) sch tab)) ?s0 = (x, s1)" by fastforce
  from command.retry_late [OF op [unfolded with_lock_timeout_retry_def]]
  obtain es where es: "trace s1 = trace ?s0 @ es" "late_statements (signal_at s) es \<le> 1"
    by (auto simp: late_statements_def)
  obtain k where k: "run_state k s1 = (r, s')" "emits (\<lambda>e. \<not> is_statement e) k"
  proof (cases x)
    case (Inl e)
    with assms op have "run_state (record_failure env policy ph i n sch tab (clock s) e sm) s1 = (r, s')"
      by (simp add: run_run_operation)
    from that [OF this record_no_statement(2)] show thesis .
  next
    case (Inr res)
    with assms op have "run_state (record_success env policy ph sch tab (clock s) res sm) s1 = (r, s')"
      by (simp add: run_run_operation)
    from that [OF this record_no_statement(1)] show thesis .
  qed
  obtain fs where "trace s' = trace s1 @ fs" "late_statements (signal_at s) fs = 0"
    by (rule no_late [OF k(2,1)])
  with es show ?thesis by (intro exI [of _ "?m # es @ fs"]) simp
qed

lemma gate_no_late:
  assumes "run_state (pass_lag_gate env policy sch tab k) s = (r, s')"
  obtains es where "trace s' = trace s @ es" "late_statements sig es = 0" "signal_at s' = signal_at s"
  by (rule no_late [OF _ assms]) (auto intro!: emits_intros that)

lemma active_no_late:
  assumes "run_state (handle_active_vacuums env sch tab policy sm) s = (r, s')"
  obtains es where "trace s' = trace s @ es" "late_statements sig es = 0" "signal_at s' = signal_at s"
  by (rule no_late [OF _ assms]) (auto intro!: emits_intros that)

lemma guarded_operation_late:
  assumes "run_state (guarded_operation env policy v ph i n t sm) s = (r, s')"
  shows "\<exists>es. trace s' = trace s @ es \<and> late_statements (signal_at s) es \<le> 1"
proof -
  let ?s = "schema_name t" and ?t = "table_name t"
  obtain g s1 where gate: "run_state (pass_lag_gate env policy ?s ?t (gate_passes ph)) s = (g, s1)"
    by fastforce
  obtain es where es: "trace s1 = trace s @ es" "late_statements (signal_at s) es = 0" "signal_at s1 = signal_at s"
    by (rule gate_no_late [OF gate])
  obtain a s2 where act: "run_state (handle_active_vacuums env ?s ?t policy sm) s1 = (a, s2)" by fastforce
  obtain fs where fs: "trace s2 = trace s1 @ fs" "late_statements (signal_at s) fs = 0" "signal_at s2 = signal_at s1"
    by (rule active_no_late [OF act])
  consider "s' = s1" | "s' = s2" | "s' = s2\<lparr>trace := trace s2 @ [ELog Info (dry_run_message ph v t)]\<rparr>"
    | sm' where "run_state (run_operation env policy v ph i n ?s ?t sm') s2 = (r, s')"
    using assms gate act by (auto simp: run_guarded split: sum.splits lag_gate_verdict.splits if_splits)
  then show ?thesis
  proof cases
    case 1
    with es show ?thesis by (intro exI [of _ es]) simp
  next
    case 2
    with es fs show ?thesis by (intro exI [of _ "es @ fs"]) simp
  next
    case 3
    with es fs show ?thesis by (intro exI [of _ "es @ fs @ [ELog Info (dry_run_message ph v t)]"]) simp
  next
    case 4
    from run_operation_late [OF this] es fs obtain gs where
      "trace s' = trace s2 @ gs" "late_statements (signal_at s) gs \<le> 1" by auto
    with es fs show ?thesis by (intro exI [of _ "es @ fs @ gs"]) simp
  qed
qed

lemma maintain_table_late:
  assumes "run_state (maintain_table env policy v ph i n t sm) s = (r, s')"
  shows "\<exists>es. trace s' = trace s @ es \<and> late_statements (signal_at s) es \<le> 1
     \<and> (signalled (signal_at s) (clock s) \<longrightarrow> late_statements (signal_at s) es = 0 \<and> (\<forall>sm'. r \<noteq> Inr (NextTable, sm')))"
proof (cases "client_is_closed env (world s) \<or> signalled (signal_at s) (clock s) \<or> is_handled ph t")
  case False
  with assms have "run_state (guarded_operation env policy v ph i n t sm) s = (r, s')"
    by (simp add: run_maintain_table)
  from guarded_operation_late [OF this] False show ?thesis by blast
next
  case True
  with assms have "\<exists>e. trace s' = trace s @ [e] \<and> only_log e
      \<and> (signalled (signal_at s) (clock s) \<longrightarrow> (\<forall>sm'. r \<noteq> Inr (NextTable, sm')))"
    by (auto simp: run_maintain_table Let_def split: if_splits)
  then obtain e where e: "trace s' = trace s @ [e]" "only_log e"
    "signalled (signal_at s) (clock s) \<longrightarrow> (\<forall>sm'. r \<noteq> Inr (NextTable, sm'))" by blast
  from e(2) have "\<not> late (signal_at s) e" by (cases e) auto
  with e show ?thesis by (intro exI [of _ "[e]"]) simp
qed

lemma late_means_signalled:
  assumes "emits Q m" "run_state m s = (r, s')" "trace s' = trace s @ es"
    "late_statements (signal_at s) es \<noteq> 0"
  shows "signalled (signal_at s') (clock s')"
proof -
  from emitsD [OF assms(1,2)] assms(3) have ev: "signal_at s' = signal_at s"
    "\<forall>e\<in>set es. sent_between (clock s) (clock s') e" by (auto simp: evolves_def)
  from assms(4) obtain e where "e \<in> set es" "late (signal_at s) e"
    by (auto simp: late_statements_def filter_empty_conv)
  with ev not_late_before show ?thesis by metis
qed

lemma for_tables_late:
  "run_state (for_tables env policy v ph i n ts sm) s = (r, s') \<Longrightarrow>
     \<exists>es. trace s' = trace s @ es \<and> late_statements (signal_at s) es \<le> 1
       \<and> (signalled (signal_at s) (clock s) \<longrightarrow> late_statements (signal_at s) es = 0)"
proof (induction ts arbitrary: i sm s)
  case Nil
  then show ?case by simp
next
  case (Cons t ts)
  obtain x s1 where x: "run_state (maintain_table env policy v ph i n t sm) s = (x, s1)" by fastforce
  from maintain_table_late [OF x] obtain es where
    es: "trace s1 = trace s @ es" "late_statements (signal_at s) es \<le> 1"
      "signalled (signal_at s) (clock s) \<longrightarrow> late_statements (signal_at s) es = 0" by blast
  from emitsD [OF emits_maintain_table x] have sig: "signal_at s1 = signal_at s"
    and time: "clock s \<le> clock s1" by (auto simp: evolves_def)
  show ?case
  proof (cases "\<exists>sm1. x = Inr (NextTable, sm1)")
    case False
    with Cons.prems x have "s' = s1" by (auto split: sum.splits flow.splits)
    with es show ?thesis by blast
  next
    case True
    then obtain sm1 where sm1: "x = Inr (NextTable, sm1)" by blast
    with Cons.prems x have "run_state (for_tables env policy v ph (i + 1) n ts sm1) s1 = (r, s')" by simp
    from Cons.IH [OF this] sig obtain fs where fs: "trace s' = trace s1 @ fs"
      "late_statements (signal_at s) fs \<le> 1"
      "signalled (signal_at s) (clock s1) \<longrightarrow> late_statements (signal_at s) fs = 0" by auto
    have "late_statements (signal_at s) es \<noteq> 0 \<longrightarrow> late_statements (signal_at s) fs = 0"
      using late_means_signalled [OF emits_maintain_table x es(1)] fs(3) sig by auto
    moreover have "signalled (signal_at s) (clock s) \<longrightarrow> signalled (signal_at s) (clock s1)"
      using time signalled_mono by blast
    ultimately show ?thesis
      using es fs by (intro exI [of _ "es @ fs"]) auto
  qed
qed

section \<open>Errors that leave a phase\<close>

text \<open>\<open>errors P m\<close>: whenever \<open>m\<close> fails, the error and the state it leaves satisfy \<open>P\<close>.\<close>

definition errors :: "('e \<Rightarrow> 's \<Rightarrow> bool) \<Rightarrow> ('s, 'e + 'a) state \<Rightarrow> bool" where
  "errors P m = (\<forall>s e s'. run_state m s = (Inl e, s') \<longrightarrow> P e s')"

named_theorems errors_intros \<open>which errors a composite program may return\<close>

lemma errors_ret [errors_intros]: "errors P (ret (Inr x))"
  by (simp add: errors_def)

lemma errors_bind [errors_intros]: "(\<And>x. errors P (f x)) \<Longrightarrow> errors P (State_Monad.bind m f)"
  by (auto simp: errors_def split: prod.splits)

lemma errors_try [errors_intros]:
  "errors P m \<Longrightarrow> (\<And>x. errors P (f x)) \<Longrightarrow> errors P (try_run m f)"
  by (auto simp: errors_def split: prod.splits sum.splits)

lemma errors_map [errors_intros]: "(\<And>e s. P (h e) s) \<Longrightarrow> errors P (map_error h m)"
  by (auto simp: errors_def split: prod.splits sum.splits)

lemma errors_if [errors_intros]: "(b \<Longrightarrow> errors P m) \<Longrightarrow> (\<not> b \<Longrightarrow> errors P n) \<Longrightarrow> errors P (if b then m else n)"
  by simp

lemma errors_option [errors_intros]:
  "(x = None \<Longrightarrow> errors P m) \<Longrightarrow> (\<And>y. x = Some y \<Longrightarrow> errors P (f y)) \<Longrightarrow>
     errors P (case x of None \<Rightarrow> m | Some y \<Rightarrow> f y)"
  by (cases x) simp_all

lemma errors_prod [errors_intros]: "(\<And>a b. x = (a, b) \<Longrightarrow> errors P (f a b)) \<Longrightarrow> errors P (case x of (a, b) \<Rightarrow> f a b)"
  by (cases x) simp

lemma errorsD: "errors P m \<Longrightarrow> run_state m s = (Inl e, s') \<Longrightarrow> P e s'"
  by (simp add: errors_def)

text \<open>Errors of queries are never the bare \<open>ConnectionLost\<close> of a runner.\<close>

definition from_query :: "error \<Rightarrow> 'w st \<Rightarrow> bool" where
  "from_query e s = (\<forall>l. e \<noteq> [CLost l])"

lemma from_query_context [simp]: "from_query (context_pg msg e) s" "from_query (error_from_text msg) s"
  by (simp_all add: from_query_def context_pg_def with_context_def error_from_text_def)

lemma errors_observe: "errors from_query (observe_replica_lag env)"
  unfolding observe_replica_lag_def by (auto intro!: errors_intros)

lemma errors_wait_round: "errors from_query (wait_round env g sch tab started)"
  unfolding wait_round_def lag_decision_def Let_def by (auto intro!: errors_intros errors_observe)

lemma errors_wait: "errors from_query (wait_for_replica_lag env g sch tab policy)"
proof -
  have "fst (wait_loop env g sch tab started s) = Inl e \<Longrightarrow>
      from_query e (snd (wait_loop env g sch tab started s))" for started s e
  proof (induction env g sch tab started s rule: wait_loop.induct)
    case (1 env g sch tab started s)
    obtain r1 s1 where round: "run_state (wait_round env g sch tab started) s = (r1, s1)" by fastforce
    with 1 show ?case
      by (auto simp: wait_loop.simps [of env g sch tab started s] dest: errorsD [OF errors_wait_round]
          split: sum.splits option.splits)
  qed
  then have "errors from_query (State (wait_loop env g sch tab started))" for started
    by (auto simp: errors_def) (metis fst_conv snd_conv)
  then show ?thesis
    unfolding wait_for_replica_lag_def Let_def by (auto intro!: errors_intros errors_observe)
qed

lemma errors_gate: "errors from_query (pass_lag_gate env policy sch tab k)"
  by (induction k) (auto intro!: errors_intros errors_wait)

lemma errors_terminate: "errors from_query (terminate_backends env pids)"
  by (induction pids) (auto intro!: errors_intros)

lemma errors_handle_active: "errors from_query (handle_active_vacuums env sch tab policy sm)"
  unfolding handle_active_vacuums_def find_active_vacuums_def clear_autovacuums_def
    clear_manual_vacuums_def clear_sessions_def Let_def
  by (auto intro!: errors_intros errors_terminate)

text \<open>What a lost connection leaves behind.\<close>

definition lost_at :: "nat \<Rightarrow> nat \<Rightarrow> 'z table_key_scheme \<Rightarrow> error \<Rightarrow> 'w st \<Rightarrow> bool" where
  "lost_at i n t err s =
     (\<forall>lost. err = [CLost lost] \<longrightarrow> lost_position lost = Some (i, n) \<and> lost_schema lost = schema_name t
        \<and> lost_table lost = table_name t \<and> last (trace s) = ELogAlways ErrorLevel (LostConnection lost))"

lemma lost_at_query: "from_query e s \<Longrightarrow> lost_at i n t e s"
  by (simp add: lost_at_def from_query_def)

lemma errors_weaken: "errors P m \<Longrightarrow> (\<And>e s. P e s \<Longrightarrow> Q e s) \<Longrightarrow> errors Q m"
  by (auto simp: errors_def)

lemma errors_record_failure:
  "errors (lost_at i n t) (record_failure env policy ph i n (schema_name t) (table_name t) start e sm)"
  unfolding errors_def
proof (intro allI impI)
  fix s err s'
  assume "run_state (record_failure env policy ph i n (schema_name t) (table_name t) start e sm) s = (Inl err, s')"
  then show "lost_at i n t err s'"
    by (auto simp: run_record_failure Let_def lost_at_def map_prod_def split: op_error_kind.splits if_splits prod.splits)
qed

lemma errors_run_operation:
  "errors (lost_at i n t) (run_operation env policy v ph i n (schema_name t) (table_name t) sm)"
  unfolding errors_def
proof (intro allI impI)
  fix s err s'
  assume "run_state (run_operation env policy v ph i n (schema_name t) (table_name t) sm) s = (Inl err, s')"
  then obtain e s1 where "run_state (record_failure env policy ph i n (schema_name t) (table_name t)
      (clock s) e sm) s1 = (Inl err, s')"
    by (auto simp: run_run_operation record_success_def Let_def split: prod.splits sum.splits)
  then show "lost_at i n t err s'" by (rule errorsD [OF errors_record_failure])
qed

lemma errors_maintain_table: "errors (lost_at i n t) (maintain_table env policy v ph i n t sm)"
proof -
  have "errors (lost_at i n t) (guarded_operation env policy v ph i n t sm)"
    unfolding guarded_operation_def
    by (auto intro!: errors_intros errors_weaken [OF errors_gate lost_at_query]
        errors_weaken [OF errors_handle_active lost_at_query] errors_run_operation)
  then show ?thesis
    by (auto simp: errors_def run_maintain_table lost_at_def Let_def split: if_splits)
qed

lemma for_tables_errors:
  "run_state (for_tables env policy v ph i n ts sm) s = (Inl err, s') \<Longrightarrow>
     \<exists>j<length ts. lost_at (i + j) n (ts ! j) err s'"
proof (induction ts arbitrary: i sm s)
  case Nil
  then show ?case by simp
next
  case (Cons t ts)
  obtain x s1 where x: "run_state (maintain_table env policy v ph i n t sm) s = (x, s1)" by fastforce
  show ?case
  proof (cases x)
    case (Inl e)
    with Cons.prems x errorsD [OF errors_maintain_table] show ?thesis by (intro exI [of _ 0]) auto
  next
    case (Inr p)
    with Cons.prems x obtain sm1 where
      "run_state (for_tables env policy v ph (i + 1) n ts sm1) s1 = (Inl err, s')"
      by (auto split: flow.splits prod.splits)
    from Cons.IH [OF this] obtain j where "j < length ts" "lost_at (i + 1 + j) n (ts ! j) err s'" by blast
    then show ?thesis by (intro exI [of _ "j + 1"]) simp
  qed
qed

section \<open>An answer that says the connection is lost\<close>

text \<open>
  The error is one of a lost session, and the retry does not take it for a lock timeout (no error of the
  driver is both).
\<close>

definition lost_answer :: "pg_error \<Rightarrow> bool" where
  "lost_answer e = (is_connection_lost_pg e \<and> \<not> is_lock_timeout e)"

definition lost_events :: "event list \<Rightarrow> bool" where
  "lost_events es = (\<exists>e\<in>set es. list_ex lost_answer (error_answer e))"

lemma lost_events_simps [simp]:
  "\<not> lost_events []" "lost_events (es @ fs) = (lost_events es \<or> lost_events fs)"
  "lost_events (e # es) = (list_ex lost_answer (error_answer e) \<or> lost_events es)"
  by (auto simp: lost_events_def)

text \<open>Lines of the log, and the logbook's row for an interrupted table.\<close>

fun aftermath :: "event \<Rightarrow> bool" where
  "aftermath (ELogbook e) = (entry_status e = ''cancelled'')"
| "aftermath e = only_log e"

text \<open>
  After a lost answer nothing is sent any more: without a shutdown the result is the lost connection, which
  is logged; with one, the result is final (\<open>over\<close>).
\<close>

definition ends_lost ::
  "('c \<Rightarrow> bool) \<Rightarrow> 'w st \<Rightarrow> error + 'c \<Rightarrow> pg_error \<Rightarrow> event list \<Rightarrow> bool" where
  "ends_lost over s' r err post =
     (if signalled (signal_at s') (clock s')
      then list_all aftermath post \<and> (\<exists>x. r = Inr x \<and> over x)
      else \<exists>lost. r = Inl [CLost lost] \<and> lost_cause lost = describe_pg_error err
        \<and> post = [ELogAlways ErrorLevel (LostConnection lost)])"

definition stops_when_lost :: "('c \<Rightarrow> bool) \<Rightarrow> 'w st \<Rightarrow> error + 'c \<Rightarrow> event list \<Rightarrow> bool" where
  "stops_when_lost over s' r es =
     (\<forall>pre e post err. es = pre @ e # post \<longrightarrow> error_answer e = [err] \<longrightarrow> lost_answer err \<longrightarrow>
        ends_lost over s' r err post)"

lemma failure_cases: "error_answer e = [] \<or> (\<exists>err. error_answer e = [err])"
  by (cases e rule: error_answer.cases) auto

lemma lost_event_split:
  assumes "lost_events es"
  obtains pre e post err where "es = pre @ e # post" "error_answer e = [err]" "lost_answer err"
proof -
  from assms obtain e where e: "e \<in> set es" "list_ex lost_answer (error_answer e)" by (auto simp: lost_events_def)
  then obtain pre post where "es = pre @ e # post" by (meson split_list)
  moreover from e(2) failure_cases [of e] obtain err where "error_answer e = [err]" "lost_answer err" by auto
  ultimately show thesis by (rule that)
qed

lemma not_lost_stops: "\<not> lost_events es \<Longrightarrow> stops_when_lost over s' r es"
  by (auto simp: stops_when_lost_def lost_events_def)

lemma stops_when_lost_quiet:
  assumes "\<not> lost_events es" "stops_when_lost over s' r fs"
  shows "stops_when_lost over s' r (es @ fs)"
  unfolding stops_when_lost_def
proof (intro allI impI)
  fix pre e post err
  assume split: "es @ fs = pre @ e # post" "error_answer e = [err]" "lost_answer err"
  from split(1) consider us where "es = pre @ e # us" | us where "pre = es @ us" "fs = us @ e # post"
    by (auto simp: append_eq_append_conv2 Cons_eq_append_conv append_eq_Cons_conv)
  then show "ends_lost over s' r err post"
  proof cases
    case 1
    with split(2,3) assms(1) show ?thesis by (auto simp: lost_events_def)
  next
    case 2
    with assms(2) split(2,3) show ?thesis by (auto simp: stops_when_lost_def)
  qed
qed

lemma stops_when_lost_weaken:
  assumes "stops_when_lost over s' r es" "\<forall>e. r = Inl e \<longrightarrow> r' = Inl e"
    "\<forall>x. r = Inr x \<and> over x \<longrightarrow> (\<exists>y. r' = Inr y \<and> over' y)"
  shows "stops_when_lost over' s' r' es"
proof -
  have "ends_lost over' s' r' err post" if "ends_lost over s' r err post" for err post
    using that assms(2,3) by (fastforce simp: ends_lost_def split: if_splits)
  with assms(1) show ?thesis unfolding stops_when_lost_def by blast
qed

lemma only_failures:
  assumes "emits (\<lambda>e. error_answer e = []) m" "run_state m s = (r, s')"
  obtains es where "trace s' = trace s @ es" "\<not> lost_events es"
  using emitsD [OF assms] that by (force simp: evolves_def lost_events_def)

text \<open>The retry ends at a lost answer, which is then the last event, and returns it.\<close>

lemma lost_is_last:
  assumes "command.answers_decide v c sch tab (r :: pg_error + operation_result) es" "es = pre @ e # post"
    "error_answer e = [err]" "lost_answer err"
  shows "r = Inl err \<and> post = []"
proof -
  have err: "err \<in> set (error_answers es)" "\<not> is_lock_timeout err"
    using assms(2-4) by (auto simp: lost_answer_def)
  show ?thesis
  proof (cases r)
    case (Inr x)
    with assms(1) err show ?thesis by (auto simp: command.answers_decide_def list_all_iff)
  next
    case (Inl e1)
    with assms(1) obtain earlier where e1: "error_answers es = earlier @ [e1]" "list_all is_lock_timeout earlier"
      "\<not> is_lock_timeout e1 \<longrightarrow> error_answer (last es) = [e1]" by (auto simp: command.answers_decide_def)
    with err have same: "err = e1" "err \<notin> set earlier" by (auto simp: list_all_iff)
    have "post = []"
    proof (rule ccontr)
      assume "post \<noteq> []"
      then have "last es = last post" "post = butlast post @ [last post]" using assms(2) by simp_all
      with e1(3) same err(2) have "error_answers post = error_answers (butlast post) @ [e1]"
        by (metis error_answers_simps append_Nil2)
      moreover from e1(1) assms(2,3) have "error_answers pre @ err # error_answers post = earlier @ [e1]" by simp
      ultimately have "error_answers pre @ err # error_answers (butlast post) = earlier"
        by (metis append_Cons append_assoc append_same_eq)
      with same(2) show False by auto
    qed
    with Inl same show ?thesis by simp
  qed
qed

lemma record_failure_lost:
  assumes "run_state (record_failure env policy ph i n sch tab start err sm) s = (r, s')"
    "is_connection_lost_pg err"
  obtains es where "trace s' = trace s @ es" "ends_lost (\<lambda>(flow, _). flow = StopPhase) s' r err es"
proof (cases "signalled (signal_at s) (clock s)")
  case False
  with assms show thesis
    by (intro that) (auto simp: run_record_failure Let_def classify_op_error_def ends_lost_def)
next
  case True
  let ?m = "handle_shutdown_interrupt env policy sm sch tab (logbook_operation ph) (logbook_mode ph)
      (elapsed_ms start (clock s))"
  obtain sm' where m: "run_state ?m s = (sm', s')" "r = Inr (StopPhase, sm')"
    using True assms
    by (cases "run_state ?m s") (auto simp: run_record_failure Let_def classify_op_error_def)
  have "emits aftermath ?m"
    unfolding handle_shutdown_interrupt_def by (auto intro!: emits_intros)
  from emitsD [OF this m(1)] obtain es where "trace s' = trace s @ es" "\<forall>e\<in>set es. aftermath e"
    "signal_at s' = signal_at s" "clock s \<le> clock s'" by (auto simp: evolves_def)
  with True m(2) signalled_mono show thesis
    by (intro that [of es]) (auto simp: ends_lost_def list_all_iff)
qed

lemma record_no_failure:
  "emits (\<lambda>e. error_answer e = []) (record_success env policy ph sch tab start res sm)"
  "emits (\<lambda>e. error_answer e = []) (record_failure env policy ph i n sch tab start e sm)"
  unfolding record_success_def record_failure_def Let_def by (auto intro!: emits_intros)

lemma run_operation_lost:
  assumes "run_state (run_operation env policy v ph i n sch tab sm) s = (r, s')"
  shows "\<exists>es. trace s' = trace s @ es \<and> stops_when_lost (\<lambda>(flow, _). flow = StopPhase) s' r es"
proof -
  let ?m = "ELog Info (TableStart i n sch tab (op_label ph))"
  let ?s0 = "s\<lparr>trace := trace s @ [?m]\<rparr>"
  let ?over = "\<lambda>(flow, _). flow = StopPhase"
  obtain x s1 where op: "run_state (with_lock_timeout_retry env policy sch tab
      (run_command env v (phase_command ph) sch tab)) ?s0 = (x, s1)" by fastforce
  from command.retry_trace [OF op [unfolded with_lock_timeout_retry_def]] obtain es where
    es: "trace s1 = trace ?s0 @ es" "command.answers_decide v (phase_command ph) sch tab x es" by blast
  note last = lost_is_last [OF es(2)]
  have m: "\<not> lost_events [?m]" by (simp add: lost_events_def)
  have goal: "\<exists>fs. trace s' = trace s1 @ fs \<and> stops_when_lost ?over s' r (es @ fs) \<Longrightarrow> ?thesis"
    using es(1) stops_when_lost_quiet [OF m] by fastforce
  show ?thesis
  proof (cases "lost_events es")
    case True
    then obtain pre e post err where e: "es = pre @ e # post" "error_answer e = [err]" "lost_answer err"
      by (rule lost_event_split)
    with last have x: "x = Inl err" and pre: "es = pre @ [e]" by auto
    with assms op have "run_state (record_failure env policy ph i n sch tab (clock s) err sm) s1 = (r, s')"
      by (simp add: run_run_operation)
    from record_failure_lost [OF this] e(3) obtain fs where
      fs: "trace s' = trace s1 @ fs" "ends_lost ?over s' r err fs" by (auto simp: lost_answer_def)
    from only_failures [OF record_no_failure(2) \<open>run_state (record_failure _ _ _ _ _ _ _ _ _ _) s1 = _\<close>] fs(1)
    have quiet: "\<not> lost_events fs" by fastforce
    have before: "\<not> lost_events pre"
    proof
      assume "lost_events pre"
      then obtain us e' vs err' where "pre = us @ e' # vs" "error_answer e' = [err']" "lost_answer err'"
        by (rule lost_event_split)
      with pre last [of us e' "vs @ [e]"] \<open>error_answer e' = _\<close> \<open>lost_answer err'\<close> show False by auto
    qed
    have "stops_when_lost ?over s' r (e # fs)"
      unfolding stops_when_lost_def
    proof (intro allI impI)
      fix us e' vs err'
      assume *: "e # fs = us @ e' # vs" "error_answer e' = [err']" "lost_answer err'"
      show "ends_lost ?over s' r err' vs"
      proof (cases us)
        case Nil
        with * e(2) fs(2) show ?thesis by auto
      next
        case (Cons a us')
        with * quiet show ?thesis by (auto simp: lost_events_def)
      qed
    qed
    from stops_when_lost_quiet [OF before this] pre fs(1) show ?thesis by (intro goal) auto
  next
    case False
    obtain k where k: "run_state k s1 = (r, s')" "emits (\<lambda>e. error_answer e = []) k"
    proof (cases x)
      case (Inl e)
      with assms op have "run_state (record_failure env policy ph i n sch tab (clock s) e sm) s1 = (r, s')"
        by (simp add: run_run_operation)
      from that [OF this record_no_failure(2)] show thesis .
    next
      case (Inr res)
      with assms op have "run_state (record_success env policy ph sch tab (clock s) res sm) s1 = (r, s')"
        by (simp add: run_run_operation)
      from that [OF this record_no_failure(1)] show thesis .
    qed
    from only_failures [OF k(2,1)] obtain fs where "trace s' = trace s1 @ fs" "\<not> lost_events fs" by blast
    with False not_lost_stops [of "es @ fs"] show ?thesis by (intro goal exI [of _ fs]) simp
  qed
qed

lemma gate_no_failure: "emits (\<lambda>e. error_answer e = []) (pass_lag_gate env policy sch tab k)"
  by (auto intro!: emits_intros)

lemma active_no_failure: "emits (\<lambda>e. error_answer e = []) (handle_active_vacuums env sch tab policy sm)"
  by (auto intro!: emits_intros)

lemma guarded_operation_lost:
  assumes "run_state (guarded_operation env policy v ph i n t sm) s = (r, s')"
  shows "\<exists>es. trace s' = trace s @ es \<and> stops_when_lost (\<lambda>(flow, _). flow = StopPhase) s' r es"
proof -
  let ?s = "schema_name t" and ?t = "table_name t" and ?over = "\<lambda>(flow, _). flow = StopPhase"
  obtain g s1 where gate: "run_state (pass_lag_gate env policy ?s ?t (gate_passes ph)) s = (g, s1)"
    by fastforce
  obtain es where es: "trace s1 = trace s @ es" "\<not> lost_events es" by (rule only_failures [OF gate_no_failure gate])
  obtain a s2 where act: "run_state (handle_active_vacuums env ?s ?t policy sm) s1 = (a, s2)" by fastforce
  obtain fs where fs: "trace s2 = trace s1 @ fs" "\<not> lost_events fs" by (rule only_failures [OF active_no_failure act])
  have pre: "trace s2 = trace s @ (es @ fs)" "\<not> lost_events (es @ fs)" using es fs by (auto simp: lost_events_def)
  consider "s' = s1" | "s' = s2" | "s' = s2\<lparr>trace := trace s2 @ [ELog Info (dry_run_message ph v t)]\<rparr>"
    | sm' where "run_state (run_operation env policy v ph i n ?s ?t sm') s2 = (r, s')"
    using assms gate act by (auto simp: run_guarded split: sum.splits lag_gate_verdict.splits if_splits)
  then show ?thesis
  proof cases
    case 1
    with es not_lost_stops show ?thesis by blast
  next
    case 2
    with pre not_lost_stops show ?thesis by blast
  next
    case 3
    with pre show ?thesis
      by (intro exI [of _ "(es @ fs) @ [ELog Info (dry_run_message ph v t)]"])
        (auto simp: lost_events_def intro!: not_lost_stops)
  next
    case 4
    from run_operation_lost [OF this] obtain gs where
      "trace s' = trace s2 @ gs" "stops_when_lost ?over s' r gs" by blast
    with pre stops_when_lost_quiet [OF pre(2)] show ?thesis by (intro exI [of _ "(es @ fs) @ gs"]) auto
  qed
qed

lemma maintain_table_lost:
  assumes "run_state (maintain_table env policy v ph i n t sm) s = (r, s')"
  shows "\<exists>es. trace s' = trace s @ es \<and> stops_when_lost (\<lambda>(flow, _). flow = StopPhase) s' r es"
proof (cases "client_is_closed env (world s) \<or> signalled (signal_at s) (clock s) \<or> is_handled ph t")
  case False
  with assms have "run_state (guarded_operation env policy v ph i n t sm) s = (r, s')"
    by (simp add: run_maintain_table)
  then show ?thesis by (rule guarded_operation_lost)
next
  case True
  with assms obtain e where e: "trace s' = trace s @ [e]" "error_answer e = []"
    by (auto simp: run_maintain_table Let_def split: if_splits)
  then have "\<not> lost_events [e]" by (simp add: lost_events_def)
  with e(1) not_lost_stops show ?thesis by blast
qed

lemma for_tables_lost:
  "run_state (for_tables env policy v ph i n ts sm) s = (r, s') \<Longrightarrow>
     \<exists>es. trace s' = trace s @ es \<and> stops_when_lost (\<lambda>_. True) s' r es"
proof (induction ts arbitrary: i sm s)
  case Nil
  then show ?case by (simp add: stops_when_lost_def)
next
  case (Cons t ts)
  obtain x s1 where x: "run_state (maintain_table env policy v ph i n t sm) s = (x, s1)" by fastforce
  from maintain_table_lost [OF x] obtain es where es: "trace s1 = trace s @ es"
    "stops_when_lost (\<lambda>(flow, _). flow = StopPhase) s1 x es" by blast
  show ?case
  proof (cases "\<exists>sm1. x = Inr (NextTable, sm1)")
    case False
    with Cons.prems x have r: "s' = s1" "\<forall>e. x = Inl e \<longrightarrow> r = Inl e"
      "\<forall>p. x = Inr p \<and> (case p of (flow, _) \<Rightarrow> flow = StopPhase) \<longrightarrow> (\<exists>y. r = Inr y)"
      by (auto split: sum.splits flow.splits)
    with es(1) stops_when_lost_weaken [OF es(2) r(2), of "\<lambda>_. True"] show ?thesis by blast
  next
    case True
    then obtain sm1 where sm1: "x = Inr (NextTable, sm1)" by blast
    with Cons.prems x have "run_state (for_tables env policy v ph (i + 1) n ts sm1) s1 = (r, s')" by simp
    from Cons.IH [OF this] obtain fs where fs: "trace s' = trace s1 @ fs"
      "stops_when_lost (\<lambda>_. True) s' r fs" by blast
    have "\<not> lost_events es"
    proof
      assume "lost_events es"
      then obtain pre e post err where "es = pre @ e # post" "error_answer e = [err]" "lost_answer err"
        by (rule lost_event_split)
      with es(2) have "ends_lost (\<lambda>(flow, _). flow = StopPhase) s1 x err post"
        by (auto simp: stops_when_lost_def)
      with sm1 show False by (auto simp: ends_lost_def split: if_splits)
    qed
    from stops_when_lost_quiet [OF this fs(2)] es(1) fs(1) show ?thesis
      by (intro exI [of _ "es @ fs"]) simp
  qed
qed

section \<open>Properties of every runner\<close>

lemma only_log_not_logbook: "only_log e \<Longrightarrow> not_logbook e"
  by (cases e) auto

lemma run_phase_cases:
  assumes "run_state (run_phase env policy v ph ts) s = (r, s')"
  obtains (none) "ts = []" "r = Inr (empty_summary 0)"
      "trace s' = trace s @ [ELog (fst (nothing_found ph)) (Text (snd (nothing_found ph)))]"
    | (some) s1 es where "ts \<noteq> []" "trace s1 = trace s @ es" "\<forall>e\<in>set es. only_log e"
        "clock s1 = clock s" "signal_at s1 = signal_at s" "world s1 = world s"
        "run_state (for_tables env policy v ph 1 (length ts) ts (empty_summary (length ts))) s1 = (r, s')"
proof (cases "ts = []")
  case True
  with assms none show thesis by (auto simp: run_phase_def)
next
  case False
  have log: "\<exists>s1 es. run_state (log_all msgs) s0 = ((), s1) \<and> trace s1 = trace s0 @ es \<and> (\<forall>e\<in>set es. only_log e)
      \<and> clock s1 = clock s0 \<and> signal_at s1 = signal_at s0 \<and> world s1 = world s0" for msgs and s0 :: "'a st"
  proof (induction msgs arbitrary: s0 rule: log_all.induct)
    case (2 l m msgs)
    from "2.IH" [of "s0\<lparr>trace := trace s0 @ [ELog l m]\<rparr>"] obtain s1 es where
      "run_state (log_all msgs) (s0\<lparr>trace := trace s0 @ [ELog l m]\<rparr>) = ((), s1)"
      "trace s1 = trace s0 @ [ELog l m] @ es" "\<forall>e\<in>set es. only_log e"
      "clock s1 = clock s0" "signal_at s1 = signal_at s0" "world s1 = world s0" by auto
    then show ?case by (intro exI [of _ s1] exI [of _ "[ELog l m] @ es"]) auto
  qed simp
  let ?f = "found_message ph (length ts)"
  let ?s0 = "s\<lparr>trace := trace s @ [ELog (fst ?f) (Text (snd ?f))]\<rparr>"
  obtain s1 es where s1: "run_state (log_all (concat (map (announce ph) ts))) ?s0 = ((), s1)"
    "trace s1 = trace ?s0 @ es" "\<forall>e\<in>set es. only_log e"
    "clock s1 = clock ?s0" "signal_at s1 = signal_at ?s0" "world s1 = world ?s0"
    using log [of "concat (map (announce ph) ts)" ?s0] by blast
  with assms False show thesis
    by (intro some [of s1 "ELog (fst ?f) (Text (snd ?f)) # es"]) (auto simp: run_phase_def Let_def)
qed

lemma run_phase_summary:
  assumes "run_state (run_phase env policy v ph ts) s = (Inr sm, s')"
  shows "\<exists>es. trace s' = trace s @ es \<and> total sm = length ts
       \<and> succeeded sm = entries ''success'' es \<and> failed sm = entries ''error'' es
       \<and> entries ''cancelled'' es \<le> skipped sm
       \<and> succeeded sm + failed sm + skipped sm \<le> total sm"
  using assms
proof (cases rule: run_phase_cases)
  case none
  then show ?thesis by (auto simp: empty_summary_def)
next
  case (some s1 es)
  from for_tables_accounts [OF some(7)] obtain fs where fs: "trace s' = trace s1 @ fs"
    "accounts (empty_summary (length ts)) sm fs" "finished sm \<le> finished (empty_summary (length ts)) + length ts"
    by blast
  have "entries st es = 0" for st using some(3) by (intro entries_none) (auto intro: only_log_not_logbook)
  with some(2) fs show ?thesis
    by (intro exI [of _ "es @ fs"]) (auto simp: accounts_def finished_def empty_summary_def)
qed

text \<open>
  C6: The summary of a phase and the logbook tell the same story. When a phase returns, its total is the
  number of candidates; the tables counted as succeeded and as failed are exactly the entries written
  with status success and error; an interrupted table is written as cancelled and counted as skipped;
  and no table is counted twice.
\<close>

theorem summary_matches_logbook:
  assumes "run_state (run_phase env policy v ph ts) s = (Inr sm, s')"
  shows "\<exists>es. trace s' = trace s @ es \<and> total sm = length ts
       \<and> succeeded sm = entries ''success'' es \<and> failed sm = entries ''error'' es
       \<and> entries ''cancelled'' es \<le> skipped sm
       \<and> succeeded sm + failed sm + skipped sm \<le> total sm"
  using assms by (rule run_phase_summary)

lemma run_phase_trace:
  assumes "run_state (run_phase env policy v ph ts) s = (r, s')"
  shows "\<exists>es. trace s' = trace s @ es \<and> (\<forall>e\<in>set es. phase_event policy v ph ts e)"
  using emitsD [OF emits_run_phase assms] by (auto simp: evolves_def)

text \<open>The events of a run that only looks at the server.\<close>

fun only_looks :: "event \<Rightarrow> bool" where
  "only_looks (ELog l m) = True"
| "only_looks (ELogAlways l m) = True"
| "only_looks (ELag obs) = True"
| "only_looks (EActive s t r) = True"
| "only_looks _ = False"

lemma only_looks_not_logbook: "only_looks e \<Longrightarrow> not_logbook e"
  by (cases e) auto

text \<open>
  C8: A dry run of any phase only looks: on every server, whatever it answers, no statement is sent, no
  session is terminated, nothing is written to the logbook and no time is spent waiting; and the
  summary counts no table as succeeded or failed.
\<close>

theorem dry_run_only_looks:
  assumes "dry_run policy" "run_state (run_phase env policy v ph ts) s = (r, s')"
  shows "\<exists>es. trace s' = trace s @ es \<and> list_all only_looks es
       \<and> (\<forall>sm. r = Inr sm \<longrightarrow> succeeded sm = 0 \<and> failed sm = 0)"
proof -
  from run_phase_trace [OF assms(2)] obtain es where es: "trace s' = trace s @ es"
    "\<forall>e\<in>set es. phase_event policy v ph ts e" by blast
  have looks: "only_looks e" if "phase_event policy v ph ts e" for e
    using that assms(1) by (cases e) (auto simp: phase_event_def)
  have "succeeded sm = 0 \<and> failed sm = 0" if "r = Inr sm" for sm
    using assms(2) [unfolded that]
  proof (cases rule: run_phase_cases)
    case none
    then show ?thesis by (simp add: empty_summary_def)
  next
    case (some s1 es1)
    from for_tables_accounts [OF some(7)] obtain fs where fs: "trace s' = trace s1 @ fs"
      "accounts (empty_summary (length ts)) sm fs" by blast
    with es some(2) have "set fs \<subseteq> set es" by auto
    with es(2) looks have "\<forall>e\<in>set fs. only_looks e" by blast
    then have "entries st fs = 0" for st by (intro entries_none) (auto intro: only_looks_not_logbook)
    with fs(2) show ?thesis by (auto simp: accounts_def empty_summary_def)
  qed
  with es looks show ?thesis by (intro exI [of _ es]) (auto simp: list_all_iff)
qed

text \<open>
  C7: A phase touches its own open candidates and nothing else. Every statement it sends is the command
  of the phase for one of its candidates, outside the set of handled tables that the phase consults; read
  back by PostgreSQL's rules it names that candidate, so no table of that set is ever the target. The logbook
  is written for such candidates only. (The phases never-vacuumed, never-analyzed and freeze consult no set:
  there every candidate is open.)
\<close>

theorem phase_touches_open_candidates:
  assumes "run_state (run_phase env policy v ph ts) s = (r, s')"
  shows "\<exists>es. trace s' = trace s @ es
       \<and> (\<forall>sql x n. ESql sql x n \<in> set es \<longrightarrow>
            (\<exists>t\<in>set ts. \<not> is_handled ph t \<and> statement_target sql = Some (table_id t)
               \<and> sql = command_sql v (phase_command ph) (schema_name t) (table_name t)))
       \<and> (\<forall>e. ELogbook e \<in> set es \<longrightarrow>
            (\<exists>t\<in>set ts. \<not> is_handled ph t \<and> (entry_schema e, entry_table e) = table_id t))
       \<and> (\<forall>handled sql x n. skip_set ph = Some handled \<and> ESql sql x n \<in> set es \<longrightarrow>
            (\<forall>p\<in>handled. statement_target sql \<noteq> Some p))"
proof -
  from run_phase_trace [OF assms] obtain es where es: "trace s' = trace s @ es"
    "\<forall>e\<in>set es. phase_event policy v ph ts e" by blast
  have sql: "\<exists>t\<in>set ts. \<not> is_handled ph t \<and> statement_target sql = Some (table_id t)
      \<and> sql = command_sql v (phase_command ph) (schema_name t) (table_name t)"
    if "ESql sql x n \<in> set es" for sql x n
    using es(2) [THEN bspec, OF that] by (auto simp: phase_event_def table_id_def)
  moreover have "\<exists>t\<in>set ts. \<not> is_handled ph t \<and> (entry_schema e, entry_table e) = table_id t"
    if "ELogbook e \<in> set es" for e
    using es(2) [THEN bspec, OF that] by (auto simp: phase_event_def table_id_def)
  moreover have "statement_target sql \<noteq> Some p"
    if "skip_set ph = Some handled" "ESql sql x n \<in> set es" "p \<in> handled" for handled sql x n p
    using sql [OF that(2)] that(1,3) by (auto simp: is_handled_def)
  ultimately show ?thesis using es(1) by blast
qed

text \<open>
  C5: A shutdown stops a phase. Of all the statements of a phase at most one is sent after the first
  signal arrived (the one of the table being worked on; a lock timeout is then not retried), and a
  phase that starts after the signal sends none.
\<close>

theorem shutdown_stops_phase:
  assumes "run_state (run_phase env policy v ph ts) s = (r, s')"
  shows "\<exists>es. trace s' = trace s @ es \<and> late_statements (signal_at s) es \<le> 1
       \<and> (signalled (signal_at s) (clock s) \<longrightarrow> statements es = [])"
proof -
  have "\<exists>es. trace s' = trace s @ es \<and> late_statements (signal_at s) es \<le> 1
      \<and> (signalled (signal_at s) (clock s) \<longrightarrow> late_statements (signal_at s) es = 0)"
    using assms
  proof (cases rule: run_phase_cases)
    case none
    then show ?thesis by auto
  next
    case (some s1 es)
    from for_tables_late [OF some(7)] some(4,5) obtain fs where fs: "trace s' = trace s1 @ fs"
      "late_statements (signal_at s) fs \<le> 1"
      "signalled (signal_at s) (clock s) \<longrightarrow> late_statements (signal_at s) fs = 0" by auto
    have "\<not> late sig e" if "only_log e" for sig e using that by (cases e) auto
    with some(3) have "late_statements (signal_at s) es = 0"
      by (auto simp: late_statements_def filter_empty_conv)
    with some(2) fs show ?thesis by (intro exI [of _ "es @ fs"]) auto
  qed
  then obtain es where es: "trace s' = trace s @ es" "late_statements (signal_at s) es \<le> 1"
    "signalled (signal_at s) (clock s) \<longrightarrow> late_statements (signal_at s) es = 0" by blast
  have "statements es = []" if "signalled (signal_at s) (clock s)"
  proof -
    from emitsD [OF emits_run_phase assms] es(1) have "\<forall>e\<in>set es. sent_between (clock s) (clock s') e"
      by (auto simp: evolves_def)
    then have "late (signal_at s) e" if "e \<in> set es" "is_statement e" for e
      using that \<open>signalled (signal_at s) (clock s)\<close> signalled_mono by (cases e) fastforce+
    with es(3) \<open>signalled (signal_at s) (clock s)\<close> show ?thesis
      by (auto simp: statements_def late_statements_def filter_empty_conv)
  qed
  with es show ?thesis by blast
qed

text \<open>
  C18: A lost connection ends the phase and says where. Whenever a statement or a dead-tuple count of the
  phase is answered with the error of a lost session, nothing is sent to the server after it: without a
  shutdown the phase ends at once with the lost connection, carrying the description of that error, and its
  line in the log is the last thing traced; after the shutdown signal the phase returns its summary, and
  only log lines and the logbook's row for the cancelled table follow. Whenever a phase gives up with a lost
  connection, the error names the candidate it was working on and its position among the candidates, and
  the exit code is 3 (130 after a shutdown). A phase that starts on a closed connection always ends so, at
  its first candidate.
\<close>

theorem lost_connection_ends_phase:
  assumes "run_state (run_phase env policy v ph ts) s = (r, s')"
  shows "(\<forall>pre e post err. trace s' = trace s @ pre @ e # post \<longrightarrow> error_answer e = [err] \<longrightarrow> lost_answer err \<longrightarrow>
            (if signalled (signal_at s') (clock s')
             then list_all aftermath post \<and> (\<exists>sm. r = Inr sm)
             else \<exists>lost. r = Inl [CLost lost] \<and> lost_cause lost = describe_pg_error err
               \<and> post = [ELogAlways ErrorLevel (LostConnection lost)]))
       \<and> (\<forall>lost. r = Inl [CLost lost] \<longrightarrow>
            (\<exists>j<length ts. lost_position lost = Some (j + 1, length ts)
               \<and> (lost_schema lost, lost_table lost) = table_id (ts ! j))
            \<and> last (trace s') = ELogAlways ErrorLevel (LostConnection lost)
            \<and> exit_code [CLost lost] False = 3 \<and> exit_code [CLost lost] True = 130)
       \<and> (client_is_closed env (world s) \<and> ts \<noteq> [] \<longrightarrow>
            (\<exists>lost. r = Inl [CLost lost] \<and> lost_position lost = Some (1, length ts)))"
proof -
  have "\<exists>fs. trace s' = trace s @ fs \<and> stops_when_lost (\<lambda>_. True) s' r fs"
    using assms
  proof (cases rule: run_phase_cases)
    case none
    then show ?thesis by (auto simp: lost_events_def intro!: not_lost_stops)
  next
    case (some s1 es)
    have "error_answer e = []" if "only_log e" for e using that by (cases e) auto
    with some(3) have "\<not> lost_events es" by (auto simp: lost_events_def)
    with for_tables_lost [OF some(7)] some(2) stops_when_lost_quiet show ?thesis by (metis append_assoc)
  qed
  then have answered: "\<forall>pre e post err. trace s' = trace s @ pre @ e # post \<longrightarrow> error_answer e = [err] \<longrightarrow> lost_answer err \<longrightarrow>
      ends_lost (\<lambda>_. True) s' r err post"
    by (auto simp: stops_when_lost_def)
  from assms have at: "(\<forall>lost. r = Inl [CLost lost] \<longrightarrow>
        (\<exists>j<length ts. lost_at (1 + j) (length ts) (ts ! j) [CLost lost] s'))
      \<and> (client_is_closed env (world s) \<and> ts \<noteq> [] \<longrightarrow>
        (\<exists>lost. r = Inl [CLost lost] \<and> lost_position lost = Some (1, length ts)))"
  proof (cases rule: run_phase_cases)
    case none
    then show ?thesis by simp
  next
    case (some s1 es)
    have "\<exists>j<length ts. lost_at (1 + j) (length ts) (ts ! j) [CLost lost] s'" if "r = Inl [CLost lost]" for lost
      using for_tables_errors some(7) that by blast
    moreover have "\<exists>lost. r = Inl [CLost lost] \<and> lost_position lost = Some (1, length ts)"
      if "client_is_closed env (world s)"
      using some(1,6,7) that by (cases ts) (auto simp: run_maintain_table Let_def)
    ultimately show ?thesis by blast
  qed
  then have "(\<exists>j<length ts. lost_position lost = Some (j + 1, length ts)
        \<and> (lost_schema lost, lost_table lost) = table_id (ts ! j))
      \<and> last (trace s') = ELogAlways ErrorLevel (LostConnection lost)
      \<and> exit_code [CLost lost] False = 3 \<and> exit_code [CLost lost] True = 130"
    if "r = Inl [CLost lost]" for lost
    using that by (auto simp: lost_at_def exit_code_def exit_code_for_def table_id_def)
  with answered at show ?thesis unfolding ends_lost_def simp_thms by blast
qed

section \<open>On a concrete server\<close>

definition example_tables :: "table_key list" where
  "example_tables = [\<lparr>schema_name = ''public'', table_name = ''a''\<rparr>, \<lparr>schema_name = ''public'', table_name = ''b''\<rparr>]"

definition example_run :: "run_policy \<Rightarrow> (pg_error + unit) list st \<Rightarrow> (error + operation_summary) \<times> (pg_error + unit) list st" where
  "example_run policy = run_state (run_phase scripted_env policy no_vacuum_options
     (also_tables_phase {(''public'', ''b'')}) example_tables)"

lemmas run_defs =
  example_run_def example_tables_def run_phase_def also_tables_phase_def run_maintain_table
  is_handled_def table_id_def run_guarded numeral_2_eq_2 handle_active_vacuums_def
  find_active_vacuums_def run_run_operation with_lock_timeout_retry_def run_retry_loop command_defs
  initial_state_def retry_policy_def signalled_def record_success_def
  report_positive_change_def result_of_counts_def log_maintenance_operation_def Let_def
  estimate_dead_tuples_reduced_def i64_saturating_sub_def i64_clamp_def i64_min_def i64_max_def
  count_message_def empty_summary_def count_succeeded_def count_skipped_def

lemma example_result:
  "fst (example_run (retry_policy 0) (initial_state [])) =
     Inr \<lparr>total = 2, succeeded = 1, failed = 0, skipped = 1\<rparr>"
  by (simp add: run_defs)

lemma example_pair:
  "run_state (run_phase scripted_env policy no_vacuum_options (also_tables_phase {(''public'', ''b'')})
     example_tables) s = (fst (example_run policy s), snd (example_run policy s))"
  by (simp add: example_run_def)

theorem summary_matches_logbook_witness:
  "entries ''success'' (trace (snd (example_run (retry_policy 0) (initial_state [])))) = 1"
  using summary_matches_logbook [OF example_pair [of "retry_policy 0" "initial_state []", unfolded example_result]]
  by (simp add: initial_state_def)

theorem dry_run_only_looks_witness:
  "list_all only_looks (trace (snd (example_run ((retry_policy 0)\<lparr>dry_run := True\<rparr>) (initial_state []))))"
  using dry_run_only_looks [OF _ example_pair [of "(retry_policy 0)\<lparr>dry_run := True\<rparr>" "initial_state []"]]
  by (auto simp: initial_state_def)

theorem phase_touches_open_candidates_witness:
  "list_all (\<lambda>e. case e of ESql sql x n \<Rightarrow> statement_target sql \<noteq> Some (''public'', ''b'') | _ \<Rightarrow> True)
     (trace (snd (example_run (retry_policy 0) (initial_state []))))"
proof -
  have skip: "skip_set (also_tables_phase {(''public'', ''b'')}) = Some {(''public'', ''b'')}"
    by (simp add: also_tables_phase_def)
  have start: "trace (initial_state []) = []"
    by (simp add: initial_state_def)
  have "statement_target sql \<noteq> Some (''public'', ''b'')"
    if "ESql sql x n \<in> set (trace (snd (example_run (retry_policy 0) (initial_state []))))" for sql x n
    using phase_touches_open_candidates [OF example_pair [of "retry_policy 0" "initial_state []"]] that
    unfolding skip start append_Nil by blast
  then show ?thesis
    unfolding list_all_iff by (auto split: event.split)
qed

theorem shutdown_stops_phase_witness:
  "statements (trace (snd (example_run (retry_policy 0) ((initial_state [])\<lparr>signal_at := Some 0\<rparr>)))) = []"
  using shutdown_stops_phase [OF example_pair [of "retry_policy 0" "(initial_state [])\<lparr>signal_at := Some 0\<rparr>"]]
  by (auto simp: initial_state_def signalled_def)

text \<open>The server is shut down (57P01) while it vacuums the first table.\<close>

definition crashing :: "(pg_error + unit) list st" where
  "crashing = initial_state [Inl (server_error ''57P01'')]"

lemma crash_codes [simp]:
  "sqlstate (server_error c) = Some c" "closed (server_error c) = False"
  by (simp_all add: server_error_def sqlstate_def)

lemma crash_lost: "lost_answer (server_error ''57P01'')"
  by (simp add: lost_answer_def is_connection_lost_pg_def is_lock_timeout_def sqlstate_is_connection_loss_def
      LOCK_NOT_AVAILABLE_def)

lemma crash_facts:
  "lost_events (trace (snd (example_run (retry_policy 0) crashing)))"
  "signal_at (snd (example_run (retry_policy 0) crashing)) = None" "trace crashing = []"
  using crash_lost
  by (simp_all add: crashing_def run_defs run_record_failure classify_op_error_def lost_answer_def)

theorem lost_connection_ends_phase_witness:
  "\<exists>lost pre. fst (example_run (retry_policy 0) crashing) = Inl [CLost lost]
     \<and> trace (snd (example_run (retry_policy 0) crashing)) = pre @ [ELogAlways ErrorLevel (LostConnection lost)]"
proof -
  let ?x = "example_run (retry_policy 0) crashing"
  from crash_facts(1) obtain pre e post err where
    split: "trace (snd ?x) = pre @ e # post" "error_answer e = [err]" "lost_answer err"
    by (rule lost_event_split)
  have "\<not> signalled (signal_at (snd ?x)) (clock (snd ?x))" by (simp add: crash_facts(2) signalled_def)
  with lost_connection_ends_phase [OF example_pair, of "retry_policy 0" crashing, THEN conjunct1] split
    crash_facts(3)
  obtain lost where "fst ?x = Inl [CLost lost]" "post = [ELogAlways ErrorLevel (LostConnection lost)]"
    by (metis (no_types, lifting) append_Nil)
  with split(1) show ?thesis by (intro exI [of _ lost] exI [of _ "pre @ [e]"]) simp
qed

end
