(* ===== verification/Run.thy ===== *)
theory Run
  imports Session_Setup Runner_Facts
begin

text \<open>
  The phases of a run and its end (\<open>run\<close> and \<open>main\<close> of \<open>src/main.rs\<close>). The seven modes and the explicit
  table list have the same frame (\<open>run_mode\<close>): a phase that is not selected, or after a shutdown, is
  skipped with a message; otherwise its candidates are searched for, maintained, and noted in the sets
  that later phases consult.
\<close>

section \<open>What phases share\<close>

text \<open>\<open>already_handled\<close>, \<open>already_vacuumed\<close>, \<open>already_analyzed\<close>.\<close>

record progress =
  handled :: "(string \<times> string) set"
  vacuumed :: "(string \<times> string) set"
  analyzed :: "(string \<times> string) set"

definition no_progress :: progress where
  "no_progress = \<lparr>handled = {}, vacuumed = {}, analyzed = {}\<rparr>"

definition ids :: "'z table_key_scheme list \<Rightarrow> (string \<times> string) set" where
  "ids ts = set (map table_id ts)"

definition mark_vacuumed :: "'z table_key_scheme list \<Rightarrow> progress \<Rightarrow> progress" where
  "mark_vacuumed ts p = p\<lparr>handled := handled p \<union> ids ts, vacuumed := vacuumed p \<union> ids ts\<rparr>"

definition mark_analyzed :: "'z table_key_scheme list \<Rightarrow> progress \<Rightarrow> progress" where
  "mark_analyzed ts p = p\<lparr>handled := handled p \<union> ids ts, analyzed := analyzed p \<union> ids ts\<rparr>"

definition mark_handled :: "'z table_key_scheme list \<Rightarrow> progress \<Rightarrow> progress" where
  "mark_handled ts p = p\<lparr>handled := handled p \<union> ids ts\<rparr>"

definition skip_reason :: "bool \<Rightarrow> string" where
  "skip_reason enabled = (if enabled then ''shutdown requested'' else ''not in --mode'')"

text \<open>What the phases read of the settings.\<close>

record run_context =
  ctx_args :: args
  ctx_plan :: run_plan
  ctx_session :: session

definition run_policy_of :: "args \<Rightarrow> run_policy" where
  "run_policy_of a =
     \<lparr>dry_run = arg_dry_run a, force = arg_force a, skip_active_vacuum = arg_skip_active_vacuum a,
      check_xmin_horizon = (\<not> arg_skip_xmin_horizon_check a), lock_timeout_ms = arg_lock_timeout_ms a,
      lock_timeout_retries = arg_lock_timeout_retries a,
      lock_timeout_retry_delay_ms = arg_lock_timeout_retry_delay_ms a\<rparr>"

definition vacuum_options_of :: "args \<Rightarrow> vacuum_options" where
  "vacuum_options_of a =
     \<lparr>vo_truncate = arg_vacuum_truncate a, disable_page_skipping = arg_vacuum_disable_page_skipping a,
      skip_locked = arg_vacuum_skip_locked a, index_cleanup = arg_vacuum_index_cleanup a,
      parallel = arg_vacuum_parallel a\<rparr>"

abbreviation c_policy :: "run_context \<Rightarrow> run_policy" where "c_policy c \<equiv> run_policy_of (ctx_args c)"
abbreviation c_options :: "run_context \<Rightarrow> vacuum_options" where "c_options c \<equiv> vacuum_options_of (ctx_args c)"
abbreviation c_schemas :: "run_context \<Rightarrow> string list" where "c_schemas c \<equiv> ses_schemas (ctx_session c)"
abbreviation c_table :: "run_context \<Rightarrow> string option" where "c_table c \<equiv> arg_table (ctx_args c)"
abbreviation c_min :: "run_context \<Rightarrow> int" where "c_min c \<equiv> plan_min_bytes (ctx_plan c)"
abbreviation c_max :: "run_context \<Rightarrow> int" where "c_max c \<equiv> plan_max_bytes (ctx_plan c)"
abbreviation c_order :: "run_context \<Rightarrow> order_by option" where "c_order c \<equiv> arg_order_by (ctx_args c)"

definition c_limit :: "run_context \<Rightarrow> int" where
  "c_limit c = unwrap_or (arg_limit (ctx_args c)) i64_max"

definition enabled :: "mode \<Rightarrow> run_context \<Rightarrow> bool" where
  "enabled m c = (m \<in> plan_modes (ctx_plan c))"

definition maintain_found ::
  "('w, error + 'z table_key_scheme list) run \<Rightarrow> string \<Rightarrow>
     ('z table_key_scheme list \<Rightarrow> ('w, error + operation_summary) run) \<Rightarrow>
     ('z table_key_scheme list \<Rightarrow> progress \<Rightarrow> progress) \<Rightarrow> progress \<Rightarrow>
     ('w, error + operation_summary \<times> progress) run" where
  "maintain_found discover failure maintain mark p =
     try_run discover (\<lambda>candidates.
     try_run (map_error (with_context failure) (maintain candidates)) (\<lambda>summary.
     ret (Inr (summary, mark candidates p))))"

definition run_mode ::
  "bool \<Rightarrow> string \<Rightarrow> ('w, error + 'z table_key_scheme list) run \<Rightarrow> string \<Rightarrow>
     ('z table_key_scheme list \<Rightarrow> ('w, error + operation_summary) run) \<Rightarrow>
     ('z table_key_scheme list \<Rightarrow> progress \<Rightarrow> progress) \<Rightarrow> progress \<Rightarrow>
     ('w, error + operation_summary \<times> progress) run" where
  "run_mode selected title discover failure maintain mark p = do {
     stop \<leftarrow> shutdown_requested;
     if selected \<and> \<not> stop then maintain_found discover failure maintain mark p
     else do {
       log Info (Text (''Skipping '' @ title @ '' ('' @ skip_reason selected @ '')''));
       ret (Inr (empty_summary 0, p))
     }
   }"

text \<open>The messages before a search, then the search, with the context that \<open>run\<close> adds to its error.\<close>

definition search :: "string list \<Rightarrow> string \<Rightarrow> ('w, error + 'a) run \<Rightarrow> ('w, error + 'a) run" where
  "search msgs failure discover = do {
     log_all (map (\<lambda>m. (Info, Text m)) msgs);
     map_error (with_context failure) discover
   }"

section \<open>The phases\<close>

definition never_vacuumed_mode :: "'w env \<Rightarrow> run_context \<Rightarrow> progress \<Rightarrow> ('w, error + operation_summary \<times> progress) run" where
  "never_vacuumed_mode env c =
     run_mode (enabled NeverVacuumed c) ''VACUUM (never vacuumed)''
       (search [banner ''VACUUM (never vacuumed)'', ''Searching for tables that have never been vacuumed...'']
          ''Failed to query never-vacuumed tables''
          (find_never_vacuumed env (c_schemas c) (c_table c) (c_min c) (c_max c) (c_limit c) (c_order c)))
       ''VACUUM phase failed''
       (\<lambda>ts. run_vacuum_never_vacuumed env ts (c_policy c) (c_options c))
       mark_vacuumed"

definition never_analyzed_mode :: "'w env \<Rightarrow> run_context \<Rightarrow> progress \<Rightarrow> ('w, error + operation_summary \<times> progress) run" where
  "never_analyzed_mode env c =
     run_mode (enabled NeverAnalyzed c) ''ANALYZE (never analyzed)''
       (search [banner ''ANALYZE (never analyzed)'', ''Searching for tables that have never been analyzed...'']
          ''Failed to query never-analyzed tables''
          (find_never_analyzed env (c_schemas c) (c_table c) (c_min c) (c_max c) (c_limit c) (c_order c)))
       ''ANALYZE phase failed''
       (\<lambda>ts. run_analyze_never_analyzed env ts (c_policy c))
       mark_analyzed"

definition freeze_mode :: "'w env \<Rightarrow> run_context \<Rightarrow> progress \<Rightarrow> ('w, error + operation_summary \<times> progress) run" where
  "freeze_mode env c =
     run_mode (enabled PreventWraparound c) ''VACUUM FREEZE (wraparound candidates)''
       (search [banner ''VACUUM FREEZE (wraparound candidates)''] ''Failed to query wraparound candidates''
          (find_wraparound_candidates env (c_schemas c) (ses_min_age (ctx_session c)) (c_table c) (c_min c)
             (c_max c) (c_limit c) (c_order c)))
       ''VACUUM FREEZE phase failed''
       (\<lambda>ts. run_freeze_wraparound env ts (c_policy c) (c_options c))
       mark_vacuumed"

definition bloat_search_message :: "f64 \<Rightarrow> string" where
  "bloat_search_message pct = ''Searching for bloat candidates (>'' @ show_fixed 1 pct @ ''% dead tuples)...''"

definition bloat_mode :: "'w env \<Rightarrow> run_context \<Rightarrow> progress \<Rightarrow> ('w, error + operation_summary \<times> progress) run" where
  "bloat_mode env c p =
     run_mode (enabled PreventBloat c) ''VACUUM (bloat)''
       (do {
          log Info (Text (banner ''VACUUM (bloat)''));
          log Info (Text (bloat_search_message (arg_bloat_threshold_pct (ctx_args c))));
          map_error (with_context ''Failed to query bloat candidates'')
            (find_bloat_candidates env (c_schemas c) (c_table c) (arg_bloat_threshold_pct (ctx_args c))
               DEFAULT_BLOAT_MIN_DEAD_TUP (c_min c) (c_max c) (c_limit c) (c_order c))
        })
       ''VACUUM BLOAT phase failed''
       (\<lambda>ts. run_bloat_vacuum env ts (c_policy c) (handled p) (c_options c))
       mark_vacuumed p"

text \<open>
  The needs-vacuum phase: the thresholds of the server unless given, the classic query, and a second
  query with the server's own rules whose failure is no failure of the phase.
\<close>

definition server_vacuum_settings :: "'w env \<Rightarrow> ('w, int \<times> f64) run" where
  "server_vacuum_settings env = do {
     r \<leftarrow> get_vacuum_settings env;
     case r of
       Inr v \<Rightarrow> ret v
     | Inl e \<Rightarrow> do {
         log Warning (Text (''Could not read autovacuum_vacuum settings from server, falling back to defaults ('' @
           dec_int DEFAULT_VACUUM_THRESHOLD @ '', '' @ show_f64 DEFAULT_VACUUM_SCALE_FACTOR @ ''): '' @
           error_chain_text e));
         ret (DEFAULT_VACUUM_THRESHOLD, DEFAULT_VACUUM_SCALE_FACTOR)
       }
   }"

definition server_version_or_zero :: "'w env \<Rightarrow> ('w, int) run" where
  "server_version_or_zero env = do {
     r \<leftarrow> get_server_version_num env;
     case r of
       Inr v \<Rightarrow> ret v
     | Inl e \<Rightarrow> do {
         log Warning (Text (''Could not read server version, assuming PostgreSQL < 18: '' @ error_text e));
         ret 0
       }
   }"

definition max_threshold_or_default :: "'w env \<Rightarrow> int \<Rightarrow> ('w, rat) run" where
  "max_threshold_or_default env server_version_num = do {
     r \<leftarrow> get_vacuum_max_threshold env server_version_num;
     case r of
       Inr v \<Rightarrow> ret v
     | Inl e \<Rightarrow> do {
         let fallback = derive_max_threshold (Some DEFAULT_VACUUM_MAX_THRESHOLD_PRE18);
         log Warning (Text (error_chain_text e @ ''; falling back to a max threshold of '' @ show_fixed 0 (Fin fallback)));
         ret fallback
       }
   }"

definition max_threshold_candidates ::
  "'w env \<Rightarrow> run_context \<Rightarrow> rat \<Rightarrow> int \<Rightarrow> ('w, needs_vacuum_table_info list) run" where
  "max_threshold_candidates env c cap server_version_num = do {
     r \<leftarrow> find_needs_vacuum_max_threshold_candidates env (c_schemas c) (c_table c) cap server_version_num
           (c_min c) (c_max c);
     case r of
       Inr ts \<Rightarrow> ret ts
     | Inl e \<Rightarrow> do {
         log Warning (Text (''Max-threshold discovery failed, using classic candidates only: '' @ error_chain_text e));
         ret []
       }
   }"

definition announce_added :: "needs_vacuum_table_info list \<Rightarrow> ('w, unit) run" where
  "announce_added ts =
     log_all (map (\<lambda>t. (Info, Text (''  + '' @ quoted (schema_name t) (table_name t) @ '' (dead_tup='' @
       dec_int (n_dead_tup t) @ '') added by max-threshold pass''))) (filter via_max_threshold ts))"

definition thresholds_message :: "int \<Rightarrow> int \<Rightarrow> f64 \<Rightarrow> f64 \<Rightarrow> string" where
  "thresholds_message threshold server_threshold factor server_factor =
     ''Needs-vacuum thresholds: vacuum_threshold='' @ dec_int threshold @ '' (server: '' @ dec_int server_threshold @
     ''), vacuum_scale_factor='' @ show_f64 factor @ '' (server: '' @ show_f64 server_factor @ '')''"

definition times_sign :: string where "times_sign = [CHR 0xC3, CHR 0x97]"

definition threshold_search_message :: "int \<Rightarrow> f64 \<Rightarrow> string" where
  "threshold_search_message threshold factor =
     ''Searching for needs-vacuum candidates (dead tuples > '' @ dec_int threshold @ '' + '' @
     show_fixed 2 (f64_times factor 100) @ ''% '' @ times_sign @ '' live rows)...''"

definition needs_vacuum_thresholds :: "'w env \<Rightarrow> run_context \<Rightarrow> ('w, int \<times> f64) run" where
  "needs_vacuum_thresholds env c = do {
     (server_threshold, server_factor) \<leftarrow> server_vacuum_settings env;
     let threshold = unwrap_or (arg_vacuum_threshold (ctx_args c)) server_threshold;
     let factor = unwrap_or (arg_vacuum_scale_factor (ctx_args c)) server_factor;
     log Info (Text (thresholds_message threshold server_threshold factor server_factor));
     log Info (Text (threshold_search_message threshold factor));
     ret (threshold, factor)
   }"

definition max_threshold_message :: "rat \<Rightarrow> int \<Rightarrow> string" where
  "max_threshold_message max_threshold server_version_num =
     ''Needs-vacuum max threshold: '' @ show_fixed 0 (Fin max_threshold) @ '' dead tuples (server version '' @
     dec_int server_version_num @
     (if server_version_num < PG18_VERSION_NUM
      then '', autovacuum_vacuum_max_threshold unavailable '' @ em_dash @ '' assumed PG 18 default''
      else '', autovacuum_vacuum_max_threshold reduced by 20%'') @ '')''"

definition merged_message :: "nat \<Rightarrow> nat \<Rightarrow> nat \<Rightarrow> nat \<Rightarrow> string" where
  "merged_message classic by_max_threshold merged added =
     ''Needs-vacuum candidates: classic='' @ dec classic @ '', max-threshold pass='' @ dec by_max_threshold @
     '', merged (unique)='' @ dec merged @ '' ('' @ dec added @ '' added by the max-threshold pass)''"

definition needs_vacuum_search ::
  "'w env \<Rightarrow> run_context \<Rightarrow> int \<Rightarrow> f64 \<Rightarrow> ('w, error + needs_vacuum_table_info list) run" where
  "needs_vacuum_search env c threshold factor =
     try_run (map_error (with_context ''Failed to query needs-vacuum candidates'')
       (find_needs_vacuum_candidates env (c_schemas c) (c_table c) threshold factor (c_min c) (c_max c)
          (c_limit c) (c_order c))) (\<lambda>classic. do {
       server_version_num \<leftarrow> server_version_or_zero env;
       max_threshold \<leftarrow> max_threshold_or_default env server_version_num;
       (if 0 \<le> max_threshold
        then log Info (Text (max_threshold_message max_threshold server_version_num))
        else log Info (Text ''Needs-vacuum max threshold: disabled (autovacuum_vacuum_max_threshold = -1)''));
       by_max_threshold \<leftarrow> max_threshold_candidates env c max_threshold server_version_num;
       let candidates = merge_needs_vacuum_candidates classic by_max_threshold (c_order c) (c_limit c);
       log Info (Text (merged_message (length classic) (length by_max_threshold) (length candidates)
         (length (filter via_max_threshold candidates))));
       announce_added candidates;
       ret (Inr candidates)
     })"

definition needs_vacuum_mode :: "'w env \<Rightarrow> run_context \<Rightarrow> progress \<Rightarrow> ('w, error + operation_summary \<times> progress) run" where
  "needs_vacuum_mode env c p = do {
     stop \<leftarrow> shutdown_requested;
     if enabled NeedsVacuum c \<and> \<not> stop then do {
       log Info (Text (banner ''VACUUM (needs vacuum)''));
       (threshold, factor) \<leftarrow> needs_vacuum_thresholds env c;
       maintain_found (needs_vacuum_search env c threshold factor) ''VACUUM NEEDS VACUUM phase failed''
         (\<lambda>ts. run_needs_vacuum env ts threshold factor (c_policy c) (vacuumed p) (c_options c))
         mark_vacuumed p
     } else do {
       log Info (Text (''Skipping VACUUM (needs vacuum) ('' @ skip_reason (enabled NeedsVacuum c) @ '')''));
       ret (Inr (empty_summary 0, p))
     }
   }"

text \<open>
  \<open>as i32\<close> on the number of days, which validation keeps in range; \<open>unwrap\<close> cannot fail for the same
  reason, so 0 is never used.
\<close>

definition days_of :: "int option \<Rightarrow> int" where
  "days_of d = unwrap_or d 0"

definition vacuum_overdue_mode :: "'w env \<Rightarrow> run_context \<Rightarrow> progress \<Rightarrow> ('w, error + operation_summary \<times> progress) run" where
  "vacuum_overdue_mode env c p =
     (let days = days_of (arg_vacuum_older_than_days (ctx_args c)) in
      run_mode (enabled VacuumOverdue c) ''VACUUM (overdue)''
        (search [banner (''VACUUM (not vacuumed in '' @ dec_int days @ '' days)''),
                 ''Searching for tables not vacuumed in '' @ dec_int days @ '' days...'']
           ''Failed to query vacuum-overdue candidates''
           (find_vacuum_overdue_candidates env (c_schemas c) (c_table c) days (c_min c) (c_max c) (c_limit c)))
        ''VACUUM OVERDUE phase failed''
        (\<lambda>ts. run_vacuum_overdue env ts (c_policy c) (vacuumed p) (c_options c))
        mark_handled p)"

definition analyze_overdue_mode :: "'w env \<Rightarrow> run_context \<Rightarrow> progress \<Rightarrow> ('w, error + operation_summary \<times> progress) run" where
  "analyze_overdue_mode env c p =
     (let days = days_of (arg_analyze_older_than_days (ctx_args c)) in
      run_mode (enabled AnalyzeOverdue c) ''ANALYZE (overdue)''
        (search [banner (''ANALYZE (not analyzed in '' @ dec_int days @ '' days)''),
                 ''Searching for tables not analyzed in '' @ dec_int days @ '' days...'']
           ''Failed to query analyze-overdue candidates''
           (find_analyze_overdue_candidates env (c_schemas c) (c_table c) days (c_min c) (c_max c) (c_limit c)))
        ''ANALYZE OVERDUE phase failed''
        (\<lambda>ts. run_analyze_overdue env ts (c_policy c) (analyzed p))
        mark_handled p)"

definition also_tables_mode :: "'w env \<Rightarrow> run_context \<Rightarrow> progress \<Rightarrow> ('w, error + operation_summary \<times> progress) run" where
  "also_tables_mode env c p = do {
     stop \<leftarrow> shutdown_requested;
     if ses_also (ctx_session c) \<noteq> [] \<and> \<not> stop then do {
       log Info (Text (banner ''VACUUM (ANALYZE) (--also-tables)''));
       maintain_found (ret (Inr (ses_also (ctx_session c)))) ''VACUUM ANALYZE (--also-tables) phase failed''
         (\<lambda>ts. run_also_tables env ts (c_policy c) (handled p) (c_options c))
         (\<lambda>ts p. p) p
     } else ret (Inr (empty_summary 0, p))
   }"

section \<open>The run\<close>

text \<open>The phases in order; the result is their summaries.\<close>

definition modes_in_order ::
  "('w env \<Rightarrow> run_context \<Rightarrow> progress \<Rightarrow> ('w, error + operation_summary \<times> progress) run) list" where
  "modes_in_order =
     [never_vacuumed_mode, never_analyzed_mode, freeze_mode, bloat_mode, needs_vacuum_mode,
      vacuum_overdue_mode, analyze_overdue_mode, also_tables_mode]"

fun run_modes ::
  "('w env \<Rightarrow> run_context \<Rightarrow> progress \<Rightarrow> ('w, error + operation_summary \<times> progress) run) list \<Rightarrow>
     'w env \<Rightarrow> run_context \<Rightarrow> progress \<Rightarrow> ('w, error + operation_summary list) run" where
  "run_modes [] env c p = ret (Inr [])"
| "run_modes (m # rest) env c p =
     try_run (m env c p) (\<lambda>(summary, p').
     try_run (run_modes rest env c p') (\<lambda>summaries.
     ret (Inr (summary # summaries))))"

definition summary_line :: "string \<Rightarrow> operation_summary \<Rightarrow> log_level \<times> log_msg" where
  "summary_line label sm =
     (Info, Text (''  '' @ label @ '' '' @ em_dash @ '' total: '' @ dec (total sm) @ '', ok: '' @ dec (succeeded sm) @
        '', failed: '' @ dec (failed sm) @ '', skipped: '' @ dec (skipped sm)))"

definition summary_labels :: "run_context \<Rightarrow> (bool \<times> string) list" where
  "summary_labels c =
     [(enabled NeverVacuumed c, ''VACUUM       ''), (enabled NeverAnalyzed c, ''ANALYZE      ''),
      (enabled PreventWraparound c, ''VACUUM FREEZE''), (enabled PreventBloat c, ''VACUUM (bloat)''),
      (enabled NeedsVacuum c, ''VACUUM (needs-vacuum)''), (enabled VacuumOverdue c, ''VACUUM (overdue) ''),
      (enabled AnalyzeOverdue c, ''ANALYZE (overdue)''),
      (ses_also (ctx_session c) \<noteq> [], ''VACUUM ANALYZE (also-tables)'')]"

fun log_always_all :: "(log_level \<times> log_msg) list \<Rightarrow> ('w, unit) run" where
  "log_always_all [] = ret ()"
| "log_always_all ((level, msg) # msgs) = do { log_always level msg; log_always_all msgs }"

definition completed_message :: "nat \<Rightarrow> nat \<Rightarrow> nat \<Rightarrow> nat \<Rightarrow> string" where
  "completed_message elapsed n_total n_succeeded n_failed =
     ''pg-maintainer completed in '' @ show_duration elapsed @ '' '' @ em_dash @ '' tables processed: '' @ dec n_total @
     '' | succeeded: '' @ dec n_succeeded @ '' | failed: '' @ dec n_failed"

definition lag_total_message :: "lag_gate \<Rightarrow> string" where
  "lag_total_message g =
     ''  Replication lag '' @ em_dash @ '' waited '' @ show_fixed 0 (as_secs_f64 (total_waited g)) @
     ''s total, '' @ dec (tables_skipped g) @ '' table(s) skipped''"

definition report_totals :: "run_context \<Rightarrow> nat \<Rightarrow> operation_summary list \<Rightarrow> ('w, unit) run" where
  "report_totals c start summaries = do {
     t \<leftarrow> now;
     log_always Success (Text (completed_message (t - start) (sum_list (map total summaries))
       (sum_list (map succeeded summaries)) (sum_list (map failed summaries))));
     log_always_all (map (\<lambda>((_, label), sm). summary_line label sm)
       (filter (fst \<circ> fst) (zip (summary_labels c) summaries)));
     gate \<leftarrow> get_gate;
     case gate of
       Some g \<Rightarrow> if gate_disabled g then ret ()
         else log_always Info (Text (lag_total_message g))
     | None \<Rightarrow> ret ()
   }"

definition finish_run :: "nat \<Rightarrow> ('w, error + nat) run" where
  "finish_run total_fail = do {
     stop \<leftarrow> shutdown_requested;
     if stop then do {
       log_always Warning (Text (''pg-maintainer was terminated by signal '' @ em_dash @ '' exiting with code 130''));
       ret (Inr 130)
     } else if 0 < total_fail then
       ret (Inl (error_from_text (''pg-maintainer completed with '' @ dec total_fail @ '' error(s)'')))
     else ret (Inr 0)
   }"

definition warn_unused_days :: "mode \<Rightarrow> string \<Rightarrow> string \<Rightarrow> run_plan \<Rightarrow> int option \<Rightarrow> ('w, unit) run" where
  "warn_unused_days m flag mode_name plan days =
     (if m \<notin> plan_modes plan \<and> days \<noteq> None
      then log Warning (Text (''Warning: '' @ flag @ '' is ignored unless --mode includes '' @ mode_name))
      else ret ())"

definition run_phases :: "'w env \<Rightarrow> run_context \<Rightarrow> ('w, error + nat) run" where
  "run_phases env c = do {
     start \<leftarrow> now;
     try_run (run_modes modes_in_order env c no_progress) (\<lambda>summaries. do {
       report_totals c start summaries;
       finish_run (sum_list (map failed summaries))
     })
   }"

definition connected_run ::
  "'w env \<Rightarrow> connection_config \<Rightarrow> args \<Rightarrow> dsn_outcome \<Rightarrow> run_plan \<Rightarrow> ('w, error + nat) run" where
  "connected_run env cfg a outcome plan = do {
     warn_unused_days VacuumOverdue ''--vacuum-older-than-days'' ''vacuum-overdue'' plan (arg_vacuum_older_than_days a);
     warn_unused_days AnalyzeOverdue ''--analyze-older-than-days'' ''analyze-overdue'' plan (arg_analyze_older_than_days a);
     try_run (set_up_session env cfg a outcome plan) (\<lambda>session.
       run_phases env \<lparr>ctx_args = a, ctx_plan = plan, ctx_session = session\<rparr>)
   }"

definition run_main :: "process \<Rightarrow> 'w env \<Rightarrow> args \<Rightarrow> ('w, stop + nat) run" where
  "run_main p env args =
     (case effective_args p args of
        Inl stop \<Rightarrow> ret (Inl stop)
      | Inr (a, outcome) \<Rightarrow>
          (case validate a of
             Inl msg \<Rightarrow> ret (Inl (Refused (error_from_text msg)))
           | Inr plan \<Rightarrow> map_error Refused (connected_run env (connection_of p a) a outcome plan)))"

text \<open>
  The signal handlers are installed once the settings are accepted, before the connection: only from then on
  can the shutdown flag be set.
\<close>

definition handlers_installed :: "process \<Rightarrow> args \<Rightarrow> bool" where
  "handlers_installed p args =
     (case effective_args p args of
        Inl stop \<Rightarrow> False
      | Inr (a, outcome) \<Rightarrow> (case validate a of Inl msg \<Rightarrow> False | Inr plan \<Rightarrow> True))"

text \<open>The exit code of the process; 101 is that of a panic.\<close>

definition main :: "process \<Rightarrow> 'w env \<Rightarrow> args \<Rightarrow> ('w, nat) run" where
  "main p env args = do {
     r \<leftarrow> run_main p env args;
     signalled_now \<leftarrow> shutdown_requested;
     let requested = handlers_installed p args \<and> signalled_now;
     ret (case r of
            Inr code \<Rightarrow> code
          | Inl (Refused e) \<Rightarrow> exit_code e requested
          | Inl Crashed \<Rightarrow> 101)
   }"

end
