(* ===== verification/Run_Facts.thy ===== *)
theory Run_Facts
  imports Run
begin

text \<open>
  What holds of a whole run: nothing is maintained before the lock is held, and then only tables in the
  schemas it protects; and a dry run changes no table.
\<close>

section \<open>Results of queries\<close>

text \<open>\<open>yields P m\<close>: a result of \<open>m\<close> that is not an error satisfies \<open>P\<close>.\<close>

named_theorems yields_intros

definition yields :: "('a \<Rightarrow> bool) \<Rightarrow> ('w, error + 'a) run \<Rightarrow> bool" where
  "yields P m = (\<forall>s x s'. run_state m s = (Inr x, s') \<longrightarrow> P x)"

lemma yieldsD: "yields P m \<Longrightarrow> run_state m s = (Inr x, s') \<Longrightarrow> P x"
  unfolding yields_def by blast

lemma yields_ret [yields_intros]: "(\<And>y. x = Inr y \<Longrightarrow> P y) \<Longrightarrow> yields P (ret x)"
  by (simp add: yields_def)

lemma yields_bind [yields_intros]: "(\<And>x. yields P (f x)) \<Longrightarrow> yields P (State_Monad.bind m f)"
  by (auto simp: yields_def split: prod.splits)

lemma yields_try [yields_intros]: "yields P m \<Longrightarrow> (\<And>x. P x \<Longrightarrow> yields Q (f x)) \<Longrightarrow> yields Q (try_run m f)"
  unfolding yields_def [of Q "try_run m f"]
  by (auto split: prod.splits sum.splits dest: yieldsD)

lemma yields_map_error [yields_intros]: "yields P m \<Longrightarrow> yields P (map_error h m)"
  by (auto simp: yields_def split: prod.splits sum.splits)

lemma yields_if [yields_intros]: "(b \<Longrightarrow> yields P m) \<Longrightarrow> (\<not> b \<Longrightarrow> yields P n) \<Longrightarrow> yields P (if b then m else n)"
  by simp

lemma yields_any: "yields (\<lambda>x. True) m"
  by (simp add: yields_def)

lemma yields_catalog [yields_intros]: "(\<And>c. P (f c)) \<Longrightarrow> yields P (catalog_query env msg f)"
  unfolding yields_def
proof (intro allI impI)
  fix s :: "'b st" and x s'
  assume P: "\<And>c. P (f c)" and run: "run_state (catalog_query env msg f) s = (Inr x, s')"
  obtain r d w where "q_catalog env (world s) = (r, d, w)" by (metis prod_cases3)
  with P run show "P x" by (cases r) (auto simp: run_catalog_query)
qed

lemma emits_try_yields:
  assumes "emits Q m" "yields P m" "\<And>x. P x \<Longrightarrow> emits Q (f x)"
  shows "emits Q (try_run m f)"
  unfolding emits_def
proof
  fix s
  obtain r s1 where r: "run_state m s = (r, s1)" by fastforce
  show "evolves Q s (snd (run_state (try_run m f) s))"
  proof (cases r)
    case (Inl e)
    then show ?thesis using emitsD [OF assms(1) r] r by simp
  next
    case (Inr x)
    then have "evolves Q s1 (snd (run_state (f x) s1))"
      using assms(3) yieldsD [OF assms(2)] r by (simp add: emits_def)
    then show ?thesis using emitsD [OF assms(1) r] Inr r by (auto intro: evolves_trans)
  qed
qed

text \<open>What the searches find lies in the schemas of the run.\<close>

definition all_in :: "string list \<Rightarrow> 'z table_key_scheme list \<Rightarrow> bool" where
  "all_in schemas ts = (\<forall>t\<in>set ts. schema_name t \<in> set schemas)"

lemma merge_all_in:
  assumes "all_in schemas classic" "all_in schemas others"
  shows "all_in schemas (merge_needs_vacuum_candidates classic others order lmt)"
proof -
  have "set (keep_unseen seen ts) \<subseteq> set ts" for seen and ts :: "needs_vacuum_table_info list"
    by (induction seen ts rule: keep_unseen.induct) auto
  then have "set (merge_needs_vacuum_candidates classic others order lmt) \<subseteq> set (classic @ others)"
    unfolding merge_needs_vacuum_candidates_def using merged.take_mem by blast
  with assms show ?thesis by (auto simp: all_in_def)
qed

lemma searches_in_schemas [yields_intros]:
  "yields (all_in schemas) (find_never_vacuumed env schemas tbl lo hi lmt order)"
  "yields (all_in schemas) (find_never_analyzed env schemas tbl lo hi lmt order)"
  "yields (all_in schemas) (find_wraparound_candidates env schemas age tbl lo hi lmt order)"
  "yields (all_in schemas) (find_bloat_candidates env schemas tbl pct min_dead lo hi lmt order)"
  "yields (all_in schemas) (find_needs_vacuum_candidates env schemas tbl thr sf lo hi lmt order)"
  "yields (all_in schemas) (find_vacuum_overdue_candidates env schemas tbl days lo hi lmt)"
  "yields (all_in schemas) (find_analyze_overdue_candidates env schemas tbl days lo hi lmt)"
  unfolding find_never_vacuumed_def find_never_analyzed_def find_wraparound_candidates_def
    find_bloat_candidates_def find_needs_vacuum_candidates_def find_vacuum_overdue_candidates_def
    find_analyze_overdue_candidates_def all_in_def
  by (rule yields_catalog; use queries_in_scope in \<open>force simp: in_scope_def\<close>)+

lemma max_threshold_search_in_schemas:
  "yields (all_in schemas) (find_needs_vacuum_max_threshold_candidates env schemas tbl cap v lo hi)"
  unfolding find_needs_vacuum_max_threshold_candidates_def
  by (rule yields_try [OF yields_any], rule yields_ret)
    (use queries_in_scope(6) in \<open>force simp: all_in_def in_scope_def\<close>)

lemma yields_search [yields_intros]: "yields P m \<Longrightarrow> yields P (search msgs failure m)"
  unfolding search_def by (intro yields_intros)

lemma max_threshold_candidates_in:
  "all_in (c_schemas c) (fst (run_state (max_threshold_candidates env c cap v) s))"
  using yieldsD [OF max_threshold_search_in_schemas]
  by (auto simp: max_threshold_candidates_def all_in_def split: prod.splits sum.splits) blast

lemma yields_run: "(\<And>s. P (fst (run_state m s))) \<Longrightarrow> (\<And>x. P x \<Longrightarrow> yields Q (f x)) \<Longrightarrow> yields Q (State_Monad.bind m f)"
  by (auto simp: yields_def split: prod.splits) (metis fst_conv)

lemma needs_vacuum_search_in: "yields (all_in (c_schemas c)) (needs_vacuum_search env c threshold factor)"
  unfolding needs_vacuum_search_def Let_def
  by (rule yields_try, rule yields_map_error, rule searches_in_schemas, rule yields_bind, rule yields_bind,
      rule yields_bind, rule yields_run [where P = "all_in (c_schemas c)"], rule max_threshold_candidates_in,
      intro yields_bind yields_ret)
    (auto intro: merge_all_in)

lemma explicit_in_schemas:
  "yields (\<lambda>ts. \<forall>t\<in>set ts. in_run schemas t) (resolve_explicit_tables env requested schemas)"
  unfolding yields_def
proof (intro allI impI)
  fix s :: "'a st" and out s'
  assume run: "run_state (resolve_explicit_tables env requested schemas) s = (Inr out, s')"
  obtain es where es: "run_state (drop_out_of_scope schemas requested) s =
      (filter (in_run schemas) requested, s\<lparr>trace := trace s @ es\<rparr>)"
    using run_drop_out_of_scope by blast
  have "set out \<subseteq> set (filter (in_run schemas) requested)"
  proof (cases "filter (in_run schemas) requested = []")
    case True
    with run es have "out = []" by (simp add: resolve_explicit_tables_def split: if_splits)
    then show ?thesis by simp
  next
    case False
    then have "requested \<noteq> []" by auto
    with False run es
    have "\<exists>ex (s1 :: 'a st) s2. run_state (drop_missing ex (filter (in_run schemas) requested)) s1 = (out, s2)"
      by (simp add: resolve_explicit_tables_def split: prod.splits sum.splits) blast
    then obtain ex and s1 s2 :: "'a st" where "run_state (drop_missing ex (filter (in_run schemas) requested)) s1 = (out, s2)"
      by blast
    then show ?thesis
      using run_drop_missing [of ex "filter (in_run schemas) requested" s1] by auto
  qed
  then show "\<forall>t\<in>set out. in_run schemas t" by auto
qed

section \<open>What the parts of a run do\<close>

text \<open>Setting up sends session settings and the statements for the logbook, and nothing else.\<close>

definition session_sql :: "string \<Rightarrow> bool" where
  "session_sql sql =
     (starts_with ''SET '' sql
      \<or> sql \<in> set [CREATE_SCHEMA_SQL, CREATE_LOGBOOK_TABLE_SQL, CREATE_INDEX_TABLE_SQL, CREATE_INDEX_TIME_SQL,
                   COMMENT_BEFORE_SQL, COMMENT_REMOVED_SQL])"

text \<open>\<open>K\<close> says which connections may be opened.\<close>

fun setup_event :: "(transport \<Rightarrow> driver_config \<Rightarrow> bool) \<Rightarrow> event \<Rightarrow> bool" where
  "setup_event K (ESql sql r n) = session_sql sql"
| "setup_event K (EActive s t r) = False"
| "setup_event K (ETerminate p r) = False"
| "setup_event K (ELogbook e) = False"
| "setup_event K (ESleep d) = False"
| "setup_event K (EConnect tr cfg r) = K tr cfg"
| "setup_event K _ = True"

lemma session_sql_simps [simp]:
  "session_sql (''SET '' @ x)"
  "session_sql CREATE_SCHEMA_SQL" "session_sql CREATE_LOGBOOK_TABLE_SQL" "session_sql CREATE_INDEX_TABLE_SQL"
  "session_sql CREATE_INDEX_TIME_SQL" "session_sql COMMENT_BEFORE_SQL" "session_sql COMMENT_REMOVED_SQL"
  by (simp_all add: session_sql_def del: append.simps)

lemma set_statements:
  "session_sql (statement_timeout_sql n)" "session_sql SET_IDLE_SESSION_TIMEOUT" "session_sql SET_APPLICATION_NAME"
  by (simp_all add: session_sql_def statement_timeout_sql_def SET_IDLE_SESSION_TIMEOUT_def SET_APPLICATION_NAME_def
      starts_with_def)

lemma session_sql_target: "session_sql sql \<Longrightarrow> statement_target sql = None"
proof -
  have "statement_target (CHR ''S'' # x) = None" "statement_target (CHR ''C'' # x) = None" for x
    by (simp_all add: statement_target_def read_vacuum_def read_analyze_def strip_prefix_def starts_with_def)
  moreover assume "session_sql sql"
  then have "\<exists>x. sql = CHR ''S'' # x \<or> sql = CHR ''C'' # x"
    by (cases sql)
      (auto simp: session_sql_def starts_with_def CREATE_SCHEMA_SQL_def CREATE_LOGBOOK_TABLE_SQL_def
        CREATE_INDEX_TABLE_SQL_def CREATE_INDEX_TIME_SQL_def COMMENT_BEFORE_SQL_def COMMENT_REMOVED_SQL_def)
  ultimately show ?thesis by auto
qed

lemma emits_query [emits_intros]: "emits Q (query msg q)"
  by (intro emits_intros) simp

lemma emits_run_sql: "session_sql sql \<Longrightarrow> emits (setup_event K) (run_sql env msg sql)"
  by (intro emits_intros) simp

lemma emits_set: "emits (setup_event K) (run_sql env msg (''SET '' @ x))"
  by (rule emits_run_sql, rule session_sql_simps)

text \<open>The files are those at some moment of the machine.\<close>

definition opened_as :: "'w env \<Rightarrow> ssl_options \<Rightarrow> transport \<Rightarrow> driver_config \<Rightarrow> bool" where
  "opened_as env opts tr cfg = (\<exists>w. as_configured (tls env) (q_files env w) opts tr cfg)"

lemma emits_connect_raw: "emits (setup_event (opened_as env opts)) (connect_raw env cs opts)"
  by (auto simp: emits_def evolves_def run_connect_raw opened_as_def
      dest: connect_request_as_configured split: sum.splits prod.splits)

lemma emits_connect: "emits (setup_event (opened_as env opts)) (connect env cs opts timeout)"
  unfolding connect_def set_up_connection_def get_server_version_num_def get_is_in_recovery_def
  by (intro emits_intros emits_connect_raw emits_run_sql set_statements)

lemma emits_open_session:
  "emits (setup_event (opened_as env (ssl_options_of cfg))) (open_session env cfg a outcome)"
  unfolding open_session_def by (intro emits_intros emits_connect) auto

lemma emits_lock: "emits (setup_event K) (try_acquire_schema_lock env schemas)"
  unfolding try_acquire_schema_lock_def Let_def by (intro emits_intros) auto

lemma emits_requested_schemas: "emits (setup_event K) (requested_schemas env a)"
  unfolding requested_schemas_def discover_all_user_schemas_def by (intro emits_intros) auto

lemma emits_lock_schemas: "emits (setup_event K) (lock_schemas env wanted)"
  unfolding lock_schemas_def take_lock_def by (intro emits_intros emits_lock) auto

lemma emits_run_schemas: "emits (setup_event K) (run_schemas env a)"
  unfolding run_schemas_def by (intro emits_intros emits_requested_schemas emits_lock_schemas)

lemma emits_set_up_logbook: "emits (setup_event K) (set_up_logbook env)"
  unfolding set_up_logbook_def ensure_logbook_schema_def schema_exists_def
  by (intro emits_intros emits_run_sql) auto

lemma emits_setters:
  "emits (setup_event K) (set_maintenance_work_mem env gb)" "emits (setup_event K) (set_vacuum_cost_delay env delay)"
  "emits (setup_event K) (set_vacuum_cost_limit env lmt)" "emits (setup_event K) (set_vacuum_buffer_usage_limit env)"
  "emits (setup_event K) (set_max_parallel_maintenance_workers env requested)"
  "emits (setup_event K) (set_lock_timeout env timeout)"
  unfolding set_maintenance_work_mem_def set_vacuum_cost_delay_def set_vacuum_cost_limit_def
    set_vacuum_buffer_usage_limit_def set_max_parallel_maintenance_workers_def set_lock_timeout_def Let_def
  by (intro emits_intros emits_run_sql; simp add: session_sql_def starts_with_def)+

lemma emits_apply_settings: "emits (setup_event K) (apply_settings env a throttle)"
  unfolding apply_settings_def apply_memory_def apply_cost_delay_def apply_cost_limit_def apply_buffer_limit_def
    apply_workers_def announce_workers_def apply_lock_timeout_def Let_def
  by (intro emits_intros emits_setters; simp)

lemma emits_observation:
  "emits Q m \<Longrightarrow> emits Q n \<Longrightarrow> (\<And>x. emits Q (f x)) \<Longrightarrow>
     emits Q (case obs of Unobservable \<Rightarrow> m | NoReplicas \<Rightarrow> n | Observed x \<Rightarrow> f x)"
  by (cases obs) simp_all

lemma emits_initial_lag: "emits (setup_event K) (log_initial_replica_lag env g)"
  unfolding log_initial_replica_lag_def by (intro emits_intros emits_observation) auto

lemma emits_initial_horizon: "emits (setup_event K) (log_initial_xmin_horizon env age)"
  by (intro emits_intros) auto

lemma emits_drop: "emits (setup_event K) (drop_out_of_scope schemas ts)" "emits (setup_event K) (drop_missing ex ts)"
  by (induction ts) (auto intro!: emits_intros)

lemma emits_resolve: "emits (setup_event K) (resolve_explicit_tables env requested schemas)"
  unfolding resolve_explicit_tables_def catalog_query_def by (intro emits_intros emits_drop)

lemma emits_prepare_session: "emits (setup_event K) (prepare_session env a plan schemas)"
  unfolding prepare_session_def announce_run_def effective_min_age_def start_lag_gate_def check_horizon_def
    get_freeze_max_age_def Let_def
  by (intro emits_intros emits_set_up_logbook emits_apply_settings emits_initial_lag emits_initial_horizon
      emits_resolve; simp)

lemma emits_set_up_session: "emits (setup_event (opened_as env (ssl_options_of cfg))) (set_up_session env cfg a outcome plan)"
  unfolding set_up_session_def
  by (intro emits_intros emits_open_session emits_run_schemas emits_prepare_session)

text \<open>
  What the phases do: log, and work on tables in the schemas of the run.
\<close>

definition key_of :: "'z table_key_scheme \<Rightarrow> table_key" where
  "key_of t = \<lparr>schema_name = schema_name t, table_name = table_name t\<rparr>"

lemma table_event_key: "table_event policy v cmd (key_of t) e = table_event policy v cmd t e"
  by (cases e) (simp_all add: key_of_def)

definition maintenance_event :: "run_policy \<Rightarrow> string list \<Rightarrow> event \<Rightarrow> bool" where
  "maintenance_event policy schemas e =
     (only_log e \<or> (\<exists>t v cmd. schema_name t \<in> set schemas \<and> table_event policy v cmd (t :: table_key) e))"

lemma maintenance_event_log [simp]: "maintenance_event policy schemas (ELog l m)"
  "maintenance_event policy schemas (ELogAlways l m)"
  by (simp_all add: maintenance_event_def)

lemma emits_phase:
  assumes "all_in schemas ts"
  shows "emits (maintenance_event policy schemas) (run_phase env policy v ph ts)"
proof (rule emits_mono [OF emits_run_phase])
  fix e
  assume "phase_event policy v ph ts e"
  then consider "only_log e" | t where "t \<in> set ts" "table_event policy v (phase_command ph) t e"
    by (auto simp: phase_event_def)
  then show "maintenance_event policy schemas e"
  proof cases
    case 2
    then have "schema_name (key_of t) \<in> set schemas" "table_event policy v (phase_command ph) (key_of t) e"
      using assms by (auto simp: all_in_def table_event_key) (simp add: key_of_def)
    then show ?thesis unfolding maintenance_event_def by blast
  qed (simp add: maintenance_event_def)
qed

lemma emits_runners:
  "all_in schemas ts \<Longrightarrow> emits (maintenance_event policy schemas) (run_vacuum_never_vacuumed env ts policy v)"
  "all_in schemas ts \<Longrightarrow> emits (maintenance_event policy schemas) (run_analyze_never_analyzed env ts policy)"
  "all_in schemas fs \<Longrightarrow> emits (maintenance_event policy schemas) (run_freeze_wraparound env fs policy v)"
  "all_in schemas bs \<Longrightarrow> emits (maintenance_event policy schemas) (run_bloat_vacuum env bs policy done v)"
  "all_in schemas ns \<Longrightarrow> emits (maintenance_event policy schemas) (run_needs_vacuum env ns thr sf policy done v)"
  "all_in schemas os \<Longrightarrow> emits (maintenance_event policy schemas) (run_vacuum_overdue env os policy done v)"
  "all_in schemas as \<Longrightarrow> emits (maintenance_event policy schemas) (run_analyze_overdue env as policy done)"
  "all_in schemas ks \<Longrightarrow> emits (maintenance_event policy schemas) (run_also_tables env ks policy done v)"
  unfolding run_vacuum_never_vacuumed_def run_analyze_never_analyzed_def run_freeze_wraparound_def
    run_bloat_vacuum_def run_needs_vacuum_def run_vacuum_overdue_def run_analyze_overdue_def run_also_tables_def
  by (rule emits_phase, assumption)+

lemma emits_maintain_found:
  assumes "emits Q discover" "yields (all_in schemas) discover" "\<And>ts. all_in schemas ts \<Longrightarrow> emits Q (maintain ts)"
  shows "emits Q (maintain_found discover failure maintain mark p)"
  unfolding maintain_found_def
  by (rule emits_try_yields [OF assms(1,2)]) (intro emits_intros assms(3))

lemma emits_run_mode:
  assumes "emits Q discover" "yields (all_in schemas) discover" "\<And>ts. all_in schemas ts \<Longrightarrow> emits Q (maintain ts)"
    "\<And>l m. Q (ELog l m)"
  shows "emits Q (run_mode selected title discover failure maintain mark p)"
  unfolding run_mode_def by (intro emits_intros emits_maintain_found [OF assms(1-3)] assms(4)) auto

lemma emits_quiet_search: "(\<And>l m. Q (ELog l m)) \<Longrightarrow> emits Q m \<Longrightarrow> emits Q (search msgs failure m)"
  unfolding search_def by (intro emits_intros)

lemma emits_finds:
  "emits Q (find_never_vacuumed env schemas tbl lo hi lmt order)"
  "emits Q (find_never_analyzed env schemas tbl lo hi lmt order)"
  "emits Q (find_wraparound_candidates env schemas age tbl lo hi lmt order)"
  "emits Q (find_bloat_candidates env schemas tbl pct min_dead lo hi lmt order)"
  "emits Q (find_needs_vacuum_candidates env schemas tbl thr sf lo hi lmt order)"
  "emits Q (find_needs_vacuum_max_threshold_candidates env schemas tbl cap v lo hi)"
  "emits Q (find_vacuum_overdue_candidates env schemas tbl days lo hi lmt)"
  "emits Q (find_analyze_overdue_candidates env schemas tbl days lo hi lmt)"
  unfolding find_never_vacuumed_def find_never_analyzed_def find_wraparound_candidates_def
    find_bloat_candidates_def find_needs_vacuum_candidates_def find_vacuum_overdue_candidates_def
    find_analyze_overdue_candidates_def find_needs_vacuum_max_threshold_candidates_def catalog_query_def
  by (intro emits_intros; simp)+

lemma emits_thresholds: "(\<And>l m. Q (ELog l m)) \<Longrightarrow> emits Q (needs_vacuum_thresholds env c)"
  unfolding needs_vacuum_thresholds_def server_vacuum_settings_def get_vacuum_settings_def Let_def
  by (intro emits_intros; simp)

lemma emits_needs_vacuum_search: "(\<And>l m. Q (ELog l m)) \<Longrightarrow> emits Q (needs_vacuum_search env c thr sf)"
  unfolding needs_vacuum_search_def server_version_or_zero_def get_server_version_num_def
    max_threshold_or_default_def get_vacuum_max_threshold_def max_threshold_candidates_def announce_added_def Let_def
  by (intro emits_intros emits_finds; simp)

text \<open>The explicit tables of a session are in its schemas.\<close>

definition session_ok :: "session \<Rightarrow> bool" where
  "session_ok ses = (LOGBOOK_SCHEMA_NAME \<notin> set (ses_schemas ses) \<and> all_in (ses_schemas ses) (ses_also ses))"

lemma emits_modes:
  assumes "m \<in> set modes_in_order" "session_ok (ctx_session c)"
  shows "emits (maintenance_event (c_policy c) (c_schemas c)) (m env c p)"
proof -
  let ?Q = "maintenance_event (c_policy c) (c_schemas c)"
  have "emits ?Q (never_vacuumed_mode env c p)"
    unfolding never_vacuumed_mode_def
    by (rule emits_run_mode [OF emits_quiet_search yields_search [OF searches_in_schemas(1)]])
      (simp_all add: emits_finds emits_runners)
  moreover have "emits ?Q (never_analyzed_mode env c p)"
    unfolding never_analyzed_mode_def
    by (rule emits_run_mode [OF emits_quiet_search yields_search [OF searches_in_schemas(2)]])
      (simp_all add: emits_finds emits_runners)
  moreover have "emits ?Q (freeze_mode env c p)"
    unfolding freeze_mode_def
    by (rule emits_run_mode [OF emits_quiet_search yields_search [OF searches_in_schemas(3)]])
      (simp_all add: emits_finds emits_runners)
  moreover have "emits ?Q (bloat_mode env c p)"
    unfolding bloat_mode_def
    by (rule emits_run_mode [where schemas = "c_schemas c"];
        (intro emits_intros emits_finds yields_intros emits_runners)?) simp_all
  moreover have "emits ?Q (needs_vacuum_mode env c p)"
    unfolding needs_vacuum_mode_def
    by (intro emits_intros emits_thresholds emits_runners emits_needs_vacuum_search
        emits_maintain_found [where schemas = "c_schemas c"] needs_vacuum_search_in) simp_all
  moreover have "emits ?Q (vacuum_overdue_mode env c p)"
    unfolding vacuum_overdue_mode_def Let_def
    by (rule emits_run_mode [OF emits_quiet_search yields_search [OF searches_in_schemas(6)]])
      (simp_all add: emits_finds emits_runners)
  moreover have "emits ?Q (analyze_overdue_mode env c p)"
    unfolding analyze_overdue_mode_def Let_def
    by (rule emits_run_mode [OF emits_quiet_search yields_search [OF searches_in_schemas(7)]])
      (simp_all add: emits_finds emits_runners)
  moreover have "emits ?Q (also_tables_mode env c p)"
    unfolding also_tables_mode_def
    by (intro emits_intros emits_runners emits_maintain_found [where schemas = "c_schemas c"] yields_intros)
      (use assms(2) in \<open>auto simp: session_ok_def\<close>)
  ultimately show ?thesis using assms(1) unfolding modes_in_order_def by auto
qed

lemma emits_run_modes:
  assumes "\<And>m p. m \<in> set ms' \<Longrightarrow> emits Q (m env c p)"
  shows "emits Q (run_modes ms' env c p)"
  using assms by (induction ms' arbitrary: p) (auto intro!: emits_intros)

section \<open>Nothing before the lock\<close>

lemma try_InrE:
  assumes "run_state (try_run m f) s = (Inr x, s')"
  obtains y s1 where "run_state m s = (Inr y, s1)" "run_state (f y) s1 = (Inr x, s')"
  using assms by (auto split: prod.splits sum.splits)

lemma bindE:
  assumes "run_state (State_Monad.bind m f) s = (x, s')"
  obtains y s1 where "run_state m s = (y, s1)" "run_state (f y) s1 = (x, s')"
  using assms by (auto split: prod.splits)

lemma map_error_InrE:
  assumes "run_state (map_error h m) s = (Inr x, s')"
  shows "run_state m s = (Inr x, s')"
  using assms by (auto split: prod.splits sum.splits)

lemma lock_acquired:
  assumes "run_state (try_acquire_schema_lock env schemas) s = (Inr (), s')"
  shows "\<exists>k w. fst (q_hashtext env (join '','' schemas) w) = Inr k \<and> trace s' = trace s @ [ELock k (Inr True)]"
proof -
  obtain r d w where q: "q_hashtext env (join '','' schemas) (world s) = (r, d, w)" by (metis prod_cases3)
  then have "fst (q_hashtext env (join '','' schemas) (world s)) = r" by simp
  moreover from assms q obtain k where k: "r = Inr k"
    by (cases r) (simp_all add: try_acquire_schema_lock_def Let_def run_call_env)
  obtain b d' w' where l: "q_try_advisory_lock env k w = (b, d', w')" by (metis prod_cases3)
  from assms q k l have "b = Inr True \<and> trace s' = trace s @ [ELock k (Inr True)]"
    by (cases b) (auto simp: try_acquire_schema_lock_def Let_def run_call_env split: if_splits)
  ultimately show ?thesis using k by blast
qed

lemma emits_extend: "emits Q m \<Longrightarrow> run_state m s = (r, s') \<Longrightarrow> \<exists>es. trace s' = trace s @ es \<and> list_all Q es"
  using emitsD by (fastforce simp: evolves_def list_all_iff)

definition schemas_of :: "args \<Rightarrow> string list \<Rightarrow> bool" where
  "schemas_of a schemas =
     (LOGBOOK_SCHEMA_NAME \<notin> set schemas
      \<and> (arg_schema a \<noteq> None \<longrightarrow>
           schemas = filter (\<lambda>s. s \<noteq> LOGBOOK_SCHEMA_NAME) (listed_schemas (arg_schema a))))"

text \<open>The lock on a list of schemas is held: the server said so, for the number it gave for the list.\<close>

definition locked :: "'w env \<Rightarrow> string list \<Rightarrow> event list \<Rightarrow> bool" where
  "locked env schemas es =
     (\<exists>k w. fst (q_hashtext env (join '','' schemas) w) = Inr k \<and> ELock k (Inr True) \<in> set es)"

lemma locked_append: "locked env schemas es \<Longrightarrow> locked env schemas (fs @ es @ gs)"
  by (auto simp: locked_def)

lemma take_lock_locked:
  assumes "run_state (take_lock env wanted) s = (Inr schemas, s')"
  shows "schemas = wanted \<and> (\<exists>es. trace s' = trace s @ es \<and> locked env schemas es)"
proof -
  from assms have "wanted \<noteq> []" by (auto simp: take_lock_def)
  with assms have "run_state (try_run (map_error (with_context ''Failed to acquire concurrency guard'')
      (try_acquire_schema_lock env wanted)) (\<lambda>_. do {
        log Info (Text (''Acquired advisory lock for schema(s): '' @ join '', '' wanted));
        ret (Inr wanted)
      })) s = (Inr schemas, s')"
    unfolding take_lock_def by simp
  then obtain u s1 where lock: "run_state (map_error (with_context ''Failed to acquire concurrency guard'')
      (try_acquire_schema_lock env wanted)) s = (Inr u, s1)"
    and "run_state (do {
        log Info (Text (''Acquired advisory lock for schema(s): '' @ join '', '' wanted));
        ret (Inr wanted)
      }) s1 = (Inr schemas :: error + string list, s')" by (rule try_InrE)
  then obtain m where "schemas = wanted" "trace s' = trace s1 @ [ELog Info m]" by auto
  moreover have "run_state (try_acquire_schema_lock env wanted) s = (Inr (), s1)"
    using map_error_InrE [OF lock] by simp
  from lock_acquired [OF this] obtain k w where
    "fst (q_hashtext env (join '','' wanted) w) = Inr k" "trace s1 = trace s @ [ELock k (Inr True)]" by blast
  ultimately show ?thesis
    by (intro conjI exI [of _ "[ELock k (Inr True), ELog Info m]"]) (auto simp: locked_def)
qed

lemma lock_schemas_locked:
  assumes "run_state (lock_schemas env wanted) s = (Inr schemas, s')"
  shows "schemas = filter (\<lambda>s. s \<noteq> LOGBOOK_SCHEMA_NAME) wanted
       \<and> (\<exists>es. trace s' = trace s @ es \<and> locked env schemas es)"
proof -
  from assms obtain u s1 where "run_state (if LOGBOOK_SCHEMA_NAME \<in> set wanted
      then log Warning (Text (''Excluding '' @ [squote] @ LOGBOOK_SCHEMA_NAME @ [squote] @
        '' schema from maintenance '' @ em_dash @ '' it is managed internally by pg-maintainer''))
      else ret ()) s = (u, s1)"
    and lock: "run_state (take_lock env (filter (\<lambda>s. s \<noteq> LOGBOOK_SCHEMA_NAME) wanted)) s1 = (Inr schemas, s')"
    unfolding lock_schemas_def by (rule bindE)
  then have "\<exists>es. trace s1 = trace s @ es" by (auto split: if_splits)
  with take_lock_locked [OF lock] show ?thesis unfolding locked_def by fastforce
qed

lemma run_schemas_locked:
  assumes "run_state (run_schemas env a) s = (Inr schemas, s')"
  shows "schemas_of a schemas \<and> (\<exists>es. trace s' = trace s @ es \<and> locked env schemas es)"
proof -
  from assms obtain wanted s1 where wanted: "run_state (requested_schemas env a) s = (Inr wanted, s1)"
    and rest: "run_state (lock_schemas env wanted) s1 = (Inr schemas, s')"
    unfolding run_schemas_def by (rule try_InrE)
  have "wanted = listed_schemas (arg_schema a)" if "arg_schema a \<noteq> None"
    using wanted that by (simp add: requested_schemas_def)
  with lock_schemas_locked [OF rest] emits_extend [OF emits_requested_schemas wanted] show ?thesis
    unfolding schemas_of_def locked_def by fastforce
qed

lemma prepared_session:
  "yields (\<lambda>ses. ses_schemas ses = schemas \<and> (\<forall>t\<in>set (ses_also ses). in_run schemas t))
     (prepare_session env a plan schemas)"
  unfolding prepare_session_def
  by (intro yields_bind; rule yields_try [OF yields_any]; intro yields_bind; rule yields_try [OF yields_any];
      rule yields_try [OF yields_any]; rule yields_try [OF yields_any];
      rule yields_try [OF yields_map_error [OF explicit_in_schemas]])
    (rule yields_ret, auto)

lemma set_up_session_locked:
  assumes "run_state (set_up_session env cfg a outcome plan) s = (Inr ses, s')"
  shows "schemas_of a (ses_schemas ses) \<and> session_ok ses
     \<and> (\<exists>es. trace s' = trace s @ es \<and> locked env (ses_schemas ses) es)"
proof -
  from assms obtain u s1 where s1: "run_state (open_session env cfg a outcome) s = (Inr u, s1)"
    and rest: "run_state (try_run (run_schemas env a) (prepare_session env a plan)) s1 = (Inr ses, s')"
    unfolding set_up_session_def by (rule try_InrE)
  from rest obtain schemas s2 where s2: "run_state (run_schemas env a) s1 = (Inr schemas, s2)"
    and last: "run_state (prepare_session env a plan schemas) s2 = (Inr ses, s')" by (rule try_InrE)
  from yieldsD [OF prepared_session last] have ses: "ses_schemas ses = schemas" "\<forall>t\<in>set (ses_also ses). in_run schemas t"
    by simp_all
  from run_schemas_locked [OF s2] obtain es where es: "schemas_of a schemas" "trace s2 = trace s1 @ es"
    "locked env schemas es" by blast
  moreover obtain es1 es2 where "trace s1 = trace s @ es1" "trace s' = trace s2 @ es2"
    using emits_extend [OF emits_open_session s1] emits_extend [OF emits_prepare_session last] by blast
  ultimately have "trace s' = trace s @ es1 @ es @ es2" "locked env schemas (es1 @ es @ es2)"
    by (simp_all add: locked_append)
  with ses es(1) show ?thesis
    by (auto simp: session_ok_def schemas_of_def all_in_def in_run_def)
qed

text \<open>Where a connected run ends: in setting up, or after its phases.\<close>

lemma emits_report_totals: "emits only_log (report_totals c start summaries)"
proof -
  have "emits only_log (log_always_all msgs)" for msgs
    by (induction msgs rule: log_always_all.induct) (auto intro!: emits_intros)
  then show ?thesis unfolding report_totals_def by (intro emits_intros) auto
qed

lemma emits_finish_run: "emits only_log (finish_run n)"
  unfolding finish_run_def by (intro emits_intros) auto

lemma emits_warn: "emits (setup_event K) (warn_unused_days m flag name plan days)"
  unfolding warn_unused_days_def by (intro emits_intros) auto

lemma emits_run_phases:
  assumes "session_ok (ctx_session c)"
  shows "emits (maintenance_event (c_policy c) (c_schemas c)) (run_phases env c)"
  unfolding run_phases_def
  by (intro emits_intros emits_run_modes emits_modes assms emits_mono [OF emits_report_totals]
      emits_mono [OF emits_finish_run])
    (auto simp: maintenance_event_def)

lemma connected_run_cases:
  assumes "run_state (connected_run env cfg a outcome plan) s = (r, s')"
  obtains (stopped) e es where "r = Inl e" "trace s' = trace s @ es" "list_all (setup_event (opened_as env (ssl_options_of cfg))) es"
    | (ran) ses s1 es where "trace s1 = trace s @ es" "list_all (setup_event (opened_as env (ssl_options_of cfg))) es"
        "locked env (ses_schemas ses) es" "schemas_of a (ses_schemas ses)" "session_ok ses"
        "run_state (run_phases env \<lparr>ctx_args = a, ctx_plan = plan, ctx_session = ses\<rparr>) s1 = (r, s')"
proof -
  from assms obtain u s2 where w1: "run_state (warn_unused_days VacuumOverdue ''--vacuum-older-than-days''
      ''vacuum-overdue'' plan (arg_vacuum_older_than_days a)) s = (u, s2)"
    and rest: "run_state (do {
     warn_unused_days AnalyzeOverdue ''--analyze-older-than-days'' ''analyze-overdue'' plan (arg_analyze_older_than_days a);
     try_run (set_up_session env cfg a outcome plan) (\<lambda>session.
       run_phases env \<lparr>ctx_args = a, ctx_plan = plan, ctx_session = session\<rparr>) }) s2 = (r, s')"
    unfolding connected_run_def by (rule bindE)
  from rest obtain u' s3 where w2: "run_state (warn_unused_days AnalyzeOverdue ''--analyze-older-than-days''
      ''analyze-overdue'' plan (arg_analyze_older_than_days a)) s2 = (u', s3)"
    and main: "run_state (try_run (set_up_session env cfg a outcome plan) (\<lambda>session.
       run_phases env \<lparr>ctx_args = a, ctx_plan = plan, ctx_session = session\<rparr>)) s3 = (r, s')" by (rule bindE)
  obtain es1 es2 where warned: "trace s2 = trace s @ es1" "trace s3 = trace s2 @ es2" "list_all (setup_event (opened_as env (ssl_options_of cfg))) (es1 @ es2)"
    using emits_extend [OF emits_warn w1, of "opened_as env (ssl_options_of cfg)"]
      emits_extend [OF emits_warn w2, of "opened_as env (ssl_options_of cfg)"] by auto
  obtain x s1 where set_up: "run_state (set_up_session env cfg a outcome plan) s3 = (x, s1)" by fastforce
  obtain es3 where es3: "trace s1 = trace s3 @ es3" "list_all (setup_event (opened_as env (ssl_options_of cfg))) es3"
    using emits_extend [OF emits_set_up_session set_up] by blast
  show thesis
  proof (cases x)
    case (Inl e)
    with main set_up have "r = Inl e \<and> s' = s1" by simp
    with warned es3 stopped [of e "es1 @ es2 @ es3"] show thesis by simp
  next
    case (Inr ses)
    with set_up set_up_session_locked [of env cfg a outcome plan s3 ses s1] es3(1)
    have "schemas_of a (ses_schemas ses)" "session_ok ses" "locked env (ses_schemas ses) es3" by auto
    moreover from this(3) have "locked env (ses_schemas ses) (es1 @ es2 @ es3)"
      using locked_append [of env "ses_schemas ses" es3 "es1 @ es2" "[]"] by simp
    moreover have "run_state (run_phases env \<lparr>ctx_args = a, ctx_plan = plan, ctx_session = ses\<rparr>) s1 = (r, s')"
      using main set_up Inr by simp
    ultimately show thesis using warned es3 by (intro ran [of s1 "es1 @ es2 @ es3" ses]) simp_all
  qed
qed

text \<open>The table a statement, a check for sessions or a logbook row is about.\<close>

fun event_table :: "event \<Rightarrow> (string \<times> string) option" where
  "event_table (ESql sql r n) = statement_target sql"
| "event_table (EActive s t r) = Some (s, t)"
| "event_table (ELogbook e) = Some (entry_schema e, entry_table e)"
| "event_table _ = None"

fun maintains :: "event \<Rightarrow> bool" where
  "maintains (ETerminate p r) = True"
| "maintains (ESleep d) = True"
| "maintains e = (event_table e \<noteq> None)"

lemma setup_not_maintains: "setup_event K e \<Longrightarrow> \<not> maintains e"
  by (cases e) (simp_all add: session_sql_target)

lemma maintenance_event_table:
  "maintenance_event policy schemas e \<Longrightarrow> event_table e = Some (x, y) \<Longrightarrow> x \<in> set schemas"
  by (cases e) (auto simp: maintenance_event_def)

text \<open>
  C1: Nothing is maintained before the lock is held, and then only in the schemas it protects. The events
  of a run fall into two parts. In the first no table is maintained, no session terminated and nothing
  written to the logbook. In the second every statement, every check for sessions and every logbook row is
  about a table in one schema of a list, never the logbook's schema; and if there is a second part at all,
  the server has granted the advisory lock for exactly this list in the first. The list is the one of the
  command line, when schemas were listed.
\<close>

theorem maintenance_under_lock:
  assumes "run_state (connected_run env cfg a outcome plan) s = (r, s')"
  shows "\<exists>before after schemas. trace s' = trace s @ before @ after
     \<and> list_all (\<lambda>e. \<not> maintains e) before
     \<and> (after \<noteq> [] \<longrightarrow> locked env schemas before)
     \<and> (\<forall>e\<in>set after. \<forall>x y. event_table e = Some (x, y) \<longrightarrow> x \<in> set schemas \<and> x \<noteq> LOGBOOK_SCHEMA_NAME)
     \<and> (after \<noteq> [] \<and> arg_schema a \<noteq> None \<longrightarrow>
          schemas = filter (\<lambda>s. s \<noteq> LOGBOOK_SCHEMA_NAME) (listed_schemas (arg_schema a)))"
  using assms
proof (cases rule: connected_run_cases)
  case (stopped e es)
  then show ?thesis
    by (intro exI [of _ es] exI [of _ "[]"]) (auto simp: list_all_iff setup_not_maintains)
next
  case (ran ses s1 es)
  obtain fs where fs: "trace s' = trace s1 @ fs"
    "list_all (maintenance_event (run_policy_of a) (ses_schemas ses)) fs"
    using emits_extend [OF emits_run_phases ran(6)] ran(5) by auto
  have "x \<in> set (ses_schemas ses)" if "e \<in> set fs" "event_table e = Some (x, y)" for e x y
    using maintenance_event_table fs(2) that by (fastforce simp: list_all_iff)
  with ran fs(1) show ?thesis
    by (intro exI [of _ es] exI [of _ fs] exI [of _ "ses_schemas ses"])
      (auto simp: list_all_iff setup_not_maintains schemas_of_def)
qed

section \<open>A dry run\<close>

fun harmless :: "event \<Rightarrow> bool" where
  "harmless (ESql sql r n) = session_sql sql"
| "harmless (ETerminate p r) = False"
| "harmless (ELogbook e) = False"
| "harmless (ESleep d) = False"
| "harmless _ = True"

text \<open>
  C2: A dry run of the whole program changes no table: whatever the settings and the server's answers, the
  only statements sent are session settings and the creation of the logbook's own tables; no session is
  terminated, no logbook row is written, and no time is spent waiting.
\<close>

theorem dry_run_changes_nothing:
  assumes "run_state (connected_run env cfg a outcome plan) s = (r, s')" "arg_dry_run a"
  shows "\<exists>es. trace s' = trace s @ es \<and> list_all harmless es"
proof -
  have set_up: "setup_event K e \<Longrightarrow> harmless e" for K e by (cases e) simp_all
  have phases: "maintenance_event (run_policy_of a) schemas e \<Longrightarrow> harmless e" for schemas e
    using assms(2) by (cases e) (auto simp: maintenance_event_def run_policy_of_def)
  from assms(1) show ?thesis
  proof (cases rule: connected_run_cases)
    case (stopped e es)
    then show ?thesis using set_up by (intro exI [of _ es]) (auto simp: list_all_iff)
  next
    case (ran ses s1 es)
    obtain fs where "trace s' = trace s1 @ fs" "list_all (maintenance_event (run_policy_of a) (ses_schemas ses)) fs"
      using emits_extend [OF emits_run_phases ran(6)] ran(5) by auto
    with ran(1,2) show ?thesis
      using set_up phases by (intro exI [of _ "es @ fs"]) (auto simp: list_all_iff)
  qed
qed

end
