(* ===== verification/Run_Modes.thy ===== *)
theory Run_Modes
  imports Run_Facts
begin

text \<open>
  The modes of a run one after the other: each logs its failures, works on the candidates it found, and
  leaves alone what earlier modes have noted in the sets it consults. The runners and the modes are given by
  their contracts, the locales \<open>phase_runner\<close> and \<open>maintenance_mode\<close>, and each mode of the program is an
  interpretation.
\<close>

section \<open>Phase after phase\<close>

definition worked_on :: "event list \<Rightarrow> (string \<times> string) set" where
  "worked_on es = {p. \<exists>sql r n. ESql sql r n \<in> set es \<and> statement_target sql = Some p}"

lemma worked_on_simps [simp]:
  "worked_on [] = {}" "worked_on (es @ fs) = worked_on es \<union> worked_on fs"
  unfolding worked_on_def by (simp, simp add: set_eq_iff, blast)

lemma logs_only: "list_all only_log es \<Longrightarrow> worked_on es = {} \<and> entries st es = 0"
  by (auto simp: worked_on_def list_all_iff intro: entries_none only_log_not_logbook)

text \<open>
  The contract of a runner, as the phases use it: its failures are in the logbook, and it works on its
  candidates only, except those that it spares.
\<close>

locale phase_runner =
  fixes maintain :: "'z table_key_scheme list \<Rightarrow> ('w, error + operation_summary) run"
    and spared :: "(string \<times> string) set"
  assumes runs: "run_state (maintain ts) s = (r, s') \<Longrightarrow>
      \<exists>es. trace s' = trace s @ es \<and> worked_on es \<subseteq> ids ts - spared
        \<and> (\<forall>sm. r = Inr sm \<longrightarrow> failed sm = entries ''error'' es)"
begin

lemma found:
  assumes "emits only_log discover"
    "run_state (maintain_found discover failure maintain mark p) s = (r, s')"
  shows "\<exists>es ts. trace s' = trace s @ es \<and> worked_on es \<subseteq> ids ts - spared
     \<and> (\<forall>sm p'. r = Inr (sm, p') \<longrightarrow> failed sm = entries ''error'' es \<and> p' = mark ts p)"
proof -
  obtain x s1 where x: "run_state discover s = (x, s1)" by fastforce
  obtain fs where fs: "trace s1 = trace s @ fs" "list_all only_log fs" using emits_extend [OF assms(1) x] by blast
  note quiet = logs_only [OF fs(2)]
  show ?thesis
  proof (cases x)
    case (Inl e)
    with assms(2) x have "r = Inl e" "s' = s1" by (simp_all add: maintain_found_def)
    with fs(1) quiet show ?thesis by (intro exI [of _ fs] exI [of _ "[]"]) simp
  next
    case (Inr ts)
    obtain y s2 where y: "run_state (maintain ts) s1 = (y, s2)" by fastforce
    from runs [OF y] obtain es where es: "trace s2 = trace s1 @ es" "worked_on es \<subseteq> ids ts - spared"
      "\<forall>sm. y = Inr sm \<longrightarrow> failed sm = entries ''error'' es" by blast
    from assms(2) x Inr y have "s' = s2" "r = (case y of Inl e \<Rightarrow> Inl (with_context failure e) | Inr sm \<Rightarrow> Inr (sm, mark ts p))"
      by (auto simp: maintain_found_def split: sum.splits)
    with fs(1) quiet es show ?thesis
      by (intro exI [of _ "fs @ es"] exI [of _ ts]) (auto split: sum.splits)
  qed
qed

lemma mode:
  assumes "emits only_log discover"
    "run_state (run_mode selected title discover failure maintain mark p) s = (r, s')"
  shows "\<exists>es ts. trace s' = trace s @ es \<and> worked_on es \<subseteq> ids ts - spared
     \<and> (\<forall>sm p'. r = Inr (sm, p') \<longrightarrow> failed sm = entries ''error'' es
           \<and> (p' = mark ts p \<or> worked_on es = {} \<and> p' = p))"
proof (cases "selected \<and> \<not> signalled (signal_at s) (clock s)")
  case True
  with assms(2) have "run_state (maintain_found discover failure maintain mark p) s = (r, s')"
    by (simp add: run_mode_def)
  from found [OF assms(1) this] show ?thesis by blast
next
  case False
  with assms(2) obtain m where "r = Inr (empty_summary 0, p)" "trace s' = trace s @ [ELog Info m]"
    by (auto simp: run_mode_def)
  then show ?thesis
    by (intro exI [of _ "[ELog Info m]"] exI [of _ "[]"]) (auto simp: empty_summary_def worked_on_def)
qed

end

definition spared_by :: "'z phase \<Rightarrow> (string \<times> string) set" where
  "spared_by ph = (case skip_set ph of Some done \<Rightarrow> done | None \<Rightarrow> {})"

lemma run_phase_works_on:
  assumes "run_state (run_phase env policy v ph ts) s = (r, s')"
  shows "\<exists>es. trace s' = trace s @ es \<and> worked_on es \<subseteq> ids ts - spared_by ph
     \<and> (\<forall>sm. r = Inr sm \<longrightarrow> failed sm = entries ''error'' es)"
proof -
  from run_phase_trace [OF assms] obtain es where
    es: "trace s' = trace s @ es" "\<forall>e\<in>set es. phase_event policy v ph ts e" by blast
  have "p \<in> ids ts - spared_by ph" if "ESql sql r n \<in> set es" "statement_target sql = Some p" for sql r n p
    using es(2) [THEN bspec, OF that(1)] that(2)
    by (auto simp: phase_event_def table_id_def ids_def is_handled_def spared_by_def split: option.splits)
  then have "worked_on es \<subseteq> ids ts - spared_by ph" by (auto simp: worked_on_def)
  moreover have "failed sm = entries ''error'' es" if "r = Inr sm" for sm
    using run_phase_summary [OF assms [unfolded that]] es(1) by auto
  ultimately show ?thesis using es(1) by blast
qed

interpretation phase: phase_runner "run_phase env policy v ph" "spared_by ph" for env policy v ph
  by unfold_locales (rule run_phase_works_on)

lemma marks:
  "handled (mark_vacuumed ts p) = handled p \<union> ids ts" "vacuumed (mark_vacuumed ts p) = vacuumed p \<union> ids ts"
  "analyzed (mark_vacuumed ts p) = analyzed p"
  "handled (mark_analyzed ts p) = handled p \<union> ids ts" "vacuumed (mark_analyzed ts p) = vacuumed p"
  "analyzed (mark_analyzed ts p) = analyzed p \<union> ids ts"
  "handled (mark_handled ts p) = handled p \<union> ids ts" "vacuumed (mark_handled ts p) = vacuumed p"
  "analyzed (mark_handled ts p) = analyzed p"
  by (simp_all add: mark_vacuumed_def mark_analyzed_def mark_handled_def)

lemma only_log_logs: "only_log (ELog l m)" by simp

lemmas quiet_search = emits_quiet_search [where Q = only_log, OF only_log_logs]

lemmas runner_defs =
  run_vacuum_never_vacuumed_def run_analyze_never_analyzed_def run_freeze_wraparound_def run_bloat_vacuum_def
  run_needs_vacuum_def run_vacuum_overdue_def run_analyze_overdue_def run_also_tables_def

lemmas spared_simps =
  spared_by_def never_vacuumed_phase_def never_analyzed_phase_def freeze_phase_def bloat_phase_def
  needs_vacuum_phase_def vacuum_overdue_phase_def analyze_overdue_phase_def also_tables_phase_def

lemma spared [simp]:
  "spared_by never_vacuumed_phase = {}" "spared_by never_analyzed_phase = {}" "spared_by freeze_phase = {}"
  "spared_by (bloat_phase done) = done" "spared_by (needs_vacuum_phase thr sf done) = done"
  "spared_by (vacuum_overdue_phase done) = done" "spared_by (analyze_overdue_phase done) = done"
  "spared_by (also_tables_phase done) = done"
  by (simp_all add: spared_simps)

definition vacuum_note :: "progress \<Rightarrow> (string \<times> string) set" where
  "vacuum_note p = handled p \<inter> vacuumed p"

definition analyze_note :: "progress \<Rightarrow> (string \<times> string) set" where
  "analyze_note p = handled p \<inter> analyzed p"

definition mode_step ::
  "(progress \<Rightarrow> (string \<times> string) set) \<Rightarrow> (string \<times> string) set \<Rightarrow> progress \<Rightarrow>
     error + operation_summary \<times> progress \<Rightarrow> 'w st \<Rightarrow> 'w st \<Rightarrow> bool" where
  "mode_step noted spared p r s s' =
     (\<exists>es. trace s' = trace s @ es \<and> worked_on es \<inter> spared = {}
        \<and> (\<forall>sm p'. r = Inr (sm, p') \<longrightarrow> failed sm = entries ''error'' es \<and> worked_on es \<subseteq> noted p'
            \<and> handled p \<subseteq> handled p' \<and> vacuumed p \<subseteq> vacuumed p' \<and> analyzed p \<subseteq> analyzed p'))"

lemma noted_step:
  assumes "\<exists>es ts. trace s' = trace s @ es \<and> worked_on es \<subseteq> ids ts - spared
     \<and> (\<forall>sm p'. r = Inr (sm, p') \<longrightarrow> failed sm = entries ''error'' es
           \<and> (p' = mark ts p \<or> worked_on es = {} \<and> p' = p))"
    and "\<And>ts. ids ts \<subseteq> noted (mark ts p) \<and> handled p \<subseteq> handled (mark ts p)
           \<and> vacuumed p \<subseteq> vacuumed (mark ts p) \<and> analyzed p \<subseteq> analyzed (mark ts p)"
  shows "mode_step noted spared p r s s'"
proof -
  from assms(1) obtain es ts where es: "trace s' = trace s @ es" "worked_on es \<subseteq> ids ts - spared"
    and ok: "\<forall>sm p'. r = Inr (sm, p') \<longrightarrow> failed sm = entries ''error'' es
      \<and> (p' = mark ts p \<or> worked_on es = {} \<and> p' = p)" by blast
  have "failed sm = entries ''error'' es \<and> worked_on es \<subseteq> noted p'
      \<and> handled p \<subseteq> handled p' \<and> vacuumed p \<subseteq> vacuumed p' \<and> analyzed p \<subseteq> analyzed p'"
    if "r = Inr (sm, p')" for sm p'
    using ok [rule_format, OF that] assms(2) [of ts] es(2) by auto
  with es show ?thesis unfolding mode_step_def by (intro exI [of _ es]) auto
qed

lemma mark_grows:
  "ids ts \<subseteq> vacuum_note (mark_vacuumed ts p) \<and> handled p \<subseteq> handled (mark_vacuumed ts p)
     \<and> vacuumed p \<subseteq> vacuumed (mark_vacuumed ts p) \<and> analyzed p \<subseteq> analyzed (mark_vacuumed ts p)"
  "ids ts \<subseteq> analyze_note (mark_analyzed ts p) \<and> handled p \<subseteq> handled (mark_analyzed ts p)
     \<and> vacuumed p \<subseteq> vacuumed (mark_analyzed ts p) \<and> analyzed p \<subseteq> analyzed (mark_analyzed ts p)"
  "ids ts \<subseteq> handled (mark_handled ts p) \<and> handled p \<subseteq> handled (mark_handled ts p)
     \<and> vacuumed p \<subseteq> vacuumed (mark_handled ts p) \<and> analyzed p \<subseteq> analyzed (mark_handled ts p)"
  by (auto simp: marks vacuum_note_def analyze_note_def)

lemma never_vacuumed_step:
  "run_state (never_vacuumed_mode env c p) s = (r, s') \<Longrightarrow> mode_step vacuum_note {} p r s s'"
  unfolding never_vacuumed_mode_def runner_defs
  by (drule phase.mode [OF quiet_search [OF emits_finds(1)]]) (simp only: spared, erule noted_step, rule mark_grows)

lemma never_analyzed_step:
  "run_state (never_analyzed_mode env c p) s = (r, s') \<Longrightarrow> mode_step analyze_note {} p r s s'"
  unfolding never_analyzed_mode_def runner_defs
  by (drule phase.mode [OF quiet_search [OF emits_finds(2)]]) (simp only: spared, erule noted_step, rule mark_grows)

lemma freeze_step:
  "run_state (freeze_mode env c p) s = (r, s') \<Longrightarrow> mode_step vacuum_note {} p r s s'"
  unfolding freeze_mode_def runner_defs
  by (drule phase.mode [OF quiet_search [OF emits_finds(3)]]) (simp only: spared, erule noted_step, rule mark_grows)

lemma bloat_search_quiet:
  "emits only_log (do {
     log Info m; log Info n;
     map_error h (find_bloat_candidates env schemas tbl pct min_dead lo hi lmt order) })"
  by (intro emits_intros emits_finds) auto

lemma bloat_step:
  "run_state (bloat_mode env c p) s = (r, s') \<Longrightarrow> mode_step vacuum_note (handled p) p r s s'"
  unfolding bloat_mode_def runner_defs
  by (drule phase.mode [OF bloat_search_quiet]) (simp only: spared, erule noted_step, rule mark_grows)

lemma vacuum_overdue_step:
  "run_state (vacuum_overdue_mode env c p) s = (r, s') \<Longrightarrow> mode_step handled (vacuumed p) p r s s'"
  unfolding vacuum_overdue_mode_def runner_defs Let_def
  by (drule phase.mode [OF quiet_search [OF emits_finds(7)]]) (simp only: spared, erule noted_step, rule mark_grows)

lemma analyze_overdue_step:
  "run_state (analyze_overdue_mode env c p) s = (r, s') \<Longrightarrow> mode_step handled (analyzed p) p r s s'"
  unfolding analyze_overdue_mode_def runner_defs Let_def
  by (drule phase.mode [OF quiet_search [OF emits_finds(8)]]) (simp only: spared, erule noted_step, rule mark_grows)

lemma idle_step: "mode_step noted spared p (Inr (empty_summary 0, p)) s (s\<lparr>trace := trace s @ [ELog l m]\<rparr>)"
  "mode_step noted spared p (Inr (empty_summary 0, p)) s s"
  unfolding mode_step_def
  by (rule exI [of _ "[ELog l m]"], simp add: empty_summary_def worked_on_def,
      rule exI [of _ "[]"], simp add: empty_summary_def)

lemma also_tables_step:
  assumes run: "run_state (also_tables_mode env c p) s = (r, s')"
  shows "mode_step (\<lambda>p. UNIV) (handled p) p r s s'"
proof (cases "ses_also (ctx_session c) \<noteq> [] \<and> \<not> signalled (signal_at s) (clock s)")
  case True
  let ?m = "ELog Info (Text (banner ''VACUUM (ANALYZE) (--also-tables)''))"
  from run True have "run_state (maintain_found (ret (Inr (ses_also (ctx_session c))))
      ''VACUUM ANALYZE (--also-tables) phase failed''
      (run_phase env (c_policy c) (c_options c) (also_tables_phase (handled p))) (\<lambda>ts p. p) p)
      (s\<lparr>trace := trace s @ [?m]\<rparr>) = (r, s')"
    by (simp add: also_tables_mode_def runner_defs)
  from phase.found [OF emits_return this] obtain es where
    "trace s' = trace s @ ?m # es" "worked_on es \<inter> handled p = {}"
    "\<forall>sm p'. r = Inr (sm, p') \<longrightarrow> failed sm = entries ''error'' es \<and> p' = p" by auto
  moreover have "worked_on (?m # es) = worked_on es" by (simp add: worked_on_def)
  ultimately show ?thesis
    unfolding mode_step_def by (intro exI [of _ "?m # es"]) auto
next
  case False
  with run have "r = Inr (empty_summary 0, p)" "s' = s" by (auto simp: also_tables_mode_def)
  then show ?thesis by (simp add: idle_step)
qed

lemma quiet_needs_vacuum_search: "emits only_log (needs_vacuum_search env c thr sf)"
  by (rule emits_needs_vacuum_search) simp

lemma needs_vacuum_step:
  assumes run: "run_state (needs_vacuum_mode env c p) s = (r, s')"
  shows "mode_step vacuum_note (vacuumed p) p r s s'"
proof (cases "enabled NeedsVacuum c \<and> \<not> signalled (signal_at s) (clock s)")
  case True
  let ?m = "ELog Info (Text (banner ''VACUUM (needs vacuum)''))"
  obtain thr factor s1 where thr: "run_state (needs_vacuum_thresholds env c) (s\<lparr>trace := trace s @ [?m]\<rparr>) = ((thr, factor), s1)"
    by (metis surj_pair)
  from run True thr have "run_state (maintain_found (needs_vacuum_search env c thr factor)
      ''VACUUM NEEDS VACUUM phase failed''
      (run_phase env (c_policy c) (c_options c) (needs_vacuum_phase thr factor (vacuumed p))) mark_vacuumed p) s1 =
      (r, s')"
    by (simp add: needs_vacuum_mode_def runner_defs)
  from phase.found [OF quiet_needs_vacuum_search this, unfolded spared] obtain es
      and ts :: "needs_vacuum_table_info list" where
    "trace s' = trace s1 @ es" "worked_on es \<subseteq> ids ts - vacuumed p"
    "\<forall>sm p'. r = Inr (sm, p') \<longrightarrow> failed sm = entries ''error'' es \<and> p' = mark_vacuumed ts p" by blast
  moreover obtain fs where "trace s1 = trace s @ ?m # fs" "list_all only_log (?m # fs)"
    using emits_extend [OF emits_thresholds thr, of only_log] by auto
  ultimately show ?thesis
    using logs_only [of "?m # fs"]
    by (intro noted_step [of _ _ _ _ mark_vacuumed] mark_grows exI [of _ "(?m # fs) @ es"] exI [of _ ts])
      (auto simp: worked_on_simps simp del: append_Cons)
next
  case False
  with run obtain m where "r = Inr (empty_summary 0, p)" "s' = s\<lparr>trace := trace s @ [ELog Info m]\<rparr>"
    by (auto simp: needs_vacuum_mode_def)
  then show ?thesis by (simp add: idle_step)
qed

text \<open>
  The contract of a mode: besides, what it works on is noted in a set that later modes consult, and it
  leaves alone what the set it consults itself contains. The sets only grow.
\<close>

locale maintenance_mode =
  fixes mode :: "'w env \<Rightarrow> run_context \<Rightarrow> progress \<Rightarrow> ('w, error + operation_summary \<times> progress) run"
    and consulted noted :: "progress \<Rightarrow> (string \<times> string) set"
  assumes step: "run_state (mode env c p) s = (r, s') \<Longrightarrow> mode_step noted (consulted p) p r s s'"
begin

lemma then_rest:
  assumes "run_state (run_modes (mode # rest) env c p) s = (r, s')"
  obtains (stopped) e where "run_state (mode env c p) s = (Inl e, s')" "r = Inl e"
      "mode_step noted (consulted p) p (Inl e) s s'"
    | (goes_on) sm p' s1 r1 where "run_state (mode env c p) s = (Inr (sm, p'), s1)"
      "mode_step noted (consulted p) p (Inr (sm, p')) s s1"
      "run_state (run_modes rest env c p') s1 = (r1, s')" "r = map_sum id (\<lambda>sms. sm # sms) r1"
proof -
  obtain x s1 where x: "run_state (mode env c p) s = (x, s1)" by fastforce
  show thesis
  proof (cases x)
    case (Inl e)
    with assms x step [OF x] show thesis by (intro stopped) simp_all
  next
    case (Inr y)
    obtain sm p' where y: "y = (sm, p')" by fastforce
    obtain r1 s2 where "run_state (run_modes rest env c p') s1 = (r1, s2)" by fastforce
    with assms x Inr y step [OF x] show thesis by (intro goes_on [of sm p' s1 r1]) (auto split: sum.splits)
  qed
qed

end

interpretation never_vacuumed: maintenance_mode never_vacuumed_mode "\<lambda>p. {}" vacuum_note
  by unfold_locales (rule never_vacuumed_step)

interpretation never_analyzed: maintenance_mode never_analyzed_mode "\<lambda>p. {}" analyze_note
  by unfold_locales (rule never_analyzed_step)

interpretation freezing: maintenance_mode freeze_mode "\<lambda>p. {}" vacuum_note
  by unfold_locales (rule freeze_step)

interpretation bloat: maintenance_mode bloat_mode handled vacuum_note
  by unfold_locales (rule bloat_step)

interpretation needs_vacuum: maintenance_mode needs_vacuum_mode vacuumed vacuum_note
  by unfold_locales (rule needs_vacuum_step)

interpretation vacuum_overdue: maintenance_mode vacuum_overdue_mode vacuumed handled
  by unfold_locales (rule vacuum_overdue_step)

interpretation analyze_overdue: maintenance_mode analyze_overdue_mode analyzed handled
  by unfold_locales (rule analyze_overdue_step)

interpretation explicit: maintenance_mode also_tables_mode handled "\<lambda>p. UNIV"
  by unfold_locales (rule also_tables_step)

text \<open>
  So if what one mode notes is among what a later one consults, the two work on different tables. The modes
  of a run with the sets they consult and note:
\<close>

type_synonym 'w mode_entry =
  "('w env \<Rightarrow> run_context \<Rightarrow> progress \<Rightarrow> ('w, error + operation_summary \<times> progress) run)
   \<times> (progress \<Rightarrow> (string \<times> string) set) \<times> (progress \<Rightarrow> (string \<times> string) set)"

abbreviation consults :: "'w mode_entry \<Rightarrow> progress \<Rightarrow> (string \<times> string) set" where "consults x \<equiv> fst (snd x)"
abbreviation notes_in :: "'w mode_entry \<Rightarrow> progress \<Rightarrow> (string \<times> string) set" where "notes_in x \<equiv> snd (snd x)"

definition grows :: "(progress \<Rightarrow> (string \<times> string) set) \<Rightarrow> bool" where
  "grows f = (\<forall>p p'. handled p \<subseteq> handled p' \<and> vacuumed p \<subseteq> vacuumed p' \<and> analyzed p \<subseteq> analyzed p' \<longrightarrow> f p \<subseteq> f p')"

definition mode_entry_ok :: "'w mode_entry \<Rightarrow> bool" where
  "mode_entry_ok x = (maintenance_mode (fst x) (consults x) (notes_in x) \<and> grows (consults x))"

definition schedule :: "'w mode_entry list" where
  "schedule =
     [(never_vacuumed_mode, \<lambda>p. {}, vacuum_note), (never_analyzed_mode, \<lambda>p. {}, analyze_note),
      (freeze_mode, \<lambda>p. {}, vacuum_note), (bloat_mode, handled, vacuum_note),
      (needs_vacuum_mode, vacuumed, vacuum_note), (vacuum_overdue_mode, vacuumed, handled),
      (analyze_overdue_mode, analyzed, handled), (also_tables_mode, handled, \<lambda>p. UNIV)]"

lemma schedule_modes: "map fst schedule = modes_in_order"
  by (simp add: schedule_def modes_in_order_def)

lemma schedule_ok: "list_all mode_entry_ok schedule"
  unfolding schedule_def mode_entry_ok_def grows_def
  by (simp add: never_vacuumed.maintenance_mode_axioms never_analyzed.maintenance_mode_axioms
      freezing.maintenance_mode_axioms bloat.maintenance_mode_axioms needs_vacuum.maintenance_mode_axioms
      vacuum_overdue.maintenance_mode_axioms analyze_overdue.maintenance_mode_axioms
      explicit.maintenance_mode_axioms)

text \<open>
  The events of each mode that is run: the modes in order, the last one perhaps with an error, after which
  the others are not run.
\<close>

fun mode_stretches ::
  "('w env \<Rightarrow> run_context \<Rightarrow> progress \<Rightarrow> ('w, error + operation_summary \<times> progress) run) list \<Rightarrow>
     'w env \<Rightarrow> run_context \<Rightarrow> progress \<Rightarrow> 'w st \<Rightarrow> event list list" where
  "mode_stretches [] env c p s = []"
| "mode_stretches (m # rest) env c p s =
     (case run_state (m env c p) s of
        (Inl e, s') \<Rightarrow> [new_events s s']
      | (Inr (summary, p'), s') \<Rightarrow> new_events s s' # mode_stretches rest env c p' s')"

definition kept_apart :: "'w mode_entry list \<Rightarrow> event list list \<Rightarrow> bool" where
  "kept_apart xs ess =
     (\<forall>j<length ess. \<forall>i<j. (\<forall>q. notes_in (xs ! i) q \<subseteq> consults (xs ! j) q) \<longrightarrow>
        worked_on (ess ! i) \<inter> worked_on (ess ! j) = {})"

definition consulted_spared :: "'w mode_entry list \<Rightarrow> progress \<Rightarrow> event list list \<Rightarrow> bool" where
  "consulted_spared xs p ess = (\<forall>j<length ess. worked_on (ess ! j) \<inter> consults (xs ! j) p = {})"

text \<open>One more mode in front of a run of modes that keep apart.\<close>

lemma one_more_mode:
  assumes "kept_apart xs ess" "consulted_spared xs p' ess" "length ess \<le> length xs" "list_all mode_entry_ok xs"
    "worked_on es \<inter> consults x p = {}" "worked_on es \<subseteq> notes_in x p'"
    "handled p \<subseteq> handled p' \<and> vacuumed p \<subseteq> vacuumed p' \<and> analyzed p \<subseteq> analyzed p'"
  shows "kept_apart (x # xs) (es # ess)" "consulted_spared (x # xs) p (es # ess)"
proof -
  have later: "worked_on (ess ! j) \<inter> consults (xs ! j) p = {}"
    "(\<forall>q. notes_in x q \<subseteq> consults (xs ! j) q) \<longrightarrow> worked_on es \<inter> worked_on (ess ! j) = {}" if "j < length ess" for j
  proof -
    have fs: "worked_on (ess ! j) \<inter> consults (xs ! j) p' = {}" using assms(2) that by (simp add: consulted_spared_def)
    have "mode_entry_ok (xs ! j)" using assms(3,4) that by (simp add: list_all_length)
    with assms(7) have "consults (xs ! j) p \<subseteq> consults (xs ! j) p'" unfolding mode_entry_ok_def grows_def by blast
    with fs show "worked_on (ess ! j) \<inter> consults (xs ! j) p = {}" by blast
    from fs assms(6) show "(\<forall>q. notes_in x q \<subseteq> consults (xs ! j) q) \<longrightarrow> worked_on es \<inter> worked_on (ess ! j) = {}"
      by blast
  qed
  from later(1) assms(5) show "consulted_spared (x # xs) p (es # ess)"
    unfolding consulted_spared_def by (simp add: All_less_Suc2)
  from later(2) assms(1) show "kept_apart (x # xs) (es # ess)"
    unfolding kept_apart_def by (simp add: All_less_Suc2)
qed

lemma new_events_append: "trace s' = trace s @ es \<Longrightarrow> new_events s s' = es"
  by (simp add: new_events_def)

lemma run_modes_apart:
  assumes "run_state (run_modes (map fst xs) env c p) s = (r, s')" "list_all mode_entry_ok xs"
    "ess = mode_stretches (map fst xs) env c p s"
  shows "trace s' = trace s @ concat ess \<and> length ess \<le> length xs
     \<and> (\<forall>sms. r = Inr sms \<longrightarrow> length ess = length xs \<and> map failed sms = map (entries ''error'') ess)
     \<and> consulted_spared xs p ess \<and> kept_apart xs ess"
  using assms
proof (induction xs arbitrary: p s r ess)
  case Nil
  then show ?case by (auto simp: consulted_spared_def kept_apart_def)
next
  case (Cons x xs)
  from Cons.prems(2) have "mode_entry_ok x" and ok: "list_all mode_entry_ok xs" by simp_all
  then have x: "maintenance_mode (fst x) (consults x) (notes_in x)" by (simp add: mode_entry_ok_def)
  from Cons.prems(1) [unfolded list.map] show ?case
  proof (cases rule: maintenance_mode.then_rest [OF x, consumes 1, case_names stopped goes_on])
    case (stopped e)
    from stopped(3) obtain es where es: "trace s' = trace s @ es" "worked_on es \<inter> consults x p = {}"
      unfolding mode_step_def by blast
    with Cons.prems(3) stopped(1) have "ess = [es]" by (simp add: new_events_append)
    with es stopped(2) show ?thesis by (simp add: consulted_spared_def kept_apart_def)
  next
    case (goes_on sm p' s1 r1)
    from goes_on(2) obtain es where es: "trace s1 = trace s @ es" "failed sm = entries ''error'' es"
      "worked_on es \<inter> consults x p = {}" "worked_on es \<subseteq> notes_in x p'"
      and more: "handled p \<subseteq> handled p' \<and> vacuumed p \<subseteq> vacuumed p' \<and> analyzed p \<subseteq> analyzed p'"
      unfolding mode_step_def by blast
    let ?fss = "mode_stretches (map fst xs) env c p' s1"
    have ess: "ess = es # ?fss" using Cons.prems(3) goes_on(1) es(1) by (simp add: new_events_append)
    note rest = Cons.IH [OF goes_on(3) ok refl]
    from rest have l: "length ?fss \<le> length xs" by blast
    from one_more_mode [OF _ _ l ok es(3,4) more] rest have
      "kept_apart (x # xs) ess" "consulted_spared (x # xs) p ess" unfolding ess by blast+
    moreover have "length ess = length (x # xs) \<and> map failed sms = map (entries ''error'') ess" if "r = Inr sms" for sms
      using that goes_on(4) rest es(2) unfolding ess by (cases r1) auto
    ultimately show ?thesis using rest es(1) unfolding ess by simp
  qed
qed

text \<open>
  The eight modes of a run, by their place in the order, each with the earlier ones whose tables it leaves
  alone: a table that an earlier mode vacuumed is not worked on again by the bloat, needs-vacuum and
  vacuum-overdue modes, an analyzed one not by the bloat and analyze-overdue modes, and the explicit list
  leaves alone whatever any mode handled.
\<close>

definition spares_earlier :: "(nat \<times> nat list) list" where
  "spares_earlier = [(3, [0, 1, 2]), (4, [0, 2, 3]), (5, [0, 2, 3, 4]), (6, [1]), (7, [0, 1, 2, 3, 4, 5, 6])]"

lemma modes_kept_apart:
  fixes env :: "'w env"
  assumes "run_state (run_modes modes_in_order env c no_progress) s = (r, s')"
    "ess = mode_stretches modes_in_order env c no_progress s"
  shows "trace s' = trace s @ concat ess" "length ess \<le> 8"
    "\<And>sms. r = Inr sms \<Longrightarrow> length ess = 8 \<and> map failed sms = map (entries ''error'') ess"
    "list_all (\<lambda>(j, earlier). j < length ess \<longrightarrow>
       list_all (\<lambda>i. worked_on (ess ! i) \<inter> worked_on (ess ! j) = {}) earlier) spares_earlier"
proof -
  note m = run_modes_apart [OF assms(1) [folded schedule_modes] schedule_ok, OF assms(2) [folded schedule_modes]]
  have eight: "length (schedule :: 'w mode_entry list) = 8" by (simp add: schedule_def)
  from m show "trace s' = trace s @ concat ess" by blast
  from m eight show "length ess \<le> 8" by simp
  from m eight show "length ess = 8 \<and> map failed sms = map (entries ''error'') ess" if "r = Inr sms" for sms
    using that by simp
  have n: "vacuum_note q \<subseteq> handled q" "vacuum_note q \<subseteq> vacuumed q" "analyze_note q \<subseteq> handled q"
    "analyze_note q \<subseteq> analyzed q" for q
    by (simp_all add: vacuum_note_def analyze_note_def)
  from m have "kept_apart (schedule :: 'w mode_entry list) ess" by blast
  then have "worked_on (ess ! i) \<inter> worked_on (ess ! j) = {}"
    if "j < length ess" "i < j" "\<forall>q. notes_in ((schedule :: 'w mode_entry list) ! i) q \<subseteq> consults ((schedule :: 'w mode_entry list) ! j) q" for i j
    using that unfolding kept_apart_def by blast
  then show "list_all (\<lambda>(j, earlier). j < length ess \<longrightarrow>
       list_all (\<lambda>i. worked_on (ess ! i) \<inter> worked_on (ess ! j) = {}) earlier) spares_earlier"
    unfolding spares_earlier_def by (simp add: schedule_def n)
qed

end
