(* ===== verification/Run_Outcome.thy ===== *)
theory Run_Outcome
  imports Run_Modes
begin

text \<open>
  How a run ends: its exit code against the signal and the logbook, and the eight modes of one run against
  each other. At the end, the theorems on whole runs at a concrete process.
\<close>

definition run_result :: "'w st \<Rightarrow> nat \<Rightarrow> error + nat" where
  "run_result s fail =
     (if signalled (signal_at s) (clock s) then Inr 130
      else if 0 < fail then Inl (error_from_text (''pg-maintainer completed with '' @ dec fail @ '' error(s)''))
      else Inr 0)"

lemma finish_run_result: "run_state (finish_run n) s = (r, s') \<Longrightarrow> r = run_result s' n"
  by (auto simp: finish_run_def run_result_def split: if_splits)

lemma run_phases_cases:
  assumes "run_state (run_phases env c) s = (r, s')"
  obtains (stopped) e where "run_state (run_modes modes_in_order env c no_progress) s = (Inl e, s')" "r = Inl e"
    | (finished) sms s1 fs where "run_state (run_modes modes_in_order env c no_progress) s = (Inr sms, s1)"
        "trace s' = trace s1 @ fs" "list_all only_log fs"
        "r = run_result s' (sum_list (map failed sms))"
proof -
  let ?finish = "\<lambda>summaries. do {
       report_totals c (clock s) summaries;
       finish_run (sum_list (map failed summaries)) }"
  from assms have run: "run_state (try_run (run_modes modes_in_order env c no_progress) ?finish) s = (r, s')"
    by (simp add: run_phases_def)
  obtain x s1 where x: "run_state (run_modes modes_in_order env c no_progress) s = (x, s1)" by fastforce
  show thesis
  proof (cases x)
    case (Inl e)
    with run x stopped [of e] show thesis by simp
  next
    case (Inr sms)
    with run x have last: "run_state (?finish sms) s1 = (r, s')" by simp
    then obtain u s2 where s2: "run_state (report_totals c (clock s) sms) s1 = (u, s2)"
      and fin: "run_state (finish_run (sum_list (map failed sms))) s2 = (r, s')" by (rule bindE)
    have "emits only_log (?finish sms)"
      by (intro emits_bind emits_report_totals emits_finish_run)
    from emits_extend [OF this last] obtain fs where "trace s' = trace s1 @ fs" "list_all only_log fs" by blast
    moreover note finish_run_result [OF fin]
    ultimately show thesis using x Inr finished by blast
  qed
qed

lemma sum_entries: "sum_list (map (entries st) ess) = entries st (concat ess)"
  by (induction ess) simp_all

text \<open>
  C3: No table is worked on twice where the code means to prevent it. However a run ends, its trace is the
  stretches of the modes that were run, in order, and then the lines of its report; when the eight modes came
  to their end there are eight stretches. No statement of the bloat mode is about a table that one of the three
  modes before it sent a statement on; none of the needs-vacuum and vacuum-overdue modes about a table the
  vacuuming modes before them worked on, none of the analyze-overdue mode about one the never-analyzed mode
  worked on, and none of the explicit list about a table any mode worked on.
\<close>

theorem phases_do_not_repeat:
  assumes "run_state (run_phases env c) s = (r, s')"
    "ess = mode_stretches modes_in_order env c no_progress s"
  shows "(\<exists>report. trace s' = trace s @ concat ess @ report \<and> list_all only_log report)
     \<and> length ess \<le> 8 \<and> (\<forall>code. r = Inr code \<longrightarrow> length ess = 8)
     \<and> list_all (\<lambda>(j, earlier). j < length ess \<longrightarrow>
          list_all (\<lambda>i. worked_on (ess ! i) \<inter> worked_on (ess ! j) = {}) earlier)
        [(3, [0, 1, 2]), (4, [0, 2, 3]), (5, [0, 2, 3, 4]), (6, [1]), (7, [0, 1, 2, 3, 4, 5, 6])]"
  using assms(1)
proof (cases rule: run_phases_cases)
  case (stopped e)
  from modes_kept_apart [OF stopped(1) assms(2), unfolded spares_earlier_def] stopped(2) show ?thesis by simp
next
  case (finished sms s1 fs)
  from modes_kept_apart [OF finished(1) assms(2), unfolded spares_earlier_def] finished(2,3) show ?thesis by auto
qed

text \<open>How a whole run ends, in terms of the logbook it wrote.\<close>

lemma run_phases_result:
  assumes "run_state (run_phases env c) s = (r, s')"
  obtains (stopped) e where "r = Inl e"
    | (finished) es where "trace s' = trace s @ es"
        "r = run_result s' (entries ''error'' es)"
  using assms
proof (cases rule: run_phases_cases)
  case (finished sms s1 fs)
  let ?ess = "mode_stretches modes_in_order env c no_progress s"
  note es = modes_kept_apart(1,3) [OF finished(1) refl]
  from es(2) [OF refl] have "sum_list (map failed sms) = entries ''error'' (concat ?ess @ fs)"
    using logs_only [OF finished(3)] by (simp add: sum_entries)
  with es(1) finished(2,4) that(2) show thesis by simp
qed (rule that(1))

lemma setup_entries: "list_all (setup_event K) es \<Longrightarrow> entries st es = 0"
proof (rule entries_none)
  have "setup_event K e \<Longrightarrow> not_logbook e" for K e by (cases e) simp_all
  then show "list_all (setup_event K) es \<Longrightarrow> \<forall>e\<in>set es. not_logbook e" by (auto simp: list_all_iff)
qed

lemma connected_run_result:
  assumes "run_state (connected_run env cfg a outcome plan) s = (r, s')"
  obtains (stopped) e where "r = Inl e"
    | (finished) es where "trace s' = trace s @ es" "r = run_result s' (entries ''error'' es)"
  using assms
proof (cases rule: connected_run_cases)
  case (ran ses s1 es)
  from ran(6) show thesis
  proof (cases rule: run_phases_result)
    case (finished fs)
    with ran(1,2) that(2) [of "es @ fs"] show thesis by (simp add: setup_entries)
  qed (rule that(1))
qed (rule that(1))

lemma connected_run_trace:
  assumes "run_state (connected_run env cfg a outcome plan) s = (r, s')"
  shows "\<exists>es. trace s' = trace s @ es"
  using assms
proof (cases rule: connected_run_cases)
  case (ran ses s1 es)
  with emits_extend [OF emits_run_phases ran(6)] show ?thesis by auto
qed blast

text \<open>A connected run, a refusal, or a crash: these are the ends of the program.\<close>

lemma run_main_cases:
  assumes "run_state (run_main p env args) s = (r, s')"
  obtains (crashed) "effective_args p args = Inl Crashed" "r = Inl Crashed" "s' = s"
    | (refused) e es where "effective_args p args \<noteq> Inl Crashed" "r = Inl (Refused e)" "trace s' = trace s @ es"
    | (finished) es code where "handlers_installed p args" "effective_args p args \<noteq> Inl Crashed"
        "r = Inr code" "trace s' = trace s @ es"
        "run_result s' (entries ''error'' es) = Inr code"
proof (cases "effective_args p args")
  case (Inl stop)
  with assms have "r = Inl stop \<and> s' = s" by (simp add: run_main_def)
  with Inl show thesis using crashed refused [of _ "[]"] by (cases stop) auto
next
  case (Inr eff)
  obtain a out where eff: "eff = (a, out)" by fastforce
  show thesis
  proof (cases "validate a")
    case (Inl msg)
    with assms Inr eff have "r = Inl (Refused (error_from_text msg)) \<and> s' = s" by (auto simp: run_main_def)
    with Inr refused [of _ "[]"] show thesis by simp
  next
    case plan: (Inr plan)
    obtain x where x: "run_state (connected_run env (connection_of p a) a out plan) s = (x, s')"
      and r: "r = (case x of Inl e \<Rightarrow> Inl (Refused e) | Inr code \<Rightarrow> Inr code)"
      using assms Inr eff plan by (auto simp: run_main_def split: prod.splits sum.splits)
    have known: "effective_args p args \<noteq> Inl Crashed" "handlers_installed p args"
      using Inr eff plan by (simp_all add: handlers_installed_def)
    show thesis
    proof (cases x)
      case failure: (Inl e)
      from connected_run_trace [OF x] obtain es where "trace s' = trace s @ es" by blast
      with known r failure refused show thesis by simp
    next
      case success: (Inr code)
      from x show thesis
      proof (cases rule: connected_run_result)
        case (finished es)
        with known r success that(3) [of code es] show thesis by simp
      qed (simp add: success)
    qed
  qed
qed

text \<open>
  C4: The exit code tells how the run ended. It is 101 exactly when the connection string made the program
  panic. Otherwise it is 130 exactly when a signal had arrived by the end of a run whose settings were accepted
  (before that there are no handlers), and 0, 1 or 3 if not; and with 0 no table's maintenance failed: the run
  wrote no logbook row with the status error.
\<close>

theorem exit_code_tells_outcome:
  assumes "run_state (main p env args) s = (code, s')"
  shows "\<exists>es. trace s' = trace s @ es
     \<and> (code = 101) = (effective_args p args = Inl Crashed)
     \<and> (code = 101
          \<or> (if handlers_installed p args \<and> signalled (signal_at s') (clock s') then code = 130 else code \<in> {0, 1, 3}))
     \<and> (code = 0 \<longrightarrow> entries ''error'' es = 0)"
proof -
  have failures: "exit_code e True = 130" "exit_code e False \<in> {1, 3}" for e
    by (simp_all add: exit_code_def exit_code_for_def)
  obtain r where r: "run_state (run_main p env args) s = (r, s')"
    and code: "code = (case r of Inr code \<Rightarrow> code
        | Inl (Refused e) \<Rightarrow> exit_code e (handlers_installed p args \<and> signalled (signal_at s') (clock s')) | Inl Crashed \<Rightarrow> 101)"
    using assms by (auto simp: main_def split: prod.splits)
  from r show ?thesis
  proof (cases rule: run_main_cases)
    case crashed
    then show ?thesis using code by (intro exI [of _ "[]"]) simp
  next
    case (refused e es)
    then show ?thesis using code failures [of e] by (intro exI [of _ es]) auto
  next
    case (finished es c)
    then show ?thesis using code by (intro exI [of _ es]) (auto simp: run_result_def split: if_splits)
  qed
qed

text \<open>The connections of a run.\<close>

definition connects :: "(transport \<Rightarrow> driver_config \<Rightarrow> bool) \<Rightarrow> event \<Rightarrow> bool" where
  "connects K e = (case e of EConnect tr dc answer \<Rightarrow> K tr dc | _ \<Rightarrow> True)"

lemma connects_setup: "setup_event K e \<Longrightarrow> connects K e"
  by (cases e) (simp_all add: connects_def)

lemma connects_maintenance: "maintenance_event policy schemas e \<Longrightarrow> connects K e"
  by (cases e) (auto simp: connects_def maintenance_event_def)

lemma connected_run_connects:
  assumes "run_state (connected_run env cfg a outcome plan) s = (r, s')"
  shows "\<exists>es. trace s' = trace s @ es \<and> list_all (connects (opened_as env (ssl_options_of cfg))) es"
  using assms
proof (cases rule: connected_run_cases)
  case (stopped e es)
  then show ?thesis by (intro exI [of _ es]) (auto simp: list_all_iff connects_setup)
next
  case (ran ses s1 es)
  with emits_extend [OF emits_run_phases ran(6)] obtain fs where
    "trace s' = trace s1 @ fs" "list_all (maintenance_event (run_policy_of a) (ses_schemas ses)) fs" by auto
  with ran(1,2) show ?thesis
    by (intro exI [of _ "es @ fs"]) (auto simp: list_all_iff connects_setup connects_maintenance)
qed

lemma ssl_options_of_connection:
  "ssl_options_of (connection_of p a) =
     \<lparr>opt_sslmode = arg_sslmode a, opt_ca_cert = arg_ssl_ca_cert a,
      opt_client_cert = arg_ssl_client_cert a, opt_client_key = arg_ssl_client_key a\<rparr>"
  by (simp add: ssl_options_of_def connection_of_def from_args_def Let_def)

lemma run_main_connects:
  assumes "run_state (run_main p env args) s = (r, s')"
  obtains (nothing) "s' = s"
    | (connected) a outcome es where "effective_args p args = Inr (a, outcome)" "trace s' = trace s @ es"
        "list_all (connects (opened_as env (ssl_options_of (connection_of p a)))) es"
proof (cases "effective_args p args")
  case (Inl stop)
  with assms have "s' = s" by (simp add: run_main_def)
  then show thesis by (rule nothing)
next
  case (Inr eff)
  then obtain a outcome where eff: "effective_args p args = Inr (a, outcome)" by (cases eff) simp
  show thesis
  proof (cases "validate a")
    case (Inl msg)
    with assms eff have "s' = s" by (simp add: run_main_def)
    then show thesis by (rule nothing)
  next
    case (Inr plan)
    with assms eff obtain x where "run_state (connected_run env (connection_of p a) a outcome plan) s = (x, s')"
      by (auto simp: run_main_def split: prod.splits sum.splits)
    from connected_run_connects [OF this] eff connected show thesis by blast
  qed
qed

text \<open>
  C16: The run connects only as configured. Every connection that it asks the driver for uses the TLS mode of
  the effective settings: unencrypted exactly with \<open>disable\<close>; encrypted without the option of falling back
  otherwise, with the server's certificate checked for \<open>verify-ca\<close> and \<open>verify-full\<close>, its host name too for
  \<open>verify-full\<close>, and with the certificates of the files that the settings name, the client's only as a pair of
  certificate and key; and a silent peer is noticed after a minute.
\<close>

theorem connects_as_configured:
  assumes "run_state (main p env args) s = (code, s')"
  shows "\<exists>es. trace s' = trace s @ es
     \<and> list_all (\<lambda>e. case e of
         EConnect tr dc answer \<Rightarrow>
           (\<exists>a outcome w. effective_args p args = Inr (a, outcome)
              \<and> as_configured (tls env) (q_files env w)
                  \<lparr>opt_sslmode = arg_sslmode a, opt_ca_cert = arg_ssl_ca_cert a,
                   opt_client_cert = arg_ssl_client_cert a, opt_client_key = arg_ssl_client_key a\<rparr> tr dc)
       | _ \<Rightarrow> True) es"
proof -
  obtain r where "run_state (run_main p env args) s = (r, s')"
    using assms by (auto simp: main_def split: prod.splits)
  then show ?thesis
  proof (cases rule: run_main_connects)
    case nothing
    then show ?thesis by (intro exI [of _ "[]"]) simp
  next
    case (connected a outcome es)
    then show ?thesis
      by (intro exI [of _ es]) (auto simp: list_all_iff connects_def ssl_options_of_connection opened_as_def
          split: event.splits)
  qed
qed

section \<open>At a concrete process\<close>

text \<open>
  A run of one phase: the mode list is empty but for the explicit table \<open>public.a\<close>, on the scripted server.
\<close>

definition example_context :: run_context where
  "example_context =
     \<lparr>ctx_args = default_args,
      ctx_plan = \<lparr>plan_modes = {}, plan_min_bytes = 0, plan_max_bytes = 0,
                   plan_throttle = throttle_of default_args, plan_also_tables = [\<lparr>schema_name = ''public'', table_name = ''a''\<rparr>]\<rparr>,
      ctx_session = \<lparr>ses_schemas = [''public''], ses_min_age = 0, ses_also = [\<lparr>schema_name = ''public'', table_name = ''a''\<rparr>]\<rparr>\<rparr>"

lemma example_phases:
  "fst (run_state (run_phases scripted_env example_context) (initial_state [])) = Inr 0"
  unfolding run_phases_def modes_in_order_def never_vacuumed_mode_def never_analyzed_mode_def freeze_mode_def
    bloat_mode_def needs_vacuum_mode_def vacuum_overdue_mode_def analyze_overdue_mode_def also_tables_mode_def
    runner_defs run_mode_def maintain_found_def
  by (simp add: run_defs example_context_def default_args_def enabled_def run_policy_of_def
      report_totals_def finish_run_def summary_labels_def summary_line_def)

lemma example_phases_run:
  "run_state (run_phases scripted_env example_context) (initial_state []) =
     (Inr 0, snd (run_state (run_phases scripted_env example_context) (initial_state [])))"
  by (metis example_phases prod.collapse)

theorem phases_do_not_repeat_witness:
  "\<exists>ess report. ess = mode_stretches modes_in_order scripted_env example_context no_progress (initial_state [])
     \<and> trace (snd (run_state (run_phases scripted_env example_context) (initial_state []))) = concat ess @ report
     \<and> length ess = 8 \<and> worked_on (ess ! 0) \<inter> worked_on (ess ! 7) = {}"
proof -
  let ?ess = "mode_stretches modes_in_order scripted_env example_context no_progress (initial_state [])"
  have start: "trace (initial_state []) = []" by (simp add: initial_state_def)
  note all = phases_do_not_repeat [OF example_phases_run refl, unfolded start append_Nil]
  from all have eight: "length ?ess = 8" by blast
  from all have "list_all (\<lambda>i. worked_on (?ess ! i) \<inter> worked_on (?ess ! 7) = {}) [0, 1, 2, 3, 4, 5, 6]"
    unfolding eight list.pred_inject(2) prod.case by simp
  then have "worked_on (?ess ! 0) \<inter> worked_on (?ess ! 7) = {}" by simp
  with all eight show ?thesis by blast
qed

text \<open>A server that is starting up, and a signal that has arrived when the program connects to it.\<close>

definition starting_env :: "(pg_error + unit) list env" where
  "starting_env = scripted_env\<lparr>q_connect := (\<lambda>tr dc w. (Inl (server_error ''57P03''), 1000000, w))\<rparr>"

definition signalled_state :: "(pg_error + unit) list st" where
  "signalled_state = (initial_state [])\<lparr>signal_at := Some 0\<rparr>"

lemma starting_connect:
  "\<exists>e s'. run_state (connect_raw starting_env cs opts) s = (Inl e, s') \<and> signal_at s' = signal_at s"
  by (auto simp: run_connect_raw starting_env_def split: sum.split)

lemma minimal_effective: "\<exists>out. effective_args example_process minimal_args = Inr (minimal_args, out)"
  by (simp add: effective_args_def minimal_args_def default_args_def apply_dsn_def example_dsn in_context_def)

lemma minimal_installed: "handlers_installed example_process minimal_args"
  using minimal_effective minimal_args_plan by (auto simp: handlers_installed_def)

lemma starting_signal:
  "signal_at (snd (run_state (main example_process starting_env minimal_args) signalled_state)) = Some 0"
proof -
  obtain out where out: "effective_args example_process minimal_args = Inr (minimal_args, out)"
    using minimal_effective by blast
  have no_days: "arg_vacuum_older_than_days minimal_args = None" "arg_analyze_older_than_days minimal_args = None"
    by (simp_all add: minimal_args_def default_args_def)
  have signal: "signal_at signalled_state = Some 0" by (simp add: signalled_state_def)
  have open_fails: "\<exists>e s'. run_state (open_session starting_env cfg a outcome) s = (Inl e, s') \<and> signal_at s' = signal_at s"
    for cfg a outcome and s :: "(pg_error + unit) list st"
  proof -
    obtain e s' where "\<And>t. run_state (connect_raw starting_env (build_connection_string cfg) (ssl_options_of cfg)) t = (Inl (e t), s' t)"
      "\<And>t. signal_at (s' t) = signal_at t"
      using starting_connect by metis
    then show ?thesis by (auto simp: open_session_def connect_def split: option.split)
  qed
  show ?thesis
    using open_fails [of "connection_of example_process minimal_args" minimal_args out signalled_state]
    by (auto simp: main_def run_main_def out minimal_args_plan connected_run_def warn_unused_days_def no_days
        set_up_session_def signal)
qed

theorem exit_code_tells_outcome_witness:
  "fst (run_state (main example_process starting_env minimal_args) signalled_state) = 130"
proof -
  have "effective_args example_process minimal_args \<noteq> Inl Crashed" using minimal_effective by auto
  with exit_code_tells_outcome [OF surjective_pairing, of example_process starting_env minimal_args signalled_state]
    minimal_installed starting_signal
  show ?thesis by (auto simp: signalled_def)
qed

text \<open>A connected run over the schema \<open>public\<close>, and the same as a dry run.\<close>

definition example_connected :: "bool \<Rightarrow> (error + nat) \<times> (pg_error + unit) list st" where
  "example_connected dry =
     run_state (connected_run scripted_env (connection_of example_process default_args)
       (default_args\<lparr>arg_dry_run := dry, arg_schema := Some ''public''\<rparr>)
       \<lparr>redacted = None, outcome_ignored = [], password_from_dsn = False\<rparr> (ctx_plan example_context)) (initial_state [])"

lemma example_connected_run:
  "run_state (connected_run scripted_env (connection_of example_process default_args)
       (default_args\<lparr>arg_dry_run := dry, arg_schema := Some ''public''\<rparr>)
       \<lparr>redacted = None, outcome_ignored = [], password_from_dsn = False\<rparr> (ctx_plan example_context)) (initial_state []) =
     (fst (example_connected dry), snd (example_connected dry))"
  by (simp add: example_connected_def)

theorem dry_run_changes_nothing_witness:
  "list_all harmless (trace (snd (example_connected True)))"
  using dry_run_changes_nothing [OF example_connected_run [of True]] by (simp add: initial_state_def)

theorem maintenance_under_lock_witness:
  "\<exists>before after. trace (snd (example_connected False)) = before @ after
     \<and> list_all (\<lambda>e. \<not> maintains e) before
     \<and> list_all (\<lambda>e. \<forall>x y. event_table e \<noteq> Some (x, y) \<or> x = ''public'') after
     \<and> (after = [] \<or> locked scripted_env [''public''] before)"
proof -
  have listed: "filter (\<lambda>s. s \<noteq> LOGBOOK_SCHEMA_NAME) (listed_schemas (Some ''public'')) = [''public'']"
    by code_simp
  show ?thesis
    using maintenance_under_lock [OF example_connected_run [of False]] listed
    unfolding list_all_iff
    by (elim exE conjE) (rule exI, rule exI, rule conjI, simp add: initial_state_def, auto)
qed

text \<open>An accepted run under \<open>verify-full\<close>: nothing is ever sent in the clear, and every check is on.\<close>

definition full_args :: args where
  "full_args = minimal_args\<lparr>arg_sslmode := SslVerifyFull\<rparr>"

lemma full_effective: "\<exists>out. effective_args example_process full_args = Inr (full_args, out)"
  by (simp add: effective_args_def full_args_def minimal_args_def default_args_def apply_dsn_def example_dsn in_context_def)

theorem connects_as_configured_witness:
  "list_all (\<lambda>e. case e of EConnect tr dc answer \<Rightarrow>
       (case tr of Plain \<Rightarrow> False | Encrypted b \<Rightarrow> \<not> accept_invalid_certs b \<and> \<not> accept_invalid_hostnames b)
     | _ \<Rightarrow> True)
     (trace (snd (run_state (main example_process scripted_env full_args) (initial_state []))))"
proof -
  from full_effective obtain out where out: "effective_args example_process full_args = Inr (full_args, out)" by blast
  have mode: "arg_sslmode full_args = SslVerifyFull" by (simp add: full_args_def)
  from connects_as_configured [OF surjective_pairing, of example_process scripted_env full_args "initial_state []"]
  show ?thesis
    unfolding list_all_iff
    by (auto simp: out mode initial_state_def as_configured_def split: event.splits transport.splits)
qed

end
