(* ===== verification/Dsn_Facts.thy ===== *)
theory Dsn_Facts
  imports Dsn
begin

text \<open>
  What the DSN code promises: the driver's parser never sees an SSL parameter and everything else
  unchanged; the port is reported exactly when the URI names one; percent-decoding undoes
  percent-encoding; and what \<open>redact\<close> masks, and what it does not.
\<close>

section \<open>Names and segments\<close>

lemma ws_len_append: "ws_len s \<noteq> 0 \<Longrightarrow> ws_len (s @ t) \<noteq> 0"
  by (auto simp: ws_len_def split: list.splits if_splits)

lemma scan_key_clean:
  "scan_key s = (k, rest) \<Longrightarrow> equals_sign \<notin> set k \<and> \<not> has_ws k"
proof (induction s arbitrary: k)
  case Nil
  then show ?case by simp
next
  case (Cons c cs)
  show ?case
  proof (cases "c = equals_sign \<or> ws_len (c # cs) \<noteq> 0")
    case True
    with Cons.prems show ?thesis by (auto split: if_splits prod.splits)
  next
    case False
    then obtain k' where k': "scan_key cs = (k', rest)" "k = c # k'"
      using Cons.prems by (auto split: prod.splits)
    with Cons.IH have "equals_sign \<notin> set k'" "\<not> has_ws k'" by auto
    moreover have "ws_len (c # k') = 0"
      using False ws_len_append [of "c # k'" rest] scan_key_append [OF k'(1)] by auto
    ultimately show ?thesis using False k'(2) by auto
  qed
qed

lemma next_pair_name:
  assumes "next_pair s = Inr (Some ((k, v), rest))"
  shows "keyword_name k"
proof -
  obtain key s1 where key: "scan_key (skip_ws s) = (key, s1)" by force
  with assms have "key \<noteq> []" "k = key"
    by (auto simp: next_pair_def Let_def split: if_splits list.splits option.splits)
  with scan_key_clean [OF key] show ?thesis by (simp add: keyword_name_def)
qed

lemma split_names:
  "split_keyword_pairs s = Inr ps \<Longrightarrow> \<forall>(k, v)\<in>set ps. keyword_name k"
proof (induction s arbitrary: ps rule: measure_induct_rule [of length])
  case (less s)
  from less.prems consider "ps = []"
    | k v rest ps' where "next_pair s = Inr (Some ((k, v), rest))" "split_keyword_pairs rest = Inr ps'"
        "ps = (k, v) # ps'"
    by (subst (asm) split_keyword_pairs.simps) (auto split: sum.splits option.splits)
  then show ?case
  proof cases
    case 2
    with less.IH [OF next_pair_length [OF 2(1)] 2(2)] next_pair_name [OF 2(1)] show ?thesis by simp
  qed simp
qed

lemma written_back:
  "\<forall>(k, v)\<in>set ps. keyword_name k \<Longrightarrow>
     split_keyword_pairs (join [space] (map (keyword_pair escape_keyword_value) ps)) = Inr ps"
  using keyword_writer.split_written [of ps] by auto

definition segment_key :: "string \<Rightarrow> string" where
  "segment_key seg = (case split_once equals_sign seg of Some (k, v) \<Rightarrow> k | None \<Rightarrow> seg)"

definition is_ssl_segment :: "string \<Rightarrow> bool" where
  "is_ssl_segment seg =
     (case percent_decode (segment_key seg) of Inr k \<Rightarrow> to_lower k \<in> set SSL_PARAMS | Inl e \<Rightarrow> False)"

definition query_segments :: "string \<Rightarrow> string list" where
  "query_segments uri =
     (case split_once question uri of
        None \<Rightarrow> []
      | Some (base, query) \<Rightarrow> filter (\<lambda>seg. seg \<noteq> []) (split_on ampersand query))"

definition uri_base :: "string \<Rightarrow> string" where
  "uri_base uri = (case split_once question uri of None \<Rightarrow> uri | Some (base, query) \<Rightarrow> base)"

definition is_ssl_pair :: "string \<times> string \<Rightarrow> bool" where
  "is_ssl_pair p = (to_lower (fst p) \<in> set SSL_PARAMS)"

lemma sort_segments_kept:
  "sort_segments segs = Inr (ssl, kept, keys) \<Longrightarrow>
     kept = filter (\<lambda>seg. seg \<noteq> [] \<and> \<not> is_ssl_segment seg) segs"
proof (induction segs arbitrary: ssl kept keys)
  case Nil
  then show ?case by simp
next
  case (Cons seg segs)
  obtain k v where kv: "(case split_once equals_sign seg of Some kv \<Rightarrow> kv | None \<Rightarrow> (seg, [])) = (k, v)"
    by force
  then have key: "segment_key seg = k"
    by (auto simp: segment_key_def split: option.splits)
  show ?case
  proof (cases "seg = []")
    case True
    with Cons show ?thesis by simp
  next
    case False
    with Cons.prems kv obtain d where d: "percent_decode k = Inr d"
      by (auto split: sum.splits)
    show ?thesis
    proof (cases "to_lower d \<in> set SSL_PARAMS")
      case True
      with Cons.prems False kv d obtain ssl' where "sort_segments segs = Inr (ssl', kept, keys)"
        by (cases "sort_segments segs") (auto simp: Let_def split: sum.splits)
      with Cons.IH True d key False show ?thesis by (simp add: is_ssl_segment_def)
    next
      case notssl: False
      with Cons.prems False kv d obtain kept' keys' where
        "sort_segments segs = Inr (ssl, kept', keys')" "kept = seg # kept'"
        by (cases "sort_segments segs") (auto simp: Let_def split: sum.splits)
      with Cons.IH notssl d key False show ?thesis by (simp add: is_ssl_segment_def)
    qed
  qed
qed

lemma extract_uri:
  assumes "is_uri raw" "extract_ssl_params raw = Inr sp"
  shows "uri_base (rest_of_dsn sp) = uri_base raw
       \<and> query_segments (rest_of_dsn sp) = filter (\<lambda>seg. \<not> is_ssl_segment seg) (query_segments raw)"
proof (cases "split_once question raw")
  case None
  with assms show ?thesis by (auto simp: extract_ssl_params_def query_segments_def)
next
  case (Some bq)
  obtain base query where bq: "bq = (base, query)" by force
  with Some have base: "question \<notin> set base" by (simp add: split_once_Some)
  from assms Some bq obtain ssl kept keys where
    kept: "sort_segments (split_on ampersand query) = Inr (ssl, kept, keys)"
    and rest: "rest_of_dsn sp = (if kept = [] then base else base @ [question] @ join [ampersand] kept)"
    by (cases "sort_segments (split_on ampersand query)") (auto simp: extract_ssl_params_def)
  from sort_segments_kept [OF kept]
  have eq: "kept = filter (\<lambda>seg. seg \<noteq> [] \<and> \<not> is_ssl_segment seg) (split_on ampersand query)" .
  have raw: "uri_base raw = base"
    "query_segments raw = filter (\<lambda>seg. seg \<noteq> []) (split_on ampersand query)"
    using Some bq by (simp_all add: uri_base_def query_segments_def)
  show ?thesis
  proof (cases "kept = []")
    case True
    with base have "split_once question (rest_of_dsn sp) = None" by (simp add: rest split_once_None)
    with True eq raw rest show ?thesis
      by (auto simp: uri_base_def query_segments_def filter_empty_conv)
  next
    case False
    with base have s: "split_once question (rest_of_dsn sp) = Some (base, join [ampersand] kept)"
      by (simp add: rest split_once_Some)
    have "\<forall>x\<in>set kept. ampersand \<notin> set x" using eq split_on_pieces by auto
    with False have "split_on ampersand (join [ampersand] kept) = kept" by (rule split_on_join)
    with s raw eq show ?thesis
      by (auto simp: uri_base_def query_segments_def intro!: filter_cong)
  qed
qed

lemma extract_keywords:
  assumes "\<not> is_uri raw" "extract_ssl_params raw = Inr sp"
  shows "\<exists>ps. split_keyword_pairs raw = Inr ps
       \<and> split_keyword_pairs (rest_of_dsn sp) = Inr (filter (\<lambda>p. \<not> is_ssl_pair p) ps)
       \<and> ssl_params sp = map (\<lambda>(k, v). (to_lower k, v)) (filter is_ssl_pair ps)"
proof -
  from assms obtain ps where ps: "split_keyword_pairs raw = Inr ps"
    by (auto simp: extract_ssl_params_def split: sum.splits)
  have is_ssl: "(\<lambda>(key, value). to_lower key \<in> set SSL_PARAMS) = is_ssl_pair"
    by (auto simp: is_ssl_pair_def)
  from assms ps have "rest_of_dsn sp = join [space] (map (keyword_pair escape_keyword_value)
      (filter (\<lambda>p. \<not> is_ssl_pair p) ps))"
    and "ssl_params sp = map (\<lambda>(k, v). (to_lower k, v)) (filter is_ssl_pair ps)"
    by (auto simp: extract_ssl_params_def Let_def is_ssl)
  moreover have "\<forall>(k, v)\<in>set (filter (\<lambda>p. \<not> is_ssl_pair p) ps). keyword_name k"
    using split_names [OF ps] by auto
  ultimately show ?thesis using ps written_back by auto
qed

text \<open>
  C14: Pulling the SSL parameters out of a DSN loses nothing else. In a URI everything before the
  question mark is unchanged and the query keeps, verbatim and in order, exactly the non-empty segments
  whose decoded key is not an SSL parameter. In a keyword string the remainder reads back as exactly
  the other pairs, whatever quoting their values need, and the SSL pairs are the rest.
\<close>

theorem extract_keeps_the_rest:
  assumes "extract_ssl_params raw = Inr sp"
  shows "if is_uri raw
         then uri_base (rest_of_dsn sp) = uri_base raw
            \<and> query_segments (rest_of_dsn sp) = filter (\<lambda>seg. \<not> is_ssl_segment seg) (query_segments raw)
         else \<exists>ps. split_keyword_pairs raw = Inr ps
            \<and> split_keyword_pairs (rest_of_dsn sp) = Inr (filter (\<lambda>p. \<not> is_ssl_pair p) ps)
            \<and> ssl_params sp = map (\<lambda>(k, v). (to_lower k, v)) (filter is_ssl_pair ps)"
  using extract_uri [OF _ assms] extract_keywords [OF _ assms] by simp

theorem extract_keeps_the_rest_witness:
  "\<exists>sp. extract_ssl_params ''host=h sslmode=require dbname=d'' = Inr sp
      \<and> split_keyword_pairs (rest_of_dsn sp) = Inr [(''host'', ''h''), (''dbname'', ''d'')]"
proof -
  have pairs: "split_keyword_pairs ''host=h sslmode=require dbname=d''
      = Inr [(''host'', ''h''), (''sslmode'', ''require''), (''dbname'', ''d'')]"
    by code_simp
  have not_uri: "\<not> is_uri ''host=h sslmode=require dbname=d''" by code_simp
  from pairs obtain sp where sp: "extract_ssl_params ''host=h sslmode=require dbname=d'' = Inr sp"
    using not_uri by (simp add: extract_ssl_params_def Let_def)
  have others: "filter (\<lambda>p. \<not> is_ssl_pair p) [(''host'', ''h''), (''sslmode'', ''require''), (''dbname'', ''d'')]
      = [(''host'', ''h''), (''dbname'', ''d'')]"
    by code_simp
  from extract_keeps_the_rest [OF sp] have
    "split_keyword_pairs (rest_of_dsn sp) = Inr [(''host'', ''h''), (''dbname'', ''d'')]"
    unfolding if_not_P [OF not_uri] pairs sum.inject others [symmetric] by blast
  with sp show ?thesis by blast
qed

text \<open>
  C15: The driver's parser is never handed an SSL parameter, which it would reject: two parsers that
  agree on strings without SSL parameters (among the query segments of a URI, among the pairs of a
  keyword string) give the same result for every DSN.
\<close>

theorem driver_never_sees_ssl:
  assumes "\<And>s. (if is_uri (trim raw) then list_all (\<lambda>seg. \<not> is_ssl_segment seg) (query_segments s)
                 else (\<exists>ps. split_keyword_pairs s = Inr ps \<and> list_all (\<lambda>p. \<not> is_ssl_pair p) ps))
             \<Longrightarrow> f s = g s"
  shows "parse f raw = parse g raw"
proof (cases "extract_ssl_params (trim raw)")
  case (Inl e)
  then show ?thesis by (simp add: parse_def Let_def)
next
  case (Inr sp)
  have "f (rest_of_dsn sp) = g (rest_of_dsn sp)"
    using extract_uri [OF _ Inr] extract_keywords [OF _ Inr] by (intro assms) (auto simp: list_all_iff)
  with Inr show ?thesis by (simp add: parse_def Let_def)
qed

definition strict_parser :: "string \<Rightarrow> string \<Rightarrow> string + pg_config" where
  "strict_parser bad s =
     (if s = bad then Inl ''unknown option''
      else Inr \<lparr>cfg_hosts = [Tcp ''h''], cfg_ports = [5432], cfg_dbname = Some ''d'', cfg_user = None,
                cfg_password = None, cfg_connect_timeout = None\<rparr>)"

theorem driver_never_sees_ssl_witness:
  "parse (strict_parser ''postgres://h/d?sslmode=require'') ''postgres://h/d?sslmode=require''
   = parse (strict_parser ''postgres://h/d?sslkey=k'') ''postgres://h/d?sslmode=require''"
proof (rule driver_never_sees_ssl)
  fix s
  have "is_uri (trim ''postgres://h/d?sslmode=require'')"
    and bad: "\<not> list_all (\<lambda>seg. \<not> is_ssl_segment seg) (query_segments ''postgres://h/d?sslmode=require'')"
      "\<not> list_all (\<lambda>seg. \<not> is_ssl_segment seg) (query_segments ''postgres://h/d?sslkey=k'')"
    by code_simp+
  moreover assume "if is_uri (trim ''postgres://h/d?sslmode=require'')
     then list_all (\<lambda>seg. \<not> is_ssl_segment seg) (query_segments s)
     else (\<exists>ps. split_keyword_pairs s = Inr ps \<and> list_all (\<lambda>p. \<not> is_ssl_pair p) ps)"
  ultimately have "list_all (\<lambda>seg. \<not> is_ssl_segment seg) (query_segments s)" by meson
  with bad have "s \<noteq> ''postgres://h/d?sslmode=require''" "s \<noteq> ''postgres://h/d?sslkey=k''" by metis+
  then show "strict_parser ''postgres://h/d?sslmode=require'' s = strict_parser ''postgres://h/d?sslkey=k'' s"
    unfolding strict_parser_def by (simp only: if_False)
qed

section \<open>The authority of a URI\<close>

definition in_authority :: "string \<Rightarrow> bool" where
  "in_authority s = (slash \<notin> set s \<and> question \<notin> set s)"

definition is_scheme :: "string \<Rightarrow> bool" where
  "is_scheme s = (to_lower s = ''postgres://'' \<or> to_lower s = ''postgresql://'')"

definition ends_authority :: "string \<Rightarrow> bool" where
  "ends_authority tail = (tail = [] \<or> hd tail = slash \<or> hd tail = question)"

lemma to_lower_append [simp]: "to_lower (a @ b) = to_lower a @ to_lower b"
  by (simp add: to_lower_def)

lemma length_to_lower [simp]: "length (to_lower s) = length s"
  by (simp add: to_lower_def)

lemma to_lower_Cons [simp]: "to_lower (c # s) = ascii_lower c # to_lower s" "to_lower [] = []"
  by (simp_all add: to_lower_def)

lemma is_uri_scheme: "is_scheme scheme \<Longrightarrow> is_uri (scheme @ s)"
  unfolding is_scheme_def is_uri_def by (elim disjE) (simp_all add: starts_with_def)

lemma ascii_lower_slash: "ascii_lower c = slash \<longleftrightarrow> c = slash"
proof -
  have "c = slash" if "ascii_lower c = slash"
  proof (cases "65 \<le> (of_char c :: nat) \<and> of_char c \<le> (90 :: nat)")
    case True
    with that have "char_of (of_char c + 32 :: nat) = slash" by (simp add: ascii_lower_def Let_def)
    then have "of_char (char_of (of_char c + 32 :: nat)) = (of_char slash :: nat)" by simp
    with True show ?thesis by simp
  next
    case False
    with that show ?thesis by (auto simp: ascii_lower_def Let_def)
  qed
  moreover have "ascii_lower slash = slash" by (simp add: ascii_lower_def)
  ultimately show ?thesis by auto
qed

lemma scheme_form:
  assumes "is_scheme scheme"
  obtains p where "scheme = p @ [slash, slash]" "slash \<notin> set p" "at_sign \<notin> set p"
proof -
  from assms obtain a where a: "map ascii_lower scheme = a @ [slash, slash]" "slash \<notin> set a" "at_sign \<notin> set a"
  proof -
    assume *: "\<And>a. map ascii_lower scheme = a @ [slash, slash] \<Longrightarrow> slash \<notin> set a \<Longrightarrow> at_sign \<notin> set a \<Longrightarrow> thesis"
    from assms show thesis
      unfolding is_scheme_def to_lower_def
      by (elim disjE) (rule * [of "''postgres:''"] * [of "''postgresql:''"]; simp)+
  qed
  from a(1) obtain p y where py: "scheme = p @ y" "a = map ascii_lower p" "map ascii_lower y = [slash, slash]"
    by (metis map_eq_append_conv)
  then have "y = [slash, slash]" by (auto simp: map_eq_Cons_conv ascii_lower_slash)
  moreover have "slash \<notin> set p" using a(2) py(2) by (metis ascii_lower_slash image_eqI list.set_map)
  moreover have "ascii_lower at_sign = at_sign" by (simp add: ascii_lower_def)
  then have "at_sign \<notin> set p" using a(3) py(2) by (metis image_eqI list.set_map)
  ultimately show thesis using that py(1) by blast
qed

lemma after_double_slash_first:
  "slash \<notin> set p \<Longrightarrow> after_double_slash (p @ slash # slash # s) = Some s"
proof (induction p)
  case Nil
  show ?case by simp
next
  case (Cons c p)
  then show ?case by (cases p) auto
qed

lemma takeWhile_authority:
  assumes "in_authority a" "ends_authority tail"
  shows "takeWhile (\<lambda>c. c \<noteq> slash \<and> c \<noteq> question) (a @ tail) = a"
proof -
  have "\<forall>c\<in>set a. c \<noteq> slash \<and> c \<noteq> question" using assms(1) by (auto simp: in_authority_def)
  with assms(2) show ?thesis
    by (cases tail) (auto simp: takeWhile_append ends_authority_def)
qed

lemma uri_authority_of:
  assumes "is_scheme scheme" "in_authority a" "ends_authority tail"
  shows "uri_authority (scheme @ a @ tail) = a"
proof -
  from assms(1) obtain p where "scheme = p @ [slash, slash]" "slash \<notin> set p" by (rule scheme_form)
  then show ?thesis
    using takeWhile_authority [OF assms(2,3)]
    by (simp add: uri_authority_def after_double_slash_first)
qed

section \<open>The port\<close>

text \<open>A host name, an IPv4 address or a bracketed IPv6 address; and what follows it.\<close>

definition is_hostname :: "string \<Rightarrow> bool" where
  "is_hostname h =
     (in_authority h \<and> at_sign \<notin> set h
      \<and> (colon \<notin> set h \<and> close_bracket \<notin> set h \<or> h \<noteq> [] \<and> last h = close_bracket))"

definition is_port_part :: "string \<Rightarrow> bool" where
  "is_port_part p =
     (p = [] \<or> hd p = colon \<and> in_authority p \<and> at_sign \<notin> set p \<and> close_bracket \<notin> set p)"

definition is_userinfo :: "string \<Rightarrow> bool" where
  "is_userinfo u = (u = [] \<or> last u = at_sign \<and> in_authority u)"

lemma host_part_of_authority:
  assumes "is_userinfo ui" "at_sign \<notin> set hp"
  shows "(case rsplit_once at_sign (ui @ hp) of Some (_, h) \<Rightarrow> h | None \<Rightarrow> ui @ hp) = hp"
proof (cases "ui = []")
  case True
  moreover have "rsplit_once at_sign hp = None" using assms(2) by (simp add: rsplit_once_None)
  ultimately show ?thesis by simp
next
  case False
  with assms(1) have "ui = butlast ui @ [at_sign]"
    by (metis append_butlast_last_id is_userinfo_def)
  then have "rsplit_once at_sign (ui @ hp) = Some (butlast ui, hp)"
    using assms(2) by (metis append_Cons append_Nil append_assoc rsplit_once_Some)
  then show ?thesis by simp
qed

lemma port_part_of_host:
  assumes "is_hostname host" "is_port_part port"
  shows "(case rsplit_once close_bracket (host @ port) of
      Some (_, after) \<Rightarrow> starts_with [colon] after | None \<Rightarrow> colon \<in> set (host @ port)) \<longleftrightarrow> port \<noteq> []"
proof -
  have port: "close_bracket \<notin> set port" "port \<noteq> [] \<Longrightarrow> hd port = colon"
    using assms(2) by (auto simp: is_port_part_def)
  show ?thesis
  proof (cases "close_bracket \<in> set host")
    case True
    with assms(1) have "host = butlast host @ [close_bracket]"
      by (metis append_butlast_last_id empty_iff is_hostname_def list.set(1))
    with port have "rsplit_once close_bracket (host @ port) = Some (butlast host, port)"
      by (metis append_Cons append_Nil append_assoc rsplit_once_Some)
    with port show ?thesis by (cases port) (auto simp: starts_with_def)
  next
    case False
    with assms(1) have "colon \<notin> set host"
      by (metis is_hostname_def last_in_set)
    moreover have "rsplit_once close_bracket (host @ port) = None"
      using False port by (simp add: rsplit_once_None)
    ultimately show ?thesis using port by (cases port) auto
  qed
qed

lemma explicit_port:
  assumes "is_scheme scheme" "is_userinfo ui" "is_hostname host" "is_port_part port" "ends_authority tail"
  shows "uri_has_explicit_port (scheme @ ui @ host @ port @ tail) \<longleftrightarrow> port \<noteq> []"
proof -
  have auth: "in_authority (ui @ host @ port)"
    using assms by (auto simp: is_userinfo_def is_hostname_def is_port_part_def in_authority_def)
  have "at_sign \<notin> set (host @ port)"
    using assms by (auto simp: is_hostname_def is_port_part_def)
  note hostpart = host_part_of_authority [OF assms(2) this]
  have authority: "uri_authority (scheme @ ui @ host @ port @ tail) = ui @ host @ port"
    using uri_authority_of [OF assms(1) auth assms(5)] by simp
  show ?thesis
    unfolding uri_has_explicit_port_def Let_def authority hostpart
    by (rule port_part_of_host [OF assms(3,4)])
qed

lemma apply_ssl_port: "apply_ssl ssl p = Inr q \<Longrightarrow> dsn_port q = dsn_port p"
  by (induction ssl p rule: apply_ssl.induct) (auto split: if_splits sum.splits)

text \<open>
  A URI's port is reported exactly when the URI names one: for every scheme, user information
  (colons included), host (an IPv6 address in brackets included) and tail, a parse that succeeds
  reports the driver's first port if the authority ends in a port and none otherwise, although the
  driver always fills one in.
\<close>

theorem port_reported_iff_named:
  assumes "trim raw = scheme @ ui @ host @ port @ tail"
    and "is_scheme scheme" "is_userinfo ui" "is_hostname host" "is_port_part port" "ends_authority tail"
    and "\<And>s c. from_str s = Inr c \<Longrightarrow> cfg_ports c = ps"
    and "parse from_str raw = Inr p"
  shows "dsn_port p = (if port = [] then None else case ps of [] \<Rightarrow> None | n # _ \<Rightarrow> Some n)"
proof -
  from assms(8) obtain sp cfg where
    sp: "from_str (rest_of_dsn sp) = Inr cfg"
      "apply_ssl (ssl_params sp) (fields_of_config (trim raw) sp cfg) = Inr p"
    by (auto simp: parse_def Let_def split: if_splits sum.splits)
  have "is_uri (trim raw)" using assms(1,2) by (simp add: is_uri_scheme)
  moreover have "uri_has_explicit_port (trim raw) \<longleftrightarrow> port \<noteq> []"
    using explicit_port assms(2-6) unfolding assms(1) by blast
  ultimately show ?thesis
    using apply_ssl_port [OF sp(2)] assms(7) [OF sp(1)] by (simp add: fields_of_config_def)
qed

theorem port_reported_iff_named_witness:
  "\<exists>p. parse (strict_parser []) ''postgres://u:p@[::1]:5432/d'' = Inr p \<and> dsn_port p = Some 5432"
proof -
  have trimmed: "trim ''postgres://u:p@[::1]:5432/d'' = ''postgres://'' @ ''u:p@'' @ ''[::1]'' @ '':5432'' @ ''/d''"
    by code_simp
  obtain p where p: "parse (strict_parser []) ''postgres://u:p@[::1]:5432/d'' = Inr p"
  proof -
    have "case parse (strict_parser []) ''postgres://u:p@[::1]:5432/d'' of Inr p \<Rightarrow> True | Inl e \<Rightarrow> False"
      by code_simp
    then show thesis using that by (auto split: sum.splits)
  qed
  have "dsn_port p = (if '':5432'' = [] then None else case [5432] of [] \<Rightarrow> None | n # _ \<Rightarrow> Some n)"
  proof (rule port_reported_iff_named [OF trimmed _ _ _ _ _ _ p])
    show "is_scheme ''postgres://''" "is_userinfo ''u:p@''" "is_hostname ''[::1]''"
      "is_port_part '':5432''" "ends_authority ''/d''"
      by code_simp+
    show "cfg_ports c = [5432]" if "strict_parser [] s = Inr c" for s c
      using that by (auto simp: strict_parser_def split: if_splits)
  qed
  with p show ?thesis by simp
qed

section \<open>Percent encoding\<close>

definition hex_char :: "nat \<Rightarrow> char" where
  "hex_char n = (if n < 10 then char_of (0x30 + n) else char_of (0x41 + (n - 10)))"

text \<open>The characters RFC 3986 lets stand for themselves; every other byte is escaped.\<close>

definition unreserved :: "char \<Rightarrow> bool" where
  "unreserved c = (byte_in c 0x41 0x5A \<or> byte_in c 0x61 0x7A \<or> byte_in c 0x30 0x39
                   \<or> c \<in> set ''-._~'')"

definition percent_encode :: "string \<Rightarrow> string" where
  "percent_encode s = concat (map (\<lambda>c. if unreserved c then [c]
     else [percent, hex_char (of_char c div 16), hex_char (of_char c mod 16)]) s)"

lemma hex_digit_char: "n < 16 \<Longrightarrow> hex_digit (hex_char n) = Some n"
  by (auto simp: hex_digit_def hex_char_def byte_in_def)

lemma hex_char_plain: "n < 16 \<Longrightarrow> hex_char n \<noteq> CHR ''+''"
  using hex_digit_char [of n] by (auto simp: hex_digit_def byte_in_def)

lemma of_char_less: "(of_char (c :: char) :: nat) < 256"
  by simp

lemma hex_pair_char: "hex_pair (hex_char (of_char c div 16)) (hex_char (of_char c mod 16)) = Some c"
proof -
  have "of_char c div 16 < (16 :: nat)" using of_char_less [of c] by linarith
  then show ?thesis by (simp add: hex_pair_def hex_digit_char hex_char_plain)
qed

lemma unreserved_plain: "unreserved c \<Longrightarrow> c \<noteq> percent \<and> \<not> is_continuation c"
  by (auto simp: unreserved_def is_continuation_def byte_in_def)

lemma encode_head: "percent_encode s \<noteq> [] \<Longrightarrow> \<not> is_continuation (hd (percent_encode s))"
proof (cases s)
  case (Cons c t)
  have "\<not> is_continuation percent" by (simp add: is_continuation_def byte_in_def)
  with Cons unreserved_plain [of c] show ?thesis by (simp add: percent_encode_def)
qed (simp add: percent_encode_def)

lemma decode_plain:
  assumes "a \<noteq> percent"
  shows "percent_decode_bytes (a # s) = map_sum id (\<lambda>out. a # out) (percent_decode_bytes s)"
  using assms by (cases s; cases "tl s"; cases "tl (tl s)") auto

lemma decode_encoded: "percent_decode_bytes (percent_encode s) = Inr s"
proof (induction s)
  case Nil
  show ?case by (simp add: percent_encode_def)
next
  case (Cons c s)
  show ?case
  proof (cases "unreserved c")
    case True
    then have "percent_encode (c # s) = c # percent_encode s" by (simp add: percent_encode_def)
    with Cons True unreserved_plain [of c] show ?thesis by (simp add: decode_plain)
  next
    case False
    then have "percent_encode (c # s) =
        percent # hex_char (of_char c div 16) # hex_char (of_char c mod 16) # percent_encode s"
      by (simp add: percent_encode_def)
    with Cons encode_head [of s] show ?thesis by (auto simp: hex_pair_char)
  qed
qed

text \<open>
  Percent-decoding a percent-encoded text gives the text back, whatever characters it contains.
\<close>

theorem percent_roundtrip:
  assumes "valid_utf8 s"
  shows "percent_decode (percent_encode s) = Inr s"
  using assms by (simp add: percent_decode_def decode_encoded lossy_valid)

theorem percent_roundtrip_witness:
  "percent_decode (percent_encode [CHR ''a'', CHR 0x40, CHR 0xC3, CHR 0xA9, CHR 0x25]) =
     Inr [CHR ''a'', CHR 0x40, CHR 0xC3, CHR 0xA9, CHR 0x25]"
  by (rule percent_roundtrip) code_simp

lemma decode_prefix:
  assumes "percent \<notin> set pre"
  shows "percent_decode_bytes (pre @ s) = map_sum id (\<lambda>out. pre @ out) (percent_decode_bytes s)"
  using assms
proof (induction pre)
  case Nil
  show ?case by (cases "percent_decode_bytes s") simp_all
next
  case (Cons a pre)
  then have "a \<noteq> percent" by auto
  with Cons show ?case
    using decode_plain [of a "pre @ s"] by (cases "percent_decode_bytes s") simp_all
qed

text \<open>
  The decoder panics on some texts. If the third byte after the first percent sign continues a
  multi-byte character, the slice of two bytes ends inside that character: the decoder neither decodes
  the escape nor leaves it as it is.
\<close>

theorem percent_decode_panics:
  assumes "percent \<notin> set pre" "is_continuation c"
  shows "percent_decode (pre @ percent # a # b # c # s) = Inl Panicked"
  using assms by (simp add: percent_decode_def decode_prefix)

theorem percent_decode_panics_witness:
  "percent_decode [CHR ''k'', CHR 0x25, CHR ''4'', CHR 0xC3, CHR 0xA9] = Inl Panicked"
  using percent_decode_panics [of "''k''" "CHR 0xA9" "CHR ''4''" "CHR 0xC3" "[]"]
  by (simp add: is_continuation_def byte_in_def)

section \<open>Redaction\<close>

lemma starts_with_before_slash:
  assumes "starts_with pat (y @ slash # z)" "slash \<notin> set pat"
  shows "set pat \<subseteq> set y"
proof (cases "length pat \<le> length y")
  case True
  with assms(1) have "pat = take (length pat) y" by (simp add: starts_with_def)
  then show ?thesis by (metis set_take_subset)
next
  case False
  with assms(1) have "pat = y @ slash # take (length pat - Suc (length y)) z"
    by (auto simp: starts_with_def take_Cons')
  with assms(2) show ?thesis by (metis in_set_conv_decomp)
qed

lemma replace_first_skip:
  assumes "at_sign \<in> set pat" "slash \<notin> set pat" "at_sign \<notin> set p"
  shows "replace_first pat r (p @ slash # s) = p @ slash # replace_first pat r s"
  using assms(3)
proof (induction p)
  case Nil
  have "\<not> starts_with pat ([] @ slash # s)"
    using starts_with_before_slash [of pat "[]" s] assms(1,2) by auto
  then show ?case by simp
next
  case (Cons c p)
  have "\<not> starts_with pat ((c # p) @ slash # s)"
    using starts_with_before_slash [of pat "c # p" s] assms(1,2) Cons.prems by auto
  with Cons show ?case by simp
qed

lemma replace_first_authority:
  assumes "is_scheme scheme" "in_authority a" "at_sign \<in> set a"
  shows "replace_first a r (scheme @ a @ tail) = scheme @ r @ tail"
proof -
  from assms(1) obtain p where p: "scheme = p @ [slash, slash]" "at_sign \<notin> set p" by (rule scheme_form)
  have "slash \<notin> set a" using assms(2) by (simp add: in_authority_def)
  then have "replace_first a r (scheme @ a @ tail) = scheme @ replace_first a r (a @ tail)"
    using replace_first_skip [of a p r "slash # a @ tail"] replace_first_skip [of a "[]" r "a @ tail"]
      assms(3) p by simp
  moreover have "replace_first a r (a @ tail) = r @ tail"
    using assms(3) by (cases a) (auto simp: starts_with_def)
  ultimately show ?thesis by simp
qed

lemma redact_no_userinfo:
  assumes "is_uri (trim raw)" "at_sign \<notin> set (uri_authority (trim raw))"
  shows "redact raw = trim raw"
proof -
  have "rsplit_once at_sign (uri_authority (trim raw)) = None" using assms(2) by (simp add: rsplit_once_None)
  with assms(1) show ?thesis by (simp add: redact_def Let_def)
qed

text \<open>The part of a text before its first slash or question mark.\<close>

definition authority_part :: "string \<Rightarrow> string" where
  "authority_part = takeWhile (\<lambda>c. c \<noteq> slash \<and> c \<noteq> question)"

lemma in_authority_part: "in_authority (authority_part s)"
  by (auto simp: in_authority_def authority_part_def dest: set_takeWhileD)

lemma authority_part_split:
  assumes "\<not> in_authority s"
  obtains rest where "s = authority_part s @ rest" "ends_authority (rest @ t)"
proof
  let ?P = "\<lambda>c. c \<noteq> slash \<and> c \<noteq> question"
  show "s = authority_part s @ dropWhile ?P s" by (simp add: authority_part_def)
  from assms have "dropWhile ?P s \<noteq> []" by (auto simp: in_authority_def)
  then show "ends_authority (dropWhile ?P s @ t)"
    using hd_dropWhile [of ?P s] by (cases "dropWhile ?P s") (auto simp: ends_authority_def)
qed

text \<open>
  C12: When a URI prints its password and when not. A URI carries user information with a password (any
  text, colon and at sign included). If slash and question mark are percent-encoded in the password, as the
  syntax of URIs demands, what \<open>redact\<close> prints is the URI with that password replaced by three stars, so it
  does not depend on the password. But if one of them occurs raw in the password, with no at sign before it,
  the URI is printed as it is, with the password in full.
\<close>

theorem redact_masks_uri_password:
  assumes "trim raw = scheme @ user @ [colon] @ pw @ [at_sign] @ host @ tail"
    and "is_scheme scheme" "in_authority user" "colon \<notin> set user"
      "in_authority host" "at_sign \<notin> set host" "ends_authority tail"
  shows "(in_authority pw \<longrightarrow> redact raw = scheme @ user @ [colon] @ MASK @ [at_sign] @ host @ tail)
     \<and> (\<not> in_authority pw \<and> at_sign \<notin> set (user @ authority_part pw) \<longrightarrow>
          redact raw = scheme @ user @ [colon] @ pw @ [at_sign] @ host @ tail)"
proof (intro conjI impI)
  have uri: "is_uri (trim raw)" unfolding assms(1) using assms(2) by (rule is_uri_scheme)
  show "redact raw = scheme @ user @ [colon] @ MASK @ [at_sign] @ host @ tail" if "in_authority pw"
  proof -
    let ?a = "user @ [colon] @ pw @ [at_sign] @ host"
    have trimmed: "trim raw = scheme @ ?a @ tail" using assms(1) by simp
    have a: "in_authority ?a" using assms that by (auto simp: in_authority_def)
    have "rsplit_once at_sign ?a = Some (user @ [colon] @ pw, host)"
      using assms(6) by (simp add: rsplit_once_Some)
    moreover have "split_once colon (user @ [colon] @ pw) = Some (user, pw)"
      using assms(4) by (simp add: split_once_Some)
    moreover have "uri_authority (trim raw) = ?a"
      unfolding trimmed using uri_authority_of assms(2,7) a by blast
    ultimately have "redact raw = replace_first ?a (user @ [colon] @ MASK @ [at_sign] @ host) (trim raw)"
      using uri unfolding redact_def Let_def by simp
    also have "\<dots> = scheme @ (user @ [colon] @ MASK @ [at_sign] @ host) @ tail"
      unfolding trimmed using assms(2) a by (rule replace_first_authority) simp
    finally show ?thesis by simp
  qed
  show "redact raw = scheme @ user @ [colon] @ pw @ [at_sign] @ host @ tail"
    if "\<not> in_authority pw \<and> at_sign \<notin> set (user @ authority_part pw)"
  proof -
    let ?t = "[at_sign] @ host @ tail" and ?a = "user @ [colon] @ authority_part pw"
    from that obtain rest where rest: "pw = authority_part pw @ rest" "ends_authority (rest @ ?t)"
      using authority_part_split by blast
    have trimmed: "trim raw = scheme @ ?a @ (rest @ ?t)" using assms(1) rest(1) by (metis append_assoc)
    have a: "in_authority ?a" using assms(3) in_authority_part [of pw] by (auto simp: in_authority_def)
    have "uri_authority (trim raw) = ?a"
      unfolding trimmed using uri_authority_of [OF assms(2) a rest(2)] .
    with that have "at_sign \<notin> set (uri_authority (trim raw))" by simp
    from redact_no_userinfo [OF uri this] show ?thesis using assms(1) by simp
  qed
qed

theorem redact_masks_uri_password_witness:
  "redact ''postgres://me:p@s:s@db:5432/d'' = ''postgres://me:***@db:5432/d''
   \<and> redact ''postgres://me:p/ss@db:5432/d'' = ''postgres://me:p/ss@db:5432/d''"
proof
  have "redact ''postgres://me:p@s:s@db:5432/d'' =
      ''postgres://'' @ ''me'' @ [colon] @ MASK @ [at_sign] @ ''db:5432'' @ ''/d''"
    by (rule redact_masks_uri_password [where pw = "''p@s:s''", THEN conjunct1, THEN mp]) code_simp+
  then show "redact ''postgres://me:p@s:s@db:5432/d'' = ''postgres://me:***@db:5432/d''" by (simp add: MASK_def)
  have "redact ''postgres://me:p/ss@db:5432/d'' =
      ''postgres://'' @ ''me'' @ [colon] @ ''p/ss'' @ [at_sign] @ ''db:5432'' @ ''/d''"
    by (rule redact_masks_uri_password [THEN conjunct2, THEN mp]) code_simp+
  then show "redact ''postgres://me:p/ss@db:5432/d'' = ''postgres://me:p/ss@db:5432/d''" by simp
qed

text \<open>
  But a URI without user information is printed as it is, query included, so a password given
  there (\<open>?password=\<close>, which the driver accepts) is printed in full.
\<close>

theorem redact_prints_query:
  assumes "is_uri (trim raw)" "at_sign \<notin> set (uri_authority (trim raw))"
  shows "redact raw = trim raw"
  using assms by (rule redact_no_userinfo)

theorem redact_prints_query_witness:
  "redact ''postgres://db/d?user=me&password=secret'' = ''postgres://db/d?user=me&password=secret''"
proof -
  have trimmed: "trim ''postgres://db/d?user=me&password=secret'' = ''postgres://db/d?user=me&password=secret''"
    by code_simp
  have "redact ''postgres://db/d?user=me&password=secret'' = trim ''postgres://db/d?user=me&password=secret''"
    by (rule redact_prints_query) code_simp+
  with trimmed show ?thesis by simp
qed

definition masked :: "string \<times> string \<Rightarrow> string \<times> string" where
  "masked p = (fst p, if to_lower (fst p) = ''password'' then MASK else snd p)"

lemma mask_pair_eq: "mask_pair p = keyword_pair escape_keyword_value (masked p)"
proof -
  have "escape_keyword_value MASK = MASK" by code_simp
  then show ?thesis by (simp add: mask_pair_def masked_def keyword_pair_def)
qed

text \<open>
  C13: What \<open>redact\<close> prints of a keyword string is again a keyword string, with the same parameters and
  values except that every \<open>password\<close>, in whatever case it is written, has three stars as its value;
  and a string it cannot read is not printed at all.
\<close>

theorem redact_masks_keyword_password:
  assumes "\<not> is_uri (trim raw)"
  shows "case split_keyword_pairs (trim raw) of
           Inr ps \<Rightarrow> split_keyword_pairs (redact raw) = Inr (map masked ps)
         | Inl e \<Rightarrow> redact raw = ''[REDACTED]''"
proof (cases "split_keyword_pairs (trim raw)")
  case (Inl e)
  with assms show ?thesis by (simp add: redact_def Let_def)
next
  case (Inr ps)
  have "\<forall>(k, v)\<in>set (map masked ps). keyword_name k"
    using split_names [OF Inr] by (auto simp: masked_def)
  then have "split_keyword_pairs (join [space] (map (keyword_pair escape_keyword_value) (map masked ps)))
      = Inr (map masked ps)" by (rule written_back)
  moreover have "redact raw = join [space] (map mask_pair ps)"
    using assms Inr by (simp add: redact_def Let_def)
  moreover have "mask_pair = keyword_pair escape_keyword_value \<circ> masked"
    by (rule ext) (simp add: mask_pair_eq)
  ultimately show ?thesis using Inr by simp
qed

theorem redact_masks_keyword_password_witness:
  "split_keyword_pairs (redact ''host=h Password=s3cret'') = Inr [(''host'', ''h''), (''Password'', ''***'')]"
proof -
  have "split_keyword_pairs (trim ''host=h Password=s3cret'') = Inr [(''host'', ''h''), (''Password'', ''s3cret'')]"
    by code_simp
  moreover have "\<not> is_uri (trim ''host=h Password=s3cret'')" by code_simp
  moreover have "map masked [(''host'', ''h''), (''Password'', ''s3cret'')] = [(''host'', ''h''), (''Password'', ''***'')]"
    by code_simp
  ultimately show ?thesis using redact_masks_keyword_password [of "''host=h Password=s3cret''"] by simp
qed

end
