(* ===== verification/Shutdown.thy ===== *)
theory Shutdown
  imports Session_Setup
begin

text \<open>
  The shutdown watcher (\<open>src/shutdown.rs\<close>): a task beside the run that receives the signals and, over a
  control connection of its own, cancels or terminates the statement of the maintenance session.

  The server as the control connection sees it is a world that calls of a control record observe and change.
  The signals still to come are a list with their arrival times; \<open>rx.recv()\<close> takes the next one, at its
  time or at once when it waits in the channel. The senders live as long as the program, so that after the
  last signal a \<open>recv\<close> never answers: the watcher then waits for ever, and a sleep that races with it
  always ends by itself. Its counter is a \<open>u32\<close>; that it wraps after four billion signals is left out.
\<close>

section \<open>Decisions\<close>

datatype shutdown_action = NoAction | CancelStatement | TerminateSession

definition plan_action :: "shutdown_mode \<Rightarrow> nat \<Rightarrow> bool \<Rightarrow> shutdown_action" where
  "plan_action mode signal_count backend_active =
     (if mode = Finish \<or> \<not> backend_active then NoAction
      else if mode = Terminate then TerminateSession
      else if 2 \<le> signal_count then TerminateSession
      else CancelStatement)"

section \<open>The activity of the session\<close>

record activity_row =
  act_pid :: int
  act_state :: "string option"
  act_query :: "string option"
  act_query_start :: "string option"

record backend_state =
  active :: bool
  maintenance_running :: bool
  query_start :: "string option"

text \<open>
  The pattern \<open>^\s*(vacuum|analyze)\y\<close>, matched without regard to case: after white space one of the
  words, with no further word character behind it.
\<close>

definition space_char :: "char \<Rightarrow> bool" where
  "space_char c = (c = space \<or> (9 \<le> (of_char c :: nat) \<and> (of_char c :: nat) \<le> 13))"

definition word_char :: "char \<Rightarrow> bool" where
  "word_char c =
     (let n = of_char c :: nat in
      48 \<le> n \<and> n \<le> 57 \<or> 65 \<le> n \<and> n \<le> 90 \<or> 97 \<le> n \<and> n \<le> 122 \<or> n = 95 \<or> 128 \<le> n)"

definition begins_with_word :: "string \<Rightarrow> string \<Rightarrow> bool" where
  "begins_with_word w s =
     (starts_with w s \<and> (case drop (length w) s of [] \<Rightarrow> True | c # _ \<Rightarrow> \<not> word_char c))"

definition maintenance_query :: "string \<Rightarrow> bool" where
  "maintenance_query sql =
     (let s = to_lower (dropWhile space_char sql)
      in begins_with_word ''vacuum'' s \<or> begins_with_word ''analyze'' s)"

text \<open>
  \<open>GET_BACKEND_ACTIVITY\<close> on the rows of \<open>pg_stat_activity\<close>, in which a \<open>pid\<close> occurs once; \<open>coalesce\<close>
  turns an unknown state or query into false. A session that is gone is inactive.
\<close>

definition GET_BACKEND_ACTIVITY :: "int \<Rightarrow> activity_row list \<Rightarrow> backend_state option" where
  "GET_BACKEND_ACTIVITY pid rows =
     map_option (\<lambda>r. \<lparr>active = (act_state r = Some ''active''),
       maintenance_running = (act_state r = Some ''active'' \<and>
         (case act_query r of Some q \<Rightarrow> maintenance_query q | None \<Rightarrow> False)),
       query_start = act_query_start r\<rparr>)
     (find (\<lambda>r. act_pid r = pid) rows)"

definition gone :: backend_state where
  "gone = \<lparr>active = False, maintenance_running = False, query_start = None\<rparr>"

section \<open>The world of the watcher\<close>

record 'w control =
  ctl_tls :: tls_library
  ctl_files :: "'w \<Rightarrow> file_reader"
  ctl_connect :: "transport \<Rightarrow> driver_config \<Rightarrow> ('w, pg_error + unit) call"
  ctl_activity :: "('w, pg_error + activity_row list) call"
  ctl_cancel :: "int \<Rightarrow> ('w, pg_error + bool) call"
  ctl_terminate :: "int \<Rightarrow> ('w, pg_error + bool) call"
  ctl_elapse :: "nat \<Rightarrow> 'w \<Rightarrow> 'w"

text \<open>What the watcher does, apart from its log: the signals it receives, its calls, and its waits.\<close>

datatype watch_event =
  WSignal | WConnect bool | WState "backend_state option" | WCancel | WTerminate
  | WWait nat | WInterrupted nat | WLog log_level string

record 'w watcher =
  w_world :: 'w
  w_clock :: nat
  signals :: "(nat \<times> string) list"
  signal_count :: nat
  control_open :: bool
  w_trace :: "watch_event list"

record watcher_config =
  wc_mode :: shutdown_mode
  wc_grace_seconds :: nat
  wc_pid :: int
  wc_connection :: string
  wc_ssl :: ssl_options

text \<open>The watcher that \<open>main\<close> spawns once it has a session, unless signals are only to be waited out.\<close>

definition watcher_config_of :: "args \<Rightarrow> connection_config \<Rightarrow> int \<Rightarrow> watcher_config option" where
  "watcher_config_of a cfg backend_pid =
     (if arg_shutdown_mode a \<noteq> Finish
      then Some \<lparr>wc_mode = arg_shutdown_mode a, wc_grace_seconds = arg_shutdown_grace_seconds a,
        wc_pid = backend_pid, wc_connection = build_connection_string cfg, wc_ssl = ssl_options_of cfg\<rparr>
      else None)"

type_synonym ('w, 'a) watch = "('w watcher, 'a) state"

definition w_emit :: "watch_event \<Rightarrow> ('w, unit) watch" where
  "w_emit e = State (\<lambda>s. ((), s\<lparr>w_trace := w_trace s @ [e]\<rparr>))"

abbreviation w_log :: "log_level \<Rightarrow> string \<Rightarrow> ('w, unit) watch" where
  "w_log level msg \<equiv> w_emit (WLog level msg)"

definition w_call :: "('w, 'r) call \<Rightarrow> ('r \<Rightarrow> watch_event) \<Rightarrow> ('w, 'r) watch" where
  "w_call f ev = State (\<lambda>s. case f (w_world s) of (r, d, w) \<Rightarrow>
     (r, s\<lparr>w_world := w, w_clock := w_clock s + d, w_trace := w_trace s @ [ev r]\<rparr>))"

definition get_count :: "('w, nat) watch" where
  "get_count = State (\<lambda>s. (signal_count s, s))"

definition get_connected :: "('w, bool) watch" where
  "get_connected = State (\<lambda>s. (control_open s, s))"

definition set_connected :: "('w, unit) watch" where
  "set_connected = State (\<lambda>s. ((), s\<lparr>control_open := True\<rparr>))"

text \<open>\<open>rx.recv()\<close> and the counting of the signal; \<open>None\<close> when no further signal ever comes.\<close>

definition receive :: "'w control \<Rightarrow> ('w, string option) watch" where
  "receive ctl = State (\<lambda>s. case signals s of
       [] \<Rightarrow> (None, s)
     | (t, name) # later \<Rightarrow>
         (Some name, s\<lparr>w_world := ctl_elapse ctl (t - w_clock s) (w_world s), w_clock := max (w_clock s) t,
            signals := later, signal_count := signal_count s + 1, w_trace := w_trace s @ [WSignal]\<rparr>))"

text \<open>
  \<open>tokio::select!\<close> between a sleep of \<open>d\<close> nanoseconds and the next signal, which is counted: true if the
  signal came first.
\<close>

definition sleep_or_signal :: "'w control \<Rightarrow> nat \<Rightarrow> ('w, bool) watch" where
  "sleep_or_signal ctl d = State (\<lambda>s.
     let sleep = (False, s\<lparr>w_world := ctl_elapse ctl d (w_world s), w_clock := w_clock s + d,
                    w_trace := w_trace s @ [WWait d]\<rparr>)
     in case signals s of
       [] \<Rightarrow> sleep
     | (t, name) # later \<Rightarrow>
         if t < w_clock s + d
         then (True, s\<lparr>w_world := ctl_elapse ctl (t - w_clock s) (w_world s), w_clock := max (w_clock s) t,
                signals := later, signal_count := signal_count s + 1,
                w_trace := w_trace s @ [WInterrupted (t - w_clock s)]\<rparr>)
         else sleep)"

section \<open>The controller\<close>

text \<open>\<open>BackendController::connect\<close>: the connection attempt is given up after the timeout.\<close>

definition seconds :: "nat \<Rightarrow> nat" where "seconds n = n * 1000000000"

definition within_timeout :: "nat \<Rightarrow> (nat \<Rightarrow> 'w \<Rightarrow> 'w) \<Rightarrow> ('w, error + unit) call \<Rightarrow> ('w, error + unit) call" where
  "within_timeout limit idle f w =
     (case f w of (r, d, w') \<Rightarrow>
        if d < limit then (r, d, w')
        else (Inl (with_context ''Timed out opening the control connection''
               (error_from_text ''deadline has elapsed'')), limit, idle limit w))"

text \<open>\<open>connect_raw\<close>, as a call of the watcher.\<close>

definition open_control :: "'w control \<Rightarrow> watcher_config \<Rightarrow> ('w, error + unit) call" where
  "open_control ctl cfg w =
     (case connect_request (ctl_tls ctl) (ctl_files ctl w) (wc_connection cfg) (wc_ssl cfg) of
        Inl e \<Rightarrow> (Inl e, 0, w)
      | Inr (tr, dc) \<Rightarrow> (case ctl_connect ctl tr dc w of (r, d, w') \<Rightarrow>
          (map_sum (context_pg (connect_failure tr)) id r, d, w')))"

definition controller_connect :: "'w control \<Rightarrow> watcher_config \<Rightarrow> ('w, error + unit) watch" where
  "controller_connect ctl cfg =
     w_call (within_timeout (seconds CONTROL_CONNECT_TIMEOUT_SECONDS) (ctl_elapse ctl) (open_control ctl cfg))
       (\<lambda>r. WConnect (case r of Inr _ \<Rightarrow> True | Inl _ \<Rightarrow> False))"

definition state_answer :: "int \<Rightarrow> pg_error + activity_row list \<Rightarrow> error + backend_state" where
  "state_answer pid r =
     (case r of
        Inl e \<Rightarrow> Inl (with_context ''Failed to read backend state'' (from_pg e))
      | Inr rows \<Rightarrow> Inr (case GET_BACKEND_ACTIVITY pid rows of Some b \<Rightarrow> b | None \<Rightarrow> gone))"

definition controller_state :: "'w control \<Rightarrow> watcher_config \<Rightarrow> ('w, error + backend_state) watch" where
  "controller_state ctl cfg = do {
     r \<leftarrow> w_call (ctl_activity ctl) (\<lambda>r. WState (case state_answer (wc_pid cfg) r of Inr b \<Rightarrow> Some b | Inl _ \<Rightarrow> None));
     ret (state_answer (wc_pid cfg) r)
   }"

definition act :: "('w, pg_error + bool) call \<Rightarrow> watch_event \<Rightarrow> string \<Rightarrow> ('w, unit) watch" where
  "act f ev failure = do {
     r \<leftarrow> w_call f (\<lambda>_. ev);
     case r of
       Inl e \<Rightarrow> w_log Warning (error_chain_text (with_context failure (from_pg e)))
     | Inr _ \<Rightarrow> ret ()
   }"

definition controller_cancel :: "'w control \<Rightarrow> watcher_config \<Rightarrow> ('w, unit) watch" where
  "controller_cancel ctl cfg = act (ctl_cancel ctl (wc_pid cfg)) WCancel ''pg_cancel_backend failed''"

definition controller_terminate :: "'w control \<Rightarrow> watcher_config \<Rightarrow> ('w, unit) watch" where
  "controller_terminate ctl cfg = act (ctl_terminate ctl (wc_pid cfg)) WTerminate ''pg_terminate_backend failed''"

section \<open>Handling a signal\<close>

definition POLL_ATTEMPTS :: nat where "POLL_ATTEMPTS = 8"
definition POLL_INTERVAL :: nat where "POLL_INTERVAL = 250 * 1000000"

datatype look_result = Unreadable | NothingRunning | Running backend_state

text \<open>From the second signal on, any active statement counts.\<close>

definition worth_acting :: "nat \<Rightarrow> backend_state \<Rightarrow> bool" where
  "worth_acting n b = (if 2 \<le> n then active b else maintenance_running b)"

fun look :: "'w control \<Rightarrow> watcher_config \<Rightarrow> nat \<Rightarrow> ('w, look_result) watch" where
  "look ctl cfg 0 = ret NothingRunning"
| "look ctl cfg (Suc later) = do {
     r \<leftarrow> controller_state ctl cfg;
     case r of
       Inl e \<Rightarrow> do {
         w_log Warning (''Could not read the backend state: '' @ error_chain_text e);
         ret Unreadable
       }
     | Inr b \<Rightarrow> do {
         n \<leftarrow> get_count;
         if worth_acting n b then ret (Running b)
         else if later = 0 then ret NothingRunning
         else do { sleep_or_signal ctl POLL_INTERVAL; look ctl cfg later }
       }
   }"

definition terminate :: "'w control \<Rightarrow> watcher_config \<Rightarrow> string \<Rightarrow> ('w, unit) watch" where
  "terminate ctl cfg signal = do {
     w_log Warning (''Shutdown requested ('' @ signal @ ''): terminating backend PID '' @ dec_int (wc_pid cfg) @
       '' via pg_terminate_backend.'');
     controller_terminate ctl cfg
   }"

text \<open>After the grace period: terminate only if it is still the same statement.\<close>

definition escalate :: "'w control \<Rightarrow> watcher_config \<Rightarrow> backend_state \<Rightarrow> ('w, unit) watch" where
  "escalate ctl cfg target = do {
     r \<leftarrow> controller_state ctl cfg;
     case r of
       Inl _ \<Rightarrow> ret ()
     | Inr b \<Rightarrow>
         if active b \<and> query_start b = query_start target then do {
           w_log Warning (''Statement still running after '' @ dec (wc_grace_seconds cfg) @
             ''s '' @ em_dash @ '' terminating backend PID '' @ dec_int (wc_pid cfg) @ '' (pg_terminate_backend).'');
           controller_terminate ctl cfg
         } else ret ()
   }"

definition cancel_message :: "watcher_config \<Rightarrow> string \<Rightarrow> string" where
  "cancel_message cfg signal =
     ''Shutdown requested ('' @ signal @ ''): cancelling running statement on backend PID '' @
     dec_int (wc_pid cfg) @ '' via pg_cancel_backend; will pg_terminate_backend after '' @
     dec (wc_grace_seconds cfg) @ ''s. Send the signal again to terminate immediately.''"

definition cancel_statement :: "'w control \<Rightarrow> watcher_config \<Rightarrow> string \<Rightarrow> backend_state \<Rightarrow> ('w, unit) watch" where
  "cancel_statement ctl cfg signal target = do {
     w_log Warning (cancel_message cfg signal);
     controller_cancel ctl cfg;
     again \<leftarrow> sleep_or_signal ctl (seconds (wc_grace_seconds cfg));
     if again then terminate ctl cfg signal else escalate ctl cfg target
   }"

definition handle_signal :: "'w control \<Rightarrow> watcher_config \<Rightarrow> string \<Rightarrow> ('w, unit) watch" where
  "handle_signal ctl cfg signal = do {
     found \<leftarrow> look ctl cfg POLL_ATTEMPTS;
     case found of
       Unreadable \<Rightarrow> ret ()
     | NothingRunning \<Rightarrow> w_log Info (''Shutdown requested ('' @ signal @
         ''): no VACUUM/ANALYZE is running '' @ em_dash @ '' stopping after the current table'')
     | Running target \<Rightarrow> do {
         n \<leftarrow> get_count;
         case plan_action (wc_mode cfg) n True of
           NoAction \<Rightarrow> ret ()
         | TerminateSession \<Rightarrow> terminate ctl cfg signal
         | CancelStatement \<Rightarrow> cancel_statement ctl cfg signal target
       }
   }"

section \<open>The watcher\<close>

definition control_connection :: "'w control \<Rightarrow> watcher_config \<Rightarrow> ('w, bool) watch" where
  "control_connection ctl cfg = do {
     open \<leftarrow> get_connected;
     if open then ret True
     else do {
       r \<leftarrow> controller_connect ctl cfg;
       case r of
         Inr _ \<Rightarrow> do { set_connected; ret True }
       | Inl e \<Rightarrow> do {
           w_log Warning (''Could not open a control connection to stop the running statement ('' @
             error_chain_text e @ ''); falling back to finishing the current table'');
           ret False
         }
     }
   }"

definition serve :: "'w control \<Rightarrow> watcher_config \<Rightarrow> string \<Rightarrow> ('w, unit) watch" where
  "serve ctl cfg signal =
     (if wc_mode cfg = Finish then ret ()
      else do {
        open \<leftarrow> control_connection ctl cfg;
        if open then handle_signal ctl cfg signal else ret ()
      })"

text \<open>
  The loop of \<open>run_watcher\<close>, up to the point where it waits for a signal that never comes. Whatever it does
  for one signal, it takes no signal back, so it gets there.
\<close>

named_theorems keeps_intros \<open>no signal is put back, and each one taken is counted\<close>

definition keeps_signals :: "('w, 'a) watch \<Rightarrow> bool" where
  "keeps_signals m = (\<forall>s. length (signals (snd (run_state m s))) \<le> length (signals s)
     \<and> signal_count (snd (run_state m s)) + length (signals (snd (run_state m s))) = signal_count s + length (signals s))"

lemma keeps_primitives [keeps_intros]:
  "keeps_signals (ret x)" "keeps_signals (w_emit e)" "keeps_signals (w_call f ev)" "keeps_signals get_count"
  "keeps_signals get_connected" "keeps_signals set_connected"
  by (simp_all add: keeps_signals_def w_emit_def w_call_def get_count_def get_connected_def set_connected_def
      split: prod.splits)

lemma keeps_sleep [keeps_intros]: "keeps_signals (sleep_or_signal ctl d)"
  by (simp add: keeps_signals_def sleep_or_signal_def Let_def split: list.split prod.split)

lemma keeps_bind [keeps_intros]:
  assumes "keeps_signals m" "\<And>x. keeps_signals (f x)"
  shows "keeps_signals (State_Monad.bind m f)"
  unfolding keeps_signals_def
proof
  fix s
  obtain x t where x: "run_state m s = (x, t)" by fastforce
  with assms(1) have "length (signals t) \<le> length (signals s)
      \<and> signal_count t + length (signals t) = signal_count s + length (signals s)"
    unfolding keeps_signals_def by (metis snd_conv)
  moreover have "length (signals (snd (run_state (f x) t))) \<le> length (signals t)
      \<and> signal_count (snd (run_state (f x) t)) + length (signals (snd (run_state (f x) t))) =
        signal_count t + length (signals t)"
    using assms(2) unfolding keeps_signals_def by blast
  ultimately show "length (signals (snd (run_state (State_Monad.bind m f) s))) \<le> length (signals s)
      \<and> signal_count (snd (run_state (State_Monad.bind m f) s)) + length (signals (snd (run_state (State_Monad.bind m f) s))) =
        signal_count s + length (signals s)"
    using x by simp
qed

lemma keeps_if [keeps_intros]: "keeps_signals m \<Longrightarrow> keeps_signals n \<Longrightarrow> keeps_signals (if b then m else n)"
  by simp

lemma keeps_sum [keeps_intros]:
  "(\<And>y. keeps_signals (f y)) \<Longrightarrow> (\<And>y. keeps_signals (g y)) \<Longrightarrow>
     keeps_signals (case x of Inl y \<Rightarrow> f y | Inr y \<Rightarrow> g y)"
  by (cases x) simp_all

lemma keeps_found [keeps_intros]:
  "keeps_signals m \<Longrightarrow> keeps_signals n \<Longrightarrow> (\<And>b. keeps_signals (f b)) \<Longrightarrow>
     keeps_signals (case x of Unreadable \<Rightarrow> m | NothingRunning \<Rightarrow> n | Running b \<Rightarrow> f b)"
  "keeps_signals m1 \<Longrightarrow> keeps_signals m2 \<Longrightarrow> keeps_signals m3 \<Longrightarrow>
     keeps_signals (case a of NoAction \<Rightarrow> m1 | CancelStatement \<Rightarrow> m2 | TerminateSession \<Rightarrow> m3)"
  by (cases x, simp_all) (cases a, simp_all)

lemma keeps_look [keeps_intros]: "keeps_signals (look ctl cfg n)"
proof (induction n)
  case (Suc n)
  then show ?case unfolding look.simps controller_state_def by (intro keeps_intros)
qed (simp add: keeps_primitives)

lemma keeps_act [keeps_intros]: "keeps_signals (act f ev failure)"
  unfolding act_def by (intro keeps_intros)

lemma keeps_handle_signal: "keeps_signals (handle_signal ctl cfg name)"
  unfolding handle_signal_def terminate_def cancel_statement_def escalate_def controller_terminate_def
    controller_cancel_def controller_state_def
  by (intro keeps_intros)

lemma keeps_serve: "keeps_signals (serve ctl cfg name)"
  unfolding serve_def control_connection_def controller_connect_def
  by (intro keeps_intros keeps_handle_signal)

function run_watcher :: "'w control \<Rightarrow> watcher_config \<Rightarrow> 'w watcher \<Rightarrow> 'w watcher" where
  "run_watcher ctl cfg s =
     (case run_state (receive ctl) s of
        (None, s') \<Rightarrow> s'
      | (Some name, s') \<Rightarrow> run_watcher ctl cfg (snd (run_state (serve ctl cfg name) s')))"
  by pat_completeness auto

termination
proof (relation "measure (\<lambda>(ctl, cfg, s). length (signals s))")
  fix ctl :: "'w control" and cfg s x s' name
  assume "(x, s') = run_state (receive ctl) s" "x = Some name"
  then have "length (signals s') < length (signals s)"
    by (auto simp: receive_def split: list.splits prod.splits)
  moreover have "length (signals (snd (run_state (serve ctl cfg name) s'))) \<le> length (signals s')"
    using keeps_serve unfolding keeps_signals_def by blast
  ultimately show "((ctl, cfg, snd (run_state (serve ctl cfg name) s')), (ctl, cfg, s))
      \<in> measure (\<lambda>(ctl, cfg, s). length (signals s))" by simp
qed simp

declare run_watcher.simps [simp del]

lemma run_watcher_counts:
  "signals (run_watcher ctl cfg s) = []
     \<and> signal_count (run_watcher ctl cfg s) = signal_count s + length (signals s)"
proof (induction ctl cfg s rule: run_watcher.induct)
  case (1 ctl cfg s)
  obtain x t where x: "run_state (receive ctl) s = (x, t)" by fastforce
  show ?case
  proof (cases x)
    case None
    with x show ?thesis by (subst run_watcher.simps) (auto simp: receive_def run_watcher.simps split: list.splits)
  next
    case (Some name)
    have "signal_count t + length (signals t) = signal_count s + length (signals s)"
      using x Some by (auto simp: receive_def split: list.splits prod.splits)
    moreover have "run_watcher ctl cfg s = run_watcher ctl cfg (snd (run_state (serve ctl cfg name) t))"
      using x Some by (simp add: run_watcher.simps)
    ultimately show ?thesis
      using 1 [OF x [symmetric] Some] keeps_serve [of ctl cfg name] unfolding keeps_signals_def by simp
  qed
qed

definition new_watcher :: "'w \<Rightarrow> nat \<Rightarrow> (nat \<times> string) list \<Rightarrow> 'w watcher" where
  "new_watcher w t to_come =
     \<lparr>w_world = w, w_clock = t, signals = to_come, signal_count = 0, control_open = False, w_trace = []\<rparr>"

end
