(* ===== verification/Shutdown_Facts.thy ===== *)
theory Shutdown_Facts
  imports Shutdown Run_Facts
begin

text \<open>
  The protocol of the shutdown watcher: a step relation on a few states, with what a step shows of itself as
  its label. The watcher of the theory \<open>Shutdown\<close> follows it, from any signals and whatever the server
  answers; what the watcher may do, and how long it waits, is proved of the paths of the protocol.
\<close>

section \<open>The protocol\<close>

text \<open>Each state carries the number of signals received so far; looking also counts the attempts left.\<close>

datatype watch_state =
  Idle nat bool | Opening nat | Looking nat nat | Pausing nat nat
  | Found nat backend_state | Grace nat backend_state | Overdue nat backend_state | Doomed nat

inductive watch_step :: "shutdown_mode \<Rightarrow> nat \<Rightarrow> watch_state \<Rightarrow> watch_event \<Rightarrow> watch_state \<Rightarrow> bool"
  for mode :: shutdown_mode and grace :: nat where
  ignored: "mode = Finish \<Longrightarrow> watch_step mode grace (Idle n c) WSignal (Idle (Suc n) c)"
| called: "mode \<noteq> Finish \<Longrightarrow> watch_step mode grace (Idle n False) WSignal (Opening (Suc n))"
| called_again: "mode \<noteq> Finish \<Longrightarrow> watch_step mode grace (Idle n True) WSignal (Looking (Suc n) POLL_ATTEMPTS)"
| opened: "watch_step mode grace (Opening n) (WConnect True) (Looking n POLL_ATTEMPTS)"
| refused: "watch_step mode grace (Opening n) (WConnect False) (Idle n False)"
| unreadable: "watch_step mode grace (Looking n (Suc k)) (WState None) (Idle n True)"
| found: "worth_acting n b \<Longrightarrow> mode = Cancel \<Longrightarrow> n < 2 \<Longrightarrow>
    watch_step mode grace (Looking n (Suc k)) (WState (Some b)) (Found n b)"
| doomed: "worth_acting n b \<Longrightarrow> mode = Terminate \<or> 2 \<le> n \<Longrightarrow>
    watch_step mode grace (Looking n (Suc k)) (WState (Some b)) (Doomed n)"
| nothing: "\<not> worth_acting n b \<Longrightarrow>
    watch_step mode grace (Looking n (Suc 0)) (WState (Some b)) (Idle n True)"
| not_yet: "\<not> worth_acting n b \<Longrightarrow>
    watch_step mode grace (Looking n (Suc (Suc k))) (WState (Some b)) (Pausing n (Suc k))"
| paused: "watch_step mode grace (Pausing n k) (WWait POLL_INTERVAL) (Looking n k)"
| pause_cut: "d \<le> POLL_INTERVAL \<Longrightarrow> watch_step mode grace (Pausing n k) (WInterrupted d) (Looking (Suc n) k)"
| cancelled: "watch_step mode grace (Found n b) WCancel (Grace n b)"
| grace_over: "watch_step mode grace (Grace n b) (WWait grace) (Overdue n b)"
| grace_cut: "d \<le> grace \<Longrightarrow> watch_step mode grace (Grace n b) (WInterrupted d) (Doomed (Suc n))"
| lost_sight: "watch_step mode grace (Overdue n b) (WState None) (Idle n True)"
| still_running: "active b' \<Longrightarrow> query_start b' = query_start b \<Longrightarrow>
    watch_step mode grace (Overdue n b) (WState (Some b')) (Doomed n)"
| stopped: "\<not> (active b' \<and> query_start b' = query_start b) \<Longrightarrow>
    watch_step mode grace (Overdue n b) (WState (Some b')) (Idle n True)"
| terminated: "watch_step mode grace (Doomed n) WTerminate (Idle n True)"

inductive_cases cancel_stepE: "watch_step mode grace A WCancel B"
inductive_cases terminate_stepE: "watch_step mode grace A WTerminate B"

inductive watch_path :: "shutdown_mode \<Rightarrow> nat \<Rightarrow> watch_state \<Rightarrow> watch_event list \<Rightarrow> watch_state \<Rightarrow> bool"
  for mode :: shutdown_mode and grace :: nat where
  path_nil [simp, intro]: "watch_path mode grace A [] A"
| path_snoc: "watch_path mode grace A es B \<Longrightarrow> watch_step mode grace B e C \<Longrightarrow> watch_path mode grace A (es @ [e]) C"

lemma path_trans:
  "watch_path mode grace B fs C \<Longrightarrow> watch_path mode grace A es B \<Longrightarrow> watch_path mode grace A (es @ fs) C"
  by (induction rule: watch_path.induct) (auto simp flip: append_assoc intro: path_snoc)

lemma path_step: "watch_step mode grace A e B \<Longrightarrow> watch_path mode grace A [e] B"
  using path_snoc [OF path_nil] by simp

section \<open>What a path allows\<close>

fun is_signal :: "watch_event \<Rightarrow> bool" where
  "is_signal WSignal = True"
| "is_signal (WInterrupted d) = True"
| "is_signal _ = False"

fun wait_of :: "watch_event \<Rightarrow> nat" where
  "wait_of (WWait d) = d"
| "wait_of (WInterrupted d) = d"
| "wait_of _ = 0"

definition signals_in :: "watch_event list \<Rightarrow> nat" where
  "signals_in es = length (filter is_signal es)"

definition waited :: "watch_event list \<Rightarrow> nat" where
  "waited es = sum_list (map wait_of es)"

lemma counting_simps [simp]:
  "signals_in [] = 0" "signals_in (es @ fs) = signals_in es + signals_in fs"
  "signals_in (e # es) = (if is_signal e then 1 else 0) + signals_in es"
  "waited [] = 0" "waited (es @ fs) = waited es + waited fs" "waited (e # es) = wait_of e + waited es"
  by (simp_all add: signals_in_def waited_def)

text \<open>
  When the statement is cancelled: on the first signal, in the mode cancel, right after a VACUUM or ANALYZE was
  seen running. When the session is terminated: in the mode terminate, after a second signal, or when the same
  statement is still running after the cancellation and the whole grace period.
\<close>

definition may_cancel :: "shutdown_mode \<Rightarrow> watch_event list \<Rightarrow> bool" where
  "may_cancel mode before =
     (mode = Cancel \<and> signals_in before = 1
      \<and> (\<exists>es b. before = es @ [WState (Some b)] \<and> maintenance_running b))"

definition outlived :: "nat \<Rightarrow> watch_event list \<Rightarrow> bool" where
  "outlived grace before =
     (\<exists>es b b'. before = es @ [WState (Some b), WCancel, WWait grace, WState (Some b')]
        \<and> maintenance_running b \<and> active b' \<and> query_start b' = query_start b)"

definition may_terminate :: "shutdown_mode \<Rightarrow> nat \<Rightarrow> watch_event list \<Rightarrow> bool" where
  "may_terminate mode grace before =
     (mode \<noteq> Finish \<and> (mode = Terminate \<or> 2 \<le> signals_in before \<or> outlived grace before))"

text \<open>What is known of the events so far in each state.\<close>

fun history :: "shutdown_mode \<Rightarrow> nat \<Rightarrow> watch_event list \<Rightarrow> watch_state \<Rightarrow> bool" where
  "history mode grace es (Idle n c) = (signals_in es = n)"
| "history mode grace es (Opening n) = (signals_in es = n \<and> 0 < n \<and> mode \<noteq> Finish)"
| "history mode grace es (Looking n k) = (signals_in es = n \<and> 0 < n \<and> mode \<noteq> Finish)"
| "history mode grace es (Pausing n k) = (signals_in es = n \<and> 0 < n \<and> mode \<noteq> Finish)"
| "history mode grace es (Found n b) =
     (signals_in es = 1 \<and> n = 1 \<and> mode = Cancel \<and> maintenance_running b \<and> (\<exists>fs. es = fs @ [WState (Some b)]))"
| "history mode grace es (Grace n b) =
     (signals_in es = 1 \<and> n = 1 \<and> mode = Cancel \<and> maintenance_running b \<and> (\<exists>fs. es = fs @ [WState (Some b), WCancel]))"
| "history mode grace es (Overdue n b) =
     (signals_in es = 1 \<and> n = 1 \<and> mode = Cancel \<and> maintenance_running b
      \<and> (\<exists>fs. es = fs @ [WState (Some b), WCancel, WWait grace]))"
| "history mode grace es (Doomed n) = (signals_in es = n \<and> may_terminate mode grace es)"

lemma step_history: "watch_step mode grace A e B \<Longrightarrow> history mode grace es A \<Longrightarrow> history mode grace (es @ [e]) B"
proof (induction rule: watch_step.induct)
  case (still_running b' b n)
  then show ?case by (auto simp: may_terminate_def outlived_def)
qed (auto simp: worth_acting_def may_terminate_def)

lemma path_history: "watch_path mode grace A es B \<Longrightarrow> A = Idle 0 c \<Longrightarrow> history mode grace es B"
  by (induction rule: watch_path.induct) (auto intro: step_history)

lemma step_justified:
  assumes "watch_step mode grace A e B" "history mode grace es A"
  shows "e = WCancel \<longrightarrow> may_cancel mode es" "e = WTerminate \<longrightarrow> may_terminate mode grace es"
  using assms by (auto simp: may_cancel_def elim!: cancel_stepE terminate_stepE)

lemma path_justified:
  assumes "watch_path mode grace A es B" "A = Idle 0 c" "es = before @ e # later"
  shows "(e = WCancel \<longrightarrow> may_cancel mode before) \<and> (e = WTerminate \<longrightarrow> may_terminate mode grace before)"
  using assms
proof (induction arbitrary: later rule: watch_path.induct)
  case (path_snoc A es B e' C)
  show ?case
  proof (cases later rule: rev_exhaust)
    case Nil
    with path_snoc.prems path_snoc.hyps path_history show ?thesis using step_justified by fastforce
  next
    case (snoc later' x)
    with path_snoc.prems have "es = before @ e # later'" by simp
    with path_snoc.IH path_snoc.prems(1) show ?thesis by blast
  qed
qed simp

text \<open>A signal is good for seven pauses between eight attempts and one grace period.\<close>

definition patience :: "nat \<Rightarrow> nat" where "patience grace = 7 * POLL_INTERVAL + grace"

fun budget :: "nat \<Rightarrow> nat \<Rightarrow> watch_state \<Rightarrow> bool" where
  "budget grace w (Idle n c) = (w \<le> n * patience grace)"
| "budget grace w (Opening n) = (w + patience grace \<le> n * patience grace)"
| "budget grace w (Looking n k) = (w + (k - 1) * POLL_INTERVAL + grace \<le> n * patience grace)"
| "budget grace w (Pausing n k) = (0 < k \<and> w + k * POLL_INTERVAL + grace \<le> n * patience grace)"
| "budget grace w (Found n b) = (w + grace \<le> n * patience grace)"
| "budget grace w (Grace n b) = (w + grace \<le> n * patience grace)"
| "budget grace w (Overdue n b) = (w \<le> n * patience grace)"
| "budget grace w (Doomed n) = (w \<le> n * patience grace)"

lemma step_budget: "watch_step mode grace A e B \<Longrightarrow> budget grace w A \<Longrightarrow> budget grace (w + wait_of e) B"
proof (induction rule: watch_step.induct)
  case (paused n k)
  then show ?case by (cases k) (simp_all add: POLL_INTERVAL_def)
next
  case (pause_cut d n k)
  then show ?case by (cases k) (simp_all add: POLL_INTERVAL_def)
qed (simp_all add: patience_def POLL_ATTEMPTS_def POLL_INTERVAL_def)

lemma path_budget: "watch_path mode grace A es B \<Longrightarrow> A = Idle 0 c \<Longrightarrow> budget grace (waited es) B"
  by (induction rule: watch_path.induct) (auto dest: step_budget)

section \<open>The watcher follows the protocol\<close>

fun is_log :: "watch_event \<Rightarrow> bool" where
  "is_log (WLog l m) = True"
| "is_log _ = False"

definition visible :: "watch_event list \<Rightarrow> watch_event list" where
  "visible es = filter (\<lambda>e. \<not> is_log e) es"

lemma visible_simps [simp]:
  "visible [] = []" "visible (es @ fs) = visible es @ visible fs"
  "visible (e # es) = (if is_log e then visible es else e # visible es)"
  by (simp_all add: visible_def)

definition moves ::
  "shutdown_mode \<Rightarrow> nat \<Rightarrow> watch_state \<Rightarrow> 'w watcher \<Rightarrow> watch_state \<Rightarrow> 'w watcher \<Rightarrow> bool" where
  "moves mode grace A s B s' = (\<exists>es. w_trace s' = w_trace s @ es \<and> watch_path mode grace A (visible es) B)"

lemma moves_refl [simp]: "moves mode grace A s A s"
  by (simp add: moves_def)

lemma moves_trans: "moves mode grace A s B t \<Longrightarrow> moves mode grace B t C u \<Longrightarrow> moves mode grace A s C u"
  unfolding moves_def by (fastforce dest: path_trans)

lemma moves_step:
  "w_trace s' = w_trace s @ es \<Longrightarrow> visible es = [e] \<Longrightarrow> watch_step mode grace A e B \<Longrightarrow> moves mode grace A s B s'"
  by (auto simp: moves_def intro: path_step)

lemma moves_quiet: "w_trace s' = w_trace s @ es \<Longrightarrow> visible es = [] \<Longrightarrow> moves mode grace A s A s'"
  by (auto simp: moves_def)

text \<open>The primitives.\<close>

lemma run_watch_primitives [simp]:
  "run_state (w_emit e) s = ((), s\<lparr>w_trace := w_trace s @ [e]\<rparr>)"
  "run_state get_count s = (signal_count s, s)"
  "run_state get_connected s = (control_open s, s)"
  "run_state set_connected s = ((), s\<lparr>control_open := True\<rparr>)"
  by (simp_all add: w_emit_def get_count_def get_connected_def set_connected_def)

lemma run_w_call:
  assumes "run_state (w_call f ev) s = (r, s')"
  shows "w_trace s' = w_trace s @ [ev r]" "signal_count s' = signal_count s" "control_open s' = control_open s"
    "signals s' = signals s"
  using assms by (auto simp: w_call_def split: prod.splits)

lemma run_sleep_or_signal:
  assumes "run_state (sleep_or_signal ctl d) s = (again, s')"
  obtains (slept) "\<not> again" "w_trace s' = w_trace s @ [WWait d]" "signal_count s' = signal_count s"
      "control_open s' = control_open s" "signals s' = signals s"
    | (signalled) d' where "again" "d' \<le> d" "w_trace s' = w_trace s @ [WInterrupted d']"
      "signal_count s' = Suc (signal_count s)" "control_open s' = control_open s" "signals s = hd (signals s) # signals s'"
proof (cases again)
  case False
  with assms show thesis
    by (intro slept) (auto simp: sleep_or_signal_def Let_def split: list.splits prod.splits if_splits)
next
  case True
  with assms show thesis
    by (intro signalled [of "fst (hd (signals s)) - w_clock s"])
      (auto simp: sleep_or_signal_def Let_def split: list.splits prod.splits if_splits)
qed

lemma run_act:
  assumes "run_state (act f ev failure) s = (u, s')" "\<not> is_log ev"
  shows "\<exists>es. w_trace s' = w_trace s @ es \<and> visible es = [ev]" "signal_count s' = signal_count s"
    "control_open s' = control_open s" "signals s' = signals s"
proof -
  obtain r t where call: "run_state (w_call f (\<lambda>_. ev)) s = (r, t)" by fastforce
  from run_w_call [OF this] have t: "w_trace t = w_trace s @ [ev]" "signal_count t = signal_count s"
    "control_open t = control_open s" "signals t = signals s" by simp_all
  have "\<exists>es. w_trace s' = w_trace t @ es \<and> visible es = [] \<and> signal_count s' = signal_count t
      \<and> control_open s' = control_open t \<and> signals s' = signals t"
    using assms(1) call by (cases r) (auto simp: act_def)
  with t assms(2) show "\<exists>es. w_trace s' = w_trace s @ es \<and> visible es = [ev]" "signal_count s' = signal_count s"
    "control_open s' = control_open s" "signals s' = signals s" by auto
qed

lemma run_controller_state:
  assumes "run_state (controller_state ctl cfg) s = (r, s')"
  shows "w_trace s' = w_trace s @ [WState (case r of Inr b \<Rightarrow> Some b | Inl _ \<Rightarrow> None)]"
    "signal_count s' = signal_count s" "control_open s' = control_open s" "signals s' = signals s"
  using assms by (auto simp: controller_state_def dest: run_w_call split: prod.splits)

text \<open>Looking for a statement ends idle, with a statement to cancel, or set on terminating.\<close>

fun looked :: "shutdown_mode \<Rightarrow> nat \<Rightarrow> look_result \<Rightarrow> watch_state" where
  "looked mode n (Running b) = (if plan_action mode n True = CancelStatement then Found n b else Doomed n)"
| "looked mode n r = Idle n True"

lemma plan_cancel: "mode \<noteq> Finish \<Longrightarrow> plan_action mode n True = CancelStatement \<longleftrightarrow> mode = Cancel \<and> n < 2"
  by (cases mode) (auto simp: plan_action_def)

lemma plan_terminate:
  "mode \<noteq> Finish \<Longrightarrow> plan_action mode n True \<noteq> CancelStatement \<Longrightarrow>
     plan_action mode n True = TerminateSession \<and> (mode = Terminate \<or> 2 \<le> n)"
  by (cases mode) (auto simp: plan_action_def split: if_splits)

lemma found_step:
  assumes "worth_acting n b" "mode \<noteq> Finish"
  shows "watch_step mode grace (Looking n (Suc k)) (WState (Some b)) (looked mode n (Running b))"
  using assms plan_cancel [of mode n] plan_terminate [of mode n]
  by (cases "mode = Cancel \<and> n < 2") (simp_all add: watch_step.found watch_step.doomed)

lemma poll_attempts: "POLL_ATTEMPTS = Suc 7"
  by (simp add: POLL_ATTEMPTS_def)

lemma look_cases:
  assumes "run_state (look ctl cfg (Suc k)) s = (r, s')"
  obtains (unreadable) es where "r = Unreadable" "w_trace s' = w_trace s @ es" "visible es = [WState None]"
      "signal_count s' = signal_count s" "control_open s' = control_open s"
    | (found) b where "r = Running b" "worth_acting (signal_count s) b" "w_trace s' = w_trace s @ [WState (Some b)]"
      "signal_count s' = signal_count s" "control_open s' = control_open s"
    | (none) b where "r = NothingRunning" "k = 0" "\<not> worth_acting (signal_count s) b"
      "w_trace s' = w_trace s @ [WState (Some b)]" "signal_count s' = signal_count s" "control_open s' = control_open s"
    | (later) b t again u where "0 < k" "\<not> worth_acting (signal_count s) b" "w_trace t = w_trace s @ [WState (Some b)]"
      "signal_count t = signal_count s" "control_open t = control_open s"
      "run_state (sleep_or_signal ctl POLL_INTERVAL) t = (again, u)" "run_state (look ctl cfg k) u = (r, s')"
proof -
  obtain x t where x: "run_state (controller_state ctl cfg) s = (x, t)" by fastforce
  note t = run_controller_state [OF x]
  show thesis
  proof (cases x)
    case (Inl e)
    with assms x t show thesis
      by (intro unreadable [of "[WState None, WLog Warning (''Could not read the backend state: '' @ error_chain_text e)]"])
        auto
  next
    case (Inr b)
    consider "worth_acting (signal_count s) b" | "\<not> worth_acting (signal_count s) b" "k = 0"
      | "\<not> worth_acting (signal_count s) b" "0 < k" by auto
    then show thesis
    proof cases
      case 1
      with assms x t Inr show thesis by (intro found [of b]) auto
    next
      case 2
      with assms x t Inr have "r = NothingRunning \<and> s' = t" by auto
      with 2 t Inr show thesis using none by simp
    next
      case 3
      obtain again u where u: "run_state (sleep_or_signal ctl POLL_INTERVAL) t = (again, u)" by fastforce
      with assms x t Inr 3 have "run_state (look ctl cfg k) u = (r, s')" by simp
      with 3 t Inr u show thesis by (intro later) auto
    qed
  qed
qed

lemma look_moves:
  assumes "run_state (look ctl cfg (Suc k)) s = (r, s')" "mode \<noteq> Finish"
  shows "moves mode grace (Looking (signal_count s) (Suc k)) s (looked mode (signal_count s') r) s'
     \<and> control_open s' = control_open s"
  using assms
proof (induction k arbitrary: s rule: less_induct)
  case (less k)
  from less.prems(1) show ?case
  proof (cases rule: look_cases)
    case (unreadable es)
    then show ?thesis by (auto intro: moves_step watch_step.unreadable)
  next
    case (found b)
    with less.prems(2) show ?thesis by (auto intro: moves_step found_step simp del: looked.simps)
  next
    case (none b)
    then show ?thesis by (auto intro: moves_step watch_step.nothing)
  next
    case (later b t again u)
    then obtain j where j: "k = Suc j" using gr0_implies_Suc by blast
    have "moves mode grace (Looking (signal_count s) (Suc k)) s (Pausing (signal_count t) k) t"
      unfolding j later(4) by (rule moves_step [OF later(3) _ watch_step.not_yet [OF later(2)]]) simp
    moreover from later(6) have "moves mode grace (Pausing (signal_count t) k) t (Looking (signal_count u) k) u
        \<and> control_open u = control_open t"
    proof (cases rule: run_sleep_or_signal)
      case slept
      then show ?thesis by (auto intro: moves_step watch_step.paused)
    next
      case (signalled d')
      then show ?thesis by (auto intro: moves_step watch_step.pause_cut)
    qed
    moreover have "moves mode grace (Looking (signal_count u) k) u (looked mode (signal_count s') r) s'
        \<and> control_open s' = control_open u"
      using less.IH [of j u] later(7) less.prems(2) j by simp
    ultimately show ?thesis using later(5) moves_trans by metis
  qed
qed

text \<open>Acting on what was found.\<close>

lemma logged_act:
  assumes "run_state (do { w_log l m; act f ev failure }) s = (u, s')" "\<not> is_log ev"
  shows "\<exists>es. w_trace s' = w_trace s @ es \<and> visible es = [ev]" "signal_count s' = signal_count s"
    "control_open s' = control_open s"
proof -
  let ?t = "s\<lparr>w_trace := w_trace s @ [WLog l m]\<rparr>"
  from assms(1) have "run_state (act f ev failure) ?t = (u, s')" by simp
  from run_act [OF this assms(2)] show "\<exists>es. w_trace s' = w_trace s @ es \<and> visible es = [ev]"
    "signal_count s' = signal_count s" "control_open s' = control_open s" by auto
qed

lemma terminate_moves:
  assumes "run_state (terminate ctl cfg name) s = (u, s')"
  shows "moves mode grace (Doomed (signal_count s)) s (Idle (signal_count s') True) s' \<and> control_open s' = control_open s"
  using logged_act [OF assms [unfolded terminate_def controller_terminate_def]]
  by (auto intro: moves_step watch_step.terminated)

lemma escalate_moves:
  assumes "run_state (escalate ctl cfg b) s = (u, s')"
  shows "moves mode grace (Overdue (signal_count s) b) s (Idle (signal_count s') True) s' \<and> control_open s' = control_open s"
proof -
  obtain x t where x: "run_state (controller_state ctl cfg) s = (x, t)" by fastforce
  note t = run_controller_state [OF x]
  consider "\<exists>e. x = Inl e" | b' where "x = Inr b'" "\<not> (active b' \<and> query_start b' = query_start b)"
    | b' where "x = Inr b'" "active b' \<and> query_start b' = query_start b" by (cases x) auto
  then show ?thesis
  proof cases
    case 1
    with assms x have "s' = t" by (auto simp: escalate_def)
    with 1 t show ?thesis by (auto intro: moves_step watch_step.lost_sight)
  next
    case 2
    with assms x have "s' = t" by (auto simp: escalate_def)
    with 2 t show ?thesis by (auto intro!: moves_step watch_step.stopped)
  next
    case 3
    with assms x have "run_state (do { w_log Warning (''Statement still running after '' @ dec (wc_grace_seconds cfg) @
        ''s '' @ em_dash @ '' terminating backend PID '' @ dec_int (wc_pid cfg) @ '' (pg_terminate_backend).'');
        controller_terminate ctl cfg }) t = (u, s')"
      by (simp add: escalate_def)
    note last = logged_act [OF this [unfolded controller_terminate_def]]
    have "moves mode grace (Overdue (signal_count s) b) s (Doomed (signal_count t)) t"
      using 3 t by (auto intro: moves_step watch_step.still_running)
    moreover have "moves mode grace (Doomed (signal_count t)) t (Idle (signal_count s') True) s'"
      using last by (auto intro: moves_step watch_step.terminated)
    ultimately have "moves mode grace (Overdue (signal_count s) b) s (Idle (signal_count s') True) s'" by (rule moves_trans)
    with last(3) t(3) show ?thesis by simp
  qed
qed

lemma cancel_moves:
  assumes "run_state (cancel_statement ctl cfg name b) s = (u, s')" "grace = seconds (wc_grace_seconds cfg)"
  shows "moves mode grace (Found (signal_count s) b) s (Idle (signal_count s') True) s' \<and> control_open s' = control_open s"
proof -
  obtain t where t: "run_state (do { w_log Warning (cancel_message cfg name); controller_cancel ctl cfg }) s = ((), t)"
    by (metis old.unit.exhaust surj_pair)
  obtain again v where v: "run_state (sleep_or_signal ctl (seconds (wc_grace_seconds cfg))) t = (again, v)" by fastforce
  have last: "run_state (if again then terminate ctl cfg name else escalate ctl cfg b) v = (u, s')"
    using assms(1) t v unfolding cancel_statement_def by simp
  note logged = logged_act [OF t [unfolded controller_cancel_def]]
  have m1: "moves mode grace (Found (signal_count s) b) s (Grace (signal_count t) b) t"
    using logged by (auto intro: moves_step watch_step.cancelled)
  from v have "moves mode grace (Grace (signal_count t) b) t (Idle (signal_count s') True) s' \<and> control_open s' = control_open t"
  proof (cases rule: run_sleep_or_signal)
    case slept
    have "moves mode grace (Grace (signal_count t) b) t (Overdue (signal_count v) b) v"
      using slept assms(2) by (auto intro: moves_step watch_step.grace_over)
    with escalate_moves [of ctl cfg b v u s' mode grace] last slept show ?thesis by (auto intro: moves_trans)
  next
    case (signalled d')
    have "moves mode grace (Grace (signal_count t) b) t (Doomed (signal_count v)) v"
      using signalled assms(2) by (auto intro: moves_step watch_step.grace_cut)
    with terminate_moves [of ctl cfg name v u s' mode grace] last signalled show ?thesis by (auto intro: moves_trans)
  qed
  with moves_trans [OF m1] logged(3) show ?thesis by auto
qed

lemma handle_moves:
  assumes "run_state (handle_signal ctl cfg name) s = (u, s')" "wc_mode cfg = mode" "mode \<noteq> Finish"
    "grace = seconds (wc_grace_seconds cfg)"
  shows "moves mode grace (Looking (signal_count s) POLL_ATTEMPTS) s (Idle (signal_count s') True) s'
     \<and> control_open s' = control_open s"
proof -
  obtain x t where x: "run_state (look ctl cfg POLL_ATTEMPTS) s = (x, t)" by fastforce
  from look_moves [OF this [unfolded poll_attempts] assms(3)]
  have looked: "moves mode grace (Looking (signal_count s) POLL_ATTEMPTS) s (looked mode (signal_count t) x) t"
    "control_open t = control_open s"
    by (simp_all add: poll_attempts)
  have "moves mode grace (looked mode (signal_count t) x) t (Idle (signal_count s') True) s' \<and> control_open s' = control_open t"
  proof (cases x)
    case Unreadable
    with assms(1) x have "s' = t" by (simp add: handle_signal_def)
    with Unreadable show ?thesis by simp
  next
    case NothingRunning
    with assms(1) x have "\<exists>m. s' = t\<lparr>w_trace := w_trace t @ [WLog Info m]\<rparr>" by (auto simp: handle_signal_def)
    then obtain m where m: "s' = t\<lparr>w_trace := w_trace t @ [WLog Info m]\<rparr>" ..
    then have "moves mode grace (Idle (signal_count t) True) t (Idle (signal_count t) True) s'"
      by (intro moves_quiet [of _ _ "[WLog Info m]"]) simp_all
    with m NothingRunning show ?thesis by simp
  next
    case (Running b)
    show ?thesis
    proof (cases "plan_action mode (signal_count t) True = CancelStatement")
      case True
      with assms x Running have "run_state (cancel_statement ctl cfg name b) t = (u, s')" by (simp add: handle_signal_def)
      from cancel_moves [OF this assms(4)] True Running show ?thesis by simp
    next
      case False
      then have "plan_action mode (signal_count t) True = TerminateSession" using plan_terminate [OF assms(3)] by simp
      with assms(1,2) x Running have "run_state (terminate ctl cfg name) t = (u, s')" by (simp add: handle_signal_def)
      from terminate_moves [OF this] False Running show ?thesis by simp
    qed
  qed
  with moves_trans [OF looked(1)] looked(2) show ?thesis by simp
qed

text \<open>The state of the protocol in which a watcher waits for the next signal.\<close>

abbreviation idle :: "'w watcher \<Rightarrow> watch_state" where
  "idle s \<equiv> Idle (signal_count s) (control_open s)"

lemma serve_moves:
  assumes "run_state (serve ctl cfg name) s = (u, s')" "wc_mode cfg = mode" "mode \<noteq> Finish"
    "grace = seconds (wc_grace_seconds cfg)"
  shows "moves mode grace (if control_open s then Looking (signal_count s) POLL_ATTEMPTS else Opening (signal_count s)) s
     (idle s') s'"
proof (cases "control_open s")
  case True
  with assms(1-3) have "run_state (handle_signal ctl cfg name) s = (u, s')" by (simp add: serve_def control_connection_def)
  from handle_moves [OF this assms(2-4)] True show ?thesis by simp
next
  case False
  obtain x t where x: "run_state (controller_connect ctl cfg) s = (x, t)" by fastforce
  note t = run_w_call [OF x [unfolded controller_connect_def]]
  show ?thesis
  proof (cases x)
    case (Inl e)
    with assms x False have "\<exists>m. s' = t\<lparr>w_trace := w_trace t @ [WLog Warning m]\<rparr>"
      by (auto simp: serve_def control_connection_def)
    then obtain m where "s' = t\<lparr>w_trace := w_trace t @ [WLog Warning m]\<rparr>" ..
    with t Inl False show ?thesis
      by (auto intro!: moves_step [of _ _ "[WConnect False, WLog Warning m]"] watch_step.refused)
  next
    case (Inr y)
    let ?t = "t\<lparr>control_open := True\<rparr>"
    from assms x False Inr have "run_state (handle_signal ctl cfg name) ?t = (u, s')"
      by (simp add: serve_def control_connection_def)
    from handle_moves [OF this assms(2-4)]
    have "moves mode grace (Looking (signal_count s) POLL_ATTEMPTS) ?t (idle s') s'" using t by simp
    moreover have "moves mode grace (Opening (signal_count s)) s (Looking (signal_count s) POLL_ATTEMPTS) ?t"
      using t Inr by (auto intro!: moves_step watch_step.opened)
    ultimately show ?thesis using False moves_trans by auto
  qed
qed

lemma run_receive:
  "run_state (receive ctl) s = (None, s') \<Longrightarrow> s' = s \<and> signals s = []"
  "run_state (receive ctl) s = (Some name, s') \<Longrightarrow> w_trace s' = w_trace s @ [WSignal] \<and>
     signal_count s' = Suc (signal_count s) \<and> control_open s' = control_open s \<and> signals s = hd (signals s) # signals s'"
  by (auto simp: receive_def split: list.splits prod.splits)

lemma run_watcher_moves:
  "moves (wc_mode cfg) (seconds (wc_grace_seconds cfg)) (idle s) s (idle (run_watcher ctl cfg s)) (run_watcher ctl cfg s)"
proof (induction ctl cfg s rule: run_watcher.induct)
  case (1 ctl cfg s)
  let ?grace = "seconds (wc_grace_seconds cfg)"
  obtain x t where x: "run_state (receive ctl) s = (x, t)" by fastforce
  show ?case
  proof (cases x)
    case None
    with x run_receive(1) have "run_watcher ctl cfg s = s" by (auto simp: run_watcher.simps)
    then show ?thesis by simp
  next
    case (Some name)
    let ?u = "snd (run_state (serve ctl cfg name) t)"
    have rest: "run_watcher ctl cfg s = run_watcher ctl cfg ?u" using x Some by (simp add: run_watcher.simps)
    have "moves (wc_mode cfg) ?grace (idle s) s (idle ?u) ?u"
    proof (cases "wc_mode cfg = Finish")
      case True
      then have "?u = t" by (simp add: serve_def)
      with True run_receive(2) x Some show ?thesis by (auto intro!: moves_step watch_step.ignored)
    next
      case False
      have "moves (wc_mode cfg) ?grace (idle s) s
          (if control_open t then Looking (signal_count t) POLL_ATTEMPTS else Opening (signal_count t)) t"
        using False run_receive(2) x Some
        by (cases "control_open s") (auto intro!: moves_step watch_step.called watch_step.called_again)
      from moves_trans [OF this serve_moves [OF surjective_pairing refl False refl]] show ?thesis .
    qed
    with 1 [OF x [symmetric] Some] show ?thesis unfolding rest by (auto intro: moves_trans)
  qed
qed

text \<open>What the watcher did between its start and the wait for a signal that never comes.\<close>

definition watched :: "'w control \<Rightarrow> watcher_config \<Rightarrow> 'w \<Rightarrow> nat \<Rightarrow> (nat \<times> string) list \<Rightarrow> watch_event list" where
  "watched ctl cfg w t to_come = visible (w_trace (run_watcher ctl cfg (new_watcher w t to_come)))"

lemma watched_path:
  obtains c where "watch_path (wc_mode cfg) (seconds (wc_grace_seconds cfg)) (Idle 0 False) (watched ctl cfg w t to_come)
     (Idle (length to_come) c)"
  using run_watcher_moves [of cfg "new_watcher w t to_come" ctl] run_watcher_counts [of ctl cfg "new_watcher w t to_come"]
  by (auto simp: moves_def watched_def new_watcher_def)

text \<open>
  C11: The watcher implements its protocol. From any signals and against any server, all it does is a path of the
  step relation, from the state that has seen no signal back to waiting; it gets there having received every
  signal, and each signal has made it wait at most seven polling intervals and one grace period.
\<close>

theorem watcher_refines_protocol:
  "\<exists>c. watch_path (wc_mode cfg) (seconds (wc_grace_seconds cfg)) (Idle 0 False) (watched ctl cfg w t to_come)
         (Idle (length to_come) c)
     \<and> signals_in (watched ctl cfg w t to_come) = length to_come
     \<and> waited (watched ctl cfg w t to_come) \<le> length to_come * patience (seconds (wc_grace_seconds cfg))"
proof -
  obtain c where path: "watch_path (wc_mode cfg) (seconds (wc_grace_seconds cfg)) (Idle 0 False)
      (watched ctl cfg w t to_come) (Idle (length to_come) c)"
    by (rule watched_path)
  with path_history [OF path refl] path_budget [OF path refl] show ?thesis by auto
qed

text \<open>
  C9: The watcher acts only with good reason. It cancels a statement only in the mode cancel, on the first signal,
  and right after it saw a VACUUM or ANALYZE running. It terminates the session only in the mode terminate, after
  a second signal, or when the very statement it cancelled still runs after the whole grace period; never in the
  mode finish.
\<close>

theorem watcher_acts_justified:
  assumes "watched ctl cfg w t to_come = before @ e # later"
  shows "(e = WCancel \<longrightarrow> may_cancel (wc_mode cfg) before)
     \<and> (e = WTerminate \<longrightarrow> may_terminate (wc_mode cfg) (seconds (wc_grace_seconds cfg)) before)"
proof -
  obtain c where "watch_path (wc_mode cfg) (seconds (wc_grace_seconds cfg)) (Idle 0 False)
      (watched ctl cfg w t to_come) (Idle (length to_come) c)"
    by (rule watched_path)
  from path_justified [OF this refl assms] show ?thesis .
qed

section \<open>A statement that does not stop\<close>

text \<open>
  The control connection opens in time, and each time the watcher looks the session runs the same
  VACUUM or ANALYZE.
\<close>

definition stubborn :: "'w control \<Rightarrow> watcher_config \<Rightarrow> backend_state \<Rightarrow> bool" where
  "stubborn ctl cfg b =
     ((\<forall>w. fst (open_control ctl cfg w) = Inr ()
         \<and> fst (snd (open_control ctl cfg w)) < seconds CONTROL_CONNECT_TIMEOUT_SECONDS)
      \<and> (\<forall>w. state_answer (wc_pid cfg) (fst (ctl_activity ctl w)) = Inr b)
      \<and> active b \<and> maintenance_running b)"

lemma stubborn_state:
  assumes "stubborn ctl cfg b" "run_state (controller_state ctl cfg) s = (r, s')"
  shows "r = Inr b"
proof -
  obtain x d v where "ctl_activity ctl (w_world s) = (x, d, v)" using prod_cases3 by blast
  moreover from this assms(1) have "state_answer (wc_pid cfg) x = Inr b" unfolding stubborn_def by (metis fst_conv)
  ultimately show ?thesis using assms(2) by (auto simp: controller_state_def w_call_def)
qed

text \<open>The session is terminated after at most the grace period.\<close>

definition ends_it :: "nat \<Rightarrow> 'w watcher \<Rightarrow> 'w watcher \<Rightarrow> bool" where
  "ends_it grace s s' =
     (\<exists>es fs. w_trace s' = w_trace s @ es \<and> visible es = fs @ [WTerminate] \<and> waited fs \<le> grace)"

lemma ends_it_after:
  "w_trace t = w_trace s @ es \<Longrightarrow> waited (visible es) = 0 \<Longrightarrow> ends_it grace t u \<Longrightarrow> ends_it grace s u"
  unfolding ends_it_def by (metis add.right_neutral add.commute append_assoc counting_simps(5) visible_simps(2))

lemma terminate_ends_it:
  assumes "run_state (terminate ctl cfg name) s = (u, s')"
  shows "ends_it grace s s'"
  using logged_act(1) [OF assms [unfolded terminate_def controller_terminate_def]] by (force simp: ends_it_def)

lemma stubborn_escalate:
  assumes "stubborn ctl cfg b" "run_state (escalate ctl cfg b) s = (u, s')"
  shows "ends_it grace s s'"
proof -
  obtain x t where x: "run_state (controller_state ctl cfg) s = (x, t)" by fastforce
  then have "x = Inr b" by (rule stubborn_state [OF assms(1)])
  moreover have "active b" using assms(1) by (simp add: stubborn_def)
  ultimately have "\<exists>m. run_state (do { w_log Warning m; controller_terminate ctl cfg }) t = (u, s')"
    using assms(2) x by (auto simp: escalate_def)
  then obtain m where "run_state (do { w_log Warning m; act (ctl_terminate ctl (wc_pid cfg)) WTerminate
      ''pg_terminate_backend failed'' }) t = (u, s')"
    unfolding controller_terminate_def ..
  from logged_act(1) [OF this] have "ends_it grace t s'" by (force simp: ends_it_def)
  with ends_it_after [OF run_controller_state(1) [OF x]] show ?thesis by simp
qed

lemma stubborn_cancel:
  assumes "stubborn ctl cfg b" "run_state (cancel_statement ctl cfg name b) s = (u, s')"
  shows "ends_it (seconds (wc_grace_seconds cfg)) s s'"
proof -
  let ?grace = "seconds (wc_grace_seconds cfg)"
  obtain t where t: "run_state (do { w_log Warning (cancel_message cfg name); controller_cancel ctl cfg }) s = ((), t)"
    by (metis old.unit.exhaust surj_pair)
  obtain again v where v: "run_state (sleep_or_signal ctl ?grace) t = (again, v)" by fastforce
  have last: "run_state (if again then terminate ctl cfg name else escalate ctl cfg b) v = (u, s')"
    using assms(2) t v unfolding cancel_statement_def by simp
  obtain es where es: "w_trace t = w_trace s @ es" "visible es = [WCancel]"
    using logged_act(1) [OF t [unfolded controller_cancel_def]] by auto
  from v have "ends_it ?grace t s'"
  proof (cases rule: run_sleep_or_signal)
    case slept
    with last have "ends_it 0 v s'" by (auto intro: stubborn_escalate [OF assms(1)])
    with slept show ?thesis unfolding ends_it_def by force
  next
    case (signalled d)
    with last have "ends_it 0 v s'" by (auto intro: terminate_ends_it)
    with signalled show ?thesis unfolding ends_it_def by force
  qed
  with ends_it_after [OF es(1)] es(2) show ?thesis by simp
qed

lemma stubborn_look:
  assumes "stubborn ctl cfg b" "0 < signal_count s" "run_state (look ctl cfg (Suc k)) s = (r, s')"
  shows "r = Running b \<and> w_trace s' = w_trace s @ [WState (Some b)] \<and> signal_count s' = signal_count s"
proof -
  obtain x t where x: "run_state (controller_state ctl cfg) s = (x, t)" by fastforce
  then have b: "x = Inr b" by (rule stubborn_state [OF assms(1)])
  have "worth_acting (signal_count s) b" using assms(1) by (simp add: stubborn_def worth_acting_def)
  with assms(3) x run_controller_state [OF x] b show ?thesis by simp
qed

lemma stubborn_handle:
  assumes "stubborn ctl cfg b" "0 < signal_count s" "wc_mode cfg \<noteq> Finish"
    "run_state (handle_signal ctl cfg name) s = (u, s')"
  shows "ends_it (seconds (wc_grace_seconds cfg)) s s'"
proof -
  obtain r t where look: "run_state (look ctl cfg POLL_ATTEMPTS) s = (r, t)" by fastforce
  from stubborn_look [OF assms(1,2) this [unfolded poll_attempts]]
  have t: "r = Running b" "w_trace t = w_trace s @ [WState (Some b)]" "signal_count t = signal_count s" by simp_all
  have "ends_it (seconds (wc_grace_seconds cfg)) t s'"
  proof (cases "plan_action (wc_mode cfg) (signal_count t) True = CancelStatement")
    case True
    with assms(4) look t(1) have "run_state (cancel_statement ctl cfg name b) t = (u, s')" by (simp add: handle_signal_def)
    then show ?thesis by (rule stubborn_cancel [OF assms(1)])
  next
    case False
    then have "plan_action (wc_mode cfg) (signal_count t) True = TerminateSession"
      using plan_terminate [OF assms(3)] by simp
    with assms(4) look t(1) have "run_state (terminate ctl cfg name) t = (u, s')" by (simp add: handle_signal_def)
    then show ?thesis by (rule terminate_ends_it)
  qed
  with ends_it_after [OF t(2)] show ?thesis by simp
qed

text \<open>
  C10: A statement that ignores its cancellation does not keep the run alive. If the control connection opens in
  time and the session runs one and the same VACUUM or ANALYZE whenever the watcher looks, then after the first
  signal the session is terminated, and the watcher has waited no longer than the grace period by then.
\<close>

theorem stubborn_statement_terminated:
  assumes "stubborn ctl cfg b" "wc_mode cfg \<noteq> Finish" "to_come \<noteq> []"
  shows "\<exists>before later. watched ctl cfg w t to_come = before @ WTerminate # later
     \<and> waited before \<le> seconds (wc_grace_seconds cfg)"
proof -
  obtain arrival name rest where to_come: "to_come = (arrival, name) # rest" using assms(3) by (cases to_come) auto
  let ?s = "new_watcher w t to_come"
  obtain s1 where s1: "run_state (receive ctl) ?s = (Some name, s1)" "w_trace s1 = [WSignal]" "signal_count s1 = 1"
    "\<not> control_open s1"
    by (simp add: receive_def new_watcher_def to_come)
  obtain r s2 where s2: "run_state (controller_connect ctl cfg) s1 = (r, s2)" by fastforce
  obtain x d v where call: "open_control ctl cfg (w_world s1) = (x, d, v)" using prod_cases3 by blast
  with assms(1) have "x = Inr ()" "d < seconds CONTROL_CONNECT_TIMEOUT_SECONDS"
    unfolding stubborn_def by (metis fst_conv snd_conv)+
  with s2 call have r: "r = Inr ()" by (auto simp: controller_connect_def w_call_def within_timeout_def)
  have s2_trace: "w_trace s2 = [WSignal, WConnect True]" "signal_count s2 = 1"
    using run_w_call [OF s2 [unfolded controller_connect_def]] s1 r by simp_all
  let ?s2 = "s2\<lparr>control_open := True\<rparr>"
  obtain s3 where s3: "run_state (handle_signal ctl cfg name) ?s2 = ((), s3)" by (metis old.unit.exhaust surj_pair)
  have "snd (run_state (serve ctl cfg name) s1) = s3"
    using assms(2) s1(4) s2 r s3 by (simp add: serve_def control_connection_def)
  then have all: "run_watcher ctl cfg ?s = run_watcher ctl cfg s3" using s1(1) by (simp add: run_watcher.simps)
  have "ends_it (seconds (wc_grace_seconds cfg)) ?s2 s3"
    using s2_trace by (intro stubborn_handle [OF assms(1) _ assms(2) s3]) simp
  then obtain es fs where es: "w_trace s3 = w_trace s2 @ es" "visible es = fs @ [WTerminate]"
    "waited fs \<le> seconds (wc_grace_seconds cfg)" unfolding ends_it_def by auto
  obtain gs where "w_trace (run_watcher ctl cfg s3) = w_trace s3 @ gs" using run_watcher_moves unfolding moves_def by blast
  then have "watched ctl cfg w t to_come = ([WSignal, WConnect True] @ fs) @ WTerminate # visible gs"
    using es s2_trace by (simp add: watched_def all)
  with es(3) show ?thesis by (intro exI [of _ "[WSignal, WConnect True] @ fs"] exI [of _ "visible gs"]) simp
qed

section \<open>What it recognises\<close>

lemma recognised_words:
  "maintenance_query (''VACUUM '' @ x)" "maintenance_query (''ANALYZE '' @ x)"
proof -
  have "to_lower ''VACUUM '' = ''vacuum ''" "to_lower ''ANALYZE '' = ''analyze ''" by code_simp+
  then have "to_lower (''VACUUM '' @ x) = ''vacuum '' @ to_lower x" "to_lower (''ANALYZE '' @ x) = ''analyze '' @ to_lower x"
    by (simp_all only: to_lower_def map_append)
  moreover have "\<not> word_char space" by code_simp
  ultimately show "maintenance_query (''VACUUM '' @ x)" "maintenance_query (''ANALYZE '' @ x)"
    by (simp_all add: maintenance_query_def space_char_def begins_with_word_def starts_with_def)
qed

text \<open>
  C38: The watcher tells the statements it may act on from the others by their text: every maintenance command of
  the run is recognised, and no session setting and no statement for the logbook is, neither those that create it
  nor the INSERT of a row.
\<close>

theorem watcher_recognises_maintenance:
  "maintenance_query (command_sql v c schema table)
     \<and> \<not> maintenance_query (''SET '' @ x)
     \<and> \<not> maintenance_query INSERT_MAINTENANCE_LOG
     \<and> list_all (\<lambda>sql. \<not> maintenance_query sql)
         [CREATE_SCHEMA_SQL, CREATE_LOGBOOK_TABLE_SQL, CREATE_INDEX_TABLE_SQL, CREATE_INDEX_TIME_SQL,
          COMMENT_BEFORE_SQL, COMMENT_REMOVED_SQL]"
proof (intro conjI)
  have begins: "\<exists>x. command_sql v c schema table = ''VACUUM '' @ x \<or> command_sql v c schema table = ''ANALYZE '' @ x"
    by (cases c) (simp_all add: vacuum_sql_def freeze_sql_def vacuum_analyze_sql_def analyze_sql_def vacuum_statement_def)
  then show "maintenance_query (command_sql v c schema table)" using recognised_words by metis
  show "\<not> maintenance_query (''SET '' @ x)"
    by (simp add: maintenance_query_def space_char_def to_lower_def ascii_lower_def begins_with_word_def starts_with_def Let_def)
  show "\<not> maintenance_query INSERT_MAINTENANCE_LOG" by code_simp
  show "list_all (\<lambda>sql. \<not> maintenance_query sql)
         [CREATE_SCHEMA_SQL, CREATE_LOGBOOK_TABLE_SQL, CREATE_INDEX_TABLE_SQL, CREATE_INDEX_TIME_SQL,
          COMMENT_BEFORE_SQL, COMMENT_REMOVED_SQL]"
    by (simp add: maintenance_query_def space_char_def to_lower_def ascii_lower_def begins_with_word_def
        starts_with_def CREATE_SCHEMA_SQL_def CREATE_LOGBOOK_TABLE_SQL_def CREATE_INDEX_TABLE_SQL_def
        CREATE_INDEX_TIME_SQL_def COMMENT_BEFORE_SQL_def COMMENT_REMOVED_SQL_def)
qed

section \<open>The control connection\<close>

text \<open>
  The watcher that a run spawns opens its connection as the run opened its session: on the same libraries, files
  and driver, with the same answer after the same time.
\<close>

definition same_machine :: "'w control \<Rightarrow> 'w env \<Rightarrow> bool" where
  "same_machine ctl env =
     (ctl_tls ctl = tls env \<and> (\<forall>w. ctl_files ctl w = q_files env w)
      \<and> (\<forall>tr dc w. ctl_connect ctl tr dc w = q_connect env tr dc w))"

theorem control_connects_like_session:
  assumes "same_machine ctl env" "watcher_config_of a cfg backend_pid = Some wc"
    "run_state (connect_raw env (build_connection_string cfg) (ssl_options_of cfg)) s = (r, s')"
  shows "\<exists>d. open_control ctl wc (world s) = (r, d, world s') \<and> clock s' = clock s + d"
proof -
  have wc: "wc_connection wc = build_connection_string cfg" "wc_ssl wc = ssl_options_of cfg"
    using assms(2) by (auto simp: watcher_config_of_def split: if_splits)
  show ?thesis
  proof (cases "connect_request (tls env) (q_files env (world s)) (build_connection_string cfg) (ssl_options_of cfg)")
    case (Inl e)
    with assms(1,3) wc show ?thesis by (simp add: same_machine_def open_control_def run_connect_raw)
  next
    case (Inr req)
    with assms(1,3) wc show ?thesis
      by (cases req) (auto simp: same_machine_def open_control_def run_connect_raw split: prod.splits)
  qed
qed

section \<open>At a concrete server\<close>

text \<open>A session with the process id 42 that runs one VACUUM for ever; every call takes a millisecond.\<close>

definition example_control :: "unit control" where
  "example_control =
     \<lparr>ctl_tls = example_tls, ctl_files = (\<lambda>w path. Inr path), ctl_connect = (\<lambda>tr dc w. (Inr (), 1000000, w)),
      ctl_activity = (\<lambda>w. (Inr [\<lparr>act_pid = 42, act_state = Some ''active'', act_query = Some ''VACUUM t'',
        act_query_start = Some ''noon''\<rparr>], 1000000, w)),
      ctl_cancel = (\<lambda>p w. (Inr True, 1000000, w)),
      ctl_terminate = (\<lambda>p w. (Inr True, 1000000, w)),
      ctl_elapse = (\<lambda>d w. w)\<rparr>"

definition example_watch :: watcher_config where
  "example_watch = \<lparr>wc_mode = Cancel, wc_grace_seconds = 10, wc_pid = 42, wc_connection = ''host=h'',
     wc_ssl = \<lparr>opt_sslmode = SslVerifyFull, opt_ca_cert = Some ''ca.pem'', opt_client_cert = None, opt_client_key = None\<rparr>\<rparr>"

definition example_backend :: backend_state where
  "example_backend = \<lparr>active = True, maintenance_running = True, query_start = Some ''noon''\<rparr>"

lemma example_open:
  assumes "ctl_tls ctl = example_tls" "ctl_files ctl w = Inr" "\<And>tr dc. ctl_connect ctl tr dc w = (Inr (), d, w)"
  shows "open_control ctl example_watch w = (Inr (), d, w)"
  using assms
  by (simp add: open_control_def example_watch_def connect_request_def tls_request_def add_ca_certificate_def
      add_identity_def read_ssl_file_def context_lib_def example_tls_def Let_def)

lemma example_query: "maintenance_query ''VACUUM t''"
  by code_simp

lemma example_stubborn: "stubborn example_control example_watch example_backend"
proof -
  have "open_control example_control example_watch w = (Inr (), 1000000, w)" for w
    by (rule example_open) (simp_all add: example_control_def fun_eq_iff)
  then show ?thesis
    by (simp add: example_query stubborn_def example_control_def example_watch_def example_backend_def state_answer_def
        GET_BACKEND_ACTIVITY_def seconds_def config_defs)
qed

theorem stubborn_statement_terminated_witness:
  "\<exists>before later. watched example_control example_watch () 0 [(5, ''SIGTERM'')] = before @ WTerminate # later
     \<and> waited before \<le> seconds 10"
  using stubborn_statement_terminated [OF example_stubborn, of "[(5, ''SIGTERM'')]" "()" 0]
  by (simp add: example_watch_def)

lemmas first_look = look.simps(2) [of _ _ 7, folded poll_attempts]

lemmas watcher_eval =
  watched_def new_watcher_def run_watcher.simps receive_def serve_def control_connection_def
  controller_connect_def w_call_def within_timeout_def open_control_def connect_request_def tls_request_def
  add_ca_certificate_def add_identity_def read_ssl_file_def context_lib_def example_tls_def Let_def handle_signal_def first_look controller_state_def
  state_answer_def GET_BACKEND_ACTIVITY_def worth_acting_def example_query plan_action_def cancel_statement_def
  controller_cancel_def act_def sleep_or_signal_def terminate_def controller_terminate_def seconds_def

lemma example_watched:
  "watched example_control example_watch () 0 [(5, ''SIGTERM''), (6000000000, ''SIGINT'')] =
     [WSignal, WConnect True, WState (Some example_backend), WCancel, WInterrupted 5996999995, WTerminate]"
  by (simp add: watcher_eval
      example_control_def example_watch_def example_backend_def config_defs)

theorem watcher_acts_justified_witness:
  "may_cancel Cancel [WSignal, WConnect True, WState (Some example_backend)]"
proof -
  have "watched example_control example_watch () 0 [(5, ''SIGTERM''), (6000000000, ''SIGINT'')] =
      [WSignal, WConnect True, WState (Some example_backend)] @ WCancel # [WInterrupted 5996999995, WTerminate]"
    by (simp only: example_watched append.simps)
  from watcher_acts_justified [OF this] show ?thesis by (simp add: example_watch_def)
qed

text \<open>
  A second signal during the grace period terminates the session without another look at it, even when the
  cancellation has worked and the session is idle by then.
\<close>

definition obedient_control :: "bool control" where
  "obedient_control =
     \<lparr>ctl_tls = example_tls, ctl_files = (\<lambda>w path. Inr path), ctl_connect = (\<lambda>tr dc w. (Inr (), 1000000, w)),
      ctl_activity = (\<lambda>idle. (Inr [\<lparr>act_pid = 42, act_state = Some (if idle then ''idle'' else ''active''),
        act_query = Some ''VACUUM t'', act_query_start = Some ''noon''\<rparr>], 1000000, idle)),
      ctl_cancel = (\<lambda>p w. (Inr True, 1000000, True)),
      ctl_terminate = (\<lambda>p w. (Inr True, 1000000, w)),
      ctl_elapse = (\<lambda>d w. w)\<rparr>"

lemma idle_session_terminated:
  "watched obedient_control example_watch False 0 [(5, ''SIGTERM''), (2000000000, ''SIGINT'')] =
     [WSignal, WConnect True, WState (Some example_backend), WCancel, WInterrupted 1996999995, WTerminate]
   \<and> \<not> active (the (GET_BACKEND_ACTIVITY 42 (case fst (ctl_activity obedient_control True) of Inr rows \<Rightarrow> rows | Inl _ \<Rightarrow> [])))
   \<and> snd (snd (ctl_cancel obedient_control 42 False)) = True"
  by (simp add: watcher_eval
      obedient_control_def example_watch_def example_backend_def config_defs)

end
