(* ===== verification/Logging.thy ===== *)
theory Logging
  imports Table_Ops
    "HOL-Library.Sublist"
begin

text \<open>
  The logger (\<open>src/logging.rs\<close>): the name of the log file under rotation, the lines, and the buffered file
  with its error paths. The mutex around the writer is held for a whole line and never poisoned, as nothing
  panics while it is held. The clock's time stamps and the JSON serialiser are arguments; what goes to the
  standard error is left out.
\<close>

section \<open>Rotation\<close>

record naive_date =
  date_year :: nat
  date_month :: nat
  date_day :: nat

text \<open>\<open>%Y-%m-%d\<close>: fields of a fixed width for the years that have at most four digits.\<close>

fun digits_of :: "nat \<Rightarrow> nat \<Rightarrow> string" where
  "digits_of 0 n = []"
| "digits_of (Suc k) n = digits_of k (n div 10) @ [char_of (48 + n mod 10)]"

definition date_string :: "naive_date \<Rightarrow> string" where
  "date_string d = digits_of 4 (date_year d) @ ''-'' @ digits_of 2 (date_month d) @ ''-'' @ digits_of 2 (date_day d)"

text \<open>
  \<open>std::path\<close> on a Unix path: a root or a leading dot, and the components behind it; empty components and
  dots are skipped, from the right when the last component is looked for.
\<close>

definition path_head :: "string \<Rightarrow> string \<times> string" where
  "path_head p =
     (case p of
        [] \<Rightarrow> ([], [])
      | c # r \<Rightarrow>
          if c = slash then ([c], r)
          else if c = dot \<and> (r = [] \<or> hd r = slash) then ([c], r)
          else ([], p))"

definition skipped_part :: "string \<Rightarrow> bool" where
  "skipped_part x = (x = [] \<or> x = ''.'')"

definition trim_parts :: "string list \<Rightarrow> string list" where
  "trim_parts ps = rev (dropWhile skipped_part (rev ps))"

text \<open>\<open>file_name\<close> and \<open>parent\<close>; without a component there is neither (or the parent is empty).\<close>

definition path_parts :: "string \<Rightarrow> string list" where
  "path_parts p = trim_parts (split_on slash (snd (path_head p)))"

definition file_name :: "string \<Rightarrow> string option" where
  "file_name p =
     (let ps = path_parts p in if ps = [] \<or> last ps = ''..'' then None else Some (last ps))"

definition parent_dir :: "string \<Rightarrow> string" where
  "parent_dir p =
     (let ps = path_parts p in if ps = [] then [] else fst (path_head p) @ join [slash] (trim_parts (butlast ps)))"

definition split_file_at_dot :: "string \<Rightarrow> string \<times> string option" where
  "split_file_at_dot name =
     (case rsplit_once dot name of
        None \<Rightarrow> (name, None)
      | Some (before, after) \<Rightarrow> if before = [] then (name, None) else (before, Some after))"

definition rotated_log_path :: "string \<Rightarrow> log_rotation \<Rightarrow> naive_date \<Rightarrow> string" where
  "rotated_log_path log_file rotation date =
     (if rotation = NoRotation then log_file
      else
        let parent = parent_dir log_file;
            (stem, ext) = (case file_name log_file of Some f \<Rightarrow> split_file_at_dot f | None \<Rightarrow> ([], None));
            new_name = stem @ ''-'' @ date_string date @ (case ext of Some e \<Rightarrow> dot # e | None \<Rightarrow> [])
        in if parent = [] then new_name
           else if last parent = slash then parent @ new_name
           else parent @ [slash] @ new_name)"

section \<open>Lines\<close>

fun level_str :: "log_level \<Rightarrow> string" where
  "level_str Info = ''INFO''"
| "level_str Warning = ''WARN''"
| "level_str ErrorLevel = ''ERROR''"
| "level_str Success = ''SUCCESS''"

record log_context =
  lc_schema :: "string option"
  lc_table :: "string option"
  lc_operation :: "string option"
  lc_status :: "string option"
  lc_duration_secs :: "f64 option"
  lc_xid_age :: "int option"
  lc_error :: "string option"

definition no_context :: log_context where
  "no_context = \<lparr>lc_schema = None, lc_table = None, lc_operation = None, lc_status = None,
     lc_duration_secs = None, lc_xid_age = None, lc_error = None\<rparr>"

record log_event = log_context +
  event_timestamp :: string
  event_level :: string
  event_message :: string

definition event_of :: "string \<Rightarrow> log_level \<Rightarrow> string \<Rightarrow> log_context \<Rightarrow> log_event" where
  "event_of ts level message c =
     log_context.extend c \<lparr>event_timestamp = ts, event_level = level_str level, event_message = message\<rparr>"

definition text_line :: "string \<Rightarrow> log_level \<Rightarrow> string \<Rightarrow> string" where
  "text_line ts level message = ''['' @ ts @ ''] ['' @ level_str level @ ''] '' @ message @ [newline]"

record logger =
  silence_mode :: bool
  json_mode :: bool

definition new_logger :: "bool \<Rightarrow> log_format \<Rightarrow> logger" where
  "new_logger silent fmt = \<lparr>silence_mode = silent, json_mode = (fmt = JsonFormat)\<rparr>"

text \<open>
  The line of an event; \<open>to_json\<close> is \<open>serde_json::to_string\<close>, and the fallbacks of the two functions for
  its failure differ.
\<close>

definition json_fallback :: "string \<Rightarrow> log_level \<Rightarrow> string \<Rightarrow> string" where
  "json_fallback ts level message =
     ''{'' @ [dquote] @ ''timestamp'' @ [dquote, colon, dquote] @ ts @ [dquote] @ '','' @
     [dquote] @ ''level'' @ [dquote, colon, dquote] @ level_str level @ [dquote] @ '','' @
     [dquote] @ ''message'' @ [dquote, colon, dquote] @ message @ [dquote] @ ''}''"

definition short_fallback :: "string \<Rightarrow> string" where
  "short_fallback message = ''{'' @ [dquote] @ ''message'' @ [dquote, colon, dquote] @ message @ [dquote] @ ''}''"

definition log_line :: "(log_event \<Rightarrow> string option) \<Rightarrow> logger \<Rightarrow> string \<Rightarrow> log_level \<Rightarrow> string \<Rightarrow> log_context \<Rightarrow> string" where
  "log_line to_json lg ts level message c =
     (if json_mode lg
      then (case to_json (event_of ts level message c) of Some j \<Rightarrow> j | None \<Rightarrow> json_fallback ts level message) @ [newline]
      else text_line ts level message)"

definition always_line :: "(log_event \<Rightarrow> string option) \<Rightarrow> logger \<Rightarrow> string \<Rightarrow> log_level \<Rightarrow> string \<Rightarrow> string" where
  "always_line to_json lg ts level message =
     (if json_mode lg
      then (case to_json (event_of ts level message no_context) of Some j \<Rightarrow> j | None \<Rightarrow> short_fallback message) @ [newline]
      else text_line ts level message)"

text \<open>The messages about one table; the duration comes as its text and in seconds (theory \<open>Messages\<close>).\<close>

definition quoted_table :: "string \<Rightarrow> string \<Rightarrow> string" where
  "quoted_table schema table = [dquote] @ schema @ [dquote, dot, dquote] @ table @ [dquote]"

definition table_start :: "nat \<Rightarrow> nat \<Rightarrow> string \<Rightarrow> string \<Rightarrow> string \<Rightarrow> log_level \<times> string \<times> log_context" where
  "table_start num n schema table op =
     (Info, ''['' @ dec num @ ''/'' @ dec n @ ''] Starting '' @ op @ '' on '' @ quoted_table schema table,
      no_context\<lparr>lc_schema := Some schema, lc_table := Some table, lc_operation := Some op,
        lc_status := Some ''starting''\<rparr>)"

definition table_success :: "string \<Rightarrow> string \<Rightarrow> string \<Rightarrow> string \<Rightarrow> f64 \<Rightarrow> log_level \<times> string \<times> log_context" where
  "table_success schema table op shown secs =
     (Success, ''Completed '' @ op @ '' on '' @ quoted_table schema table @ '' in '' @ shown,
      no_context\<lparr>lc_schema := Some schema, lc_table := Some table, lc_operation := Some op,
        lc_status := Some ''success'', lc_duration_secs := Some secs\<rparr>)"

definition table_failed :: "string \<Rightarrow> string \<Rightarrow> string \<Rightarrow> string \<Rightarrow> log_level \<times> string \<times> log_context" where
  "table_failed schema table op reason =
     (ErrorLevel, ''Failed '' @ op @ '' on '' @ quoted_table schema table @ '' '' @ em_dash @ '' '' @ reason,
      no_context\<lparr>lc_schema := Some schema, lc_table := Some table, lc_operation := Some op,
        lc_status := Some ''failed'', lc_error := Some reason\<rparr>)"

section \<open>The buffered file\<close>

text \<open>
  What was printed, the text of the file, the writer's buffer when the file is open, and how the next operations
  on the file end: opening it, or a write, either succeeds or fails, a write after some bytes. Behind the list
  everything succeeds.
\<close>

record log_output =
  terminal :: string
  file_text :: string
  writer :: "string option"
  outcomes :: "nat option list"

definition LOG_BUFFER_SIZE :: nat where "LOG_BUFFER_SIZE = 8192"

definition next_outcome :: "log_output \<Rightarrow> nat option \<times> log_output" where
  "next_outcome s = (case outcomes s of [] \<Rightarrow> (None, s) | r # rs \<Rightarrow> (r, s\<lparr>outcomes := rs\<rparr>))"

text \<open>Writing to the file: whether it went well, and how much was written.\<close>

definition file_write :: "string \<Rightarrow> log_output \<Rightarrow> (bool \<times> nat) \<times> log_output" where
  "file_write bytes s =
     (if bytes = [] then ((True, 0), s)
      else (case next_outcome s of
         (None, t) \<Rightarrow> ((True, length bytes), t\<lparr>file_text := file_text t @ bytes\<rparr>)
       | (Some k, t) \<Rightarrow>
           let n = min k (length bytes - 1) in ((False, n), t\<lparr>file_text := file_text t @ take n bytes\<rparr>)))"

text \<open>\<open>BufWriter\<close>: what could not be flushed stays in the buffer.\<close>

definition flush_buf :: "log_output \<Rightarrow> bool \<times> log_output" where
  "flush_buf s =
     (case writer s of
        None \<Rightarrow> (True, s)
      | Some b \<Rightarrow> (case file_write b s of ((ok, n), t) \<Rightarrow> (ok, t\<lparr>writer := Some (drop n b)\<rparr>)))"

definition buffered_write :: "string \<Rightarrow> log_output \<Rightarrow> bool \<times> log_output" where
  "buffered_write line s =
     (case writer s of
        None \<Rightarrow> (True, s)
      | Some b \<Rightarrow>
          if length line < LOG_BUFFER_SIZE - length b then (True, s\<lparr>writer := Some (b @ line)\<rparr>)
          else
            let (ok, t) = (if LOG_BUFFER_SIZE - length b < length line then flush_buf s else (True, s))
            in if \<not> ok then (False, t)
               else if LOG_BUFFER_SIZE \<le> length line then (case file_write line t of ((ok', n), u) \<Rightarrow> (ok', u))
               else (True, t\<lparr>writer := map_option (\<lambda>b. b @ line) (writer t)\<rparr>))"

text \<open>A writer that is dropped tries to flush what it holds, once.\<close>

definition drop_writer :: "log_output \<Rightarrow> log_output" where
  "drop_writer s = (snd (flush_buf s))\<lparr>writer := None\<rparr>"

definition ensure_file_handle :: "log_output \<Rightarrow> bool \<times> log_output" where
  "ensure_file_handle s =
     (if writer s \<noteq> None then (True, s)
      else (case next_outcome s of
         (None, t) \<Rightarrow> (True, t\<lparr>writer := Some []\<rparr>)
       | (Some _, t) \<Rightarrow> (False, t)))"

definition to_file :: "bool \<Rightarrow> string \<Rightarrow> log_output \<Rightarrow> log_output" where
  "to_file flush_now line s =
     (case ensure_file_handle s of
        (False, t) \<Rightarrow> t
      | (True, t) \<Rightarrow>
          (case buffered_write line t of
             (False, u) \<Rightarrow> drop_writer u
           | (True, u) \<Rightarrow> if flush_now then snd (flush_buf u) else u))"

definition log_with_context ::
  "(log_event \<Rightarrow> string option) \<Rightarrow> logger \<Rightarrow> string \<Rightarrow> log_level \<Rightarrow> string \<Rightarrow> log_context \<Rightarrow> log_output \<Rightarrow> log_output" where
  "log_with_context to_json lg ts level message c s =
     (let line = log_line to_json lg ts level message c in
      to_file (level = ErrorLevel) line
        (if silence_mode lg then s else s\<lparr>terminal := terminal s @ line\<rparr>))"

definition logger_log_always ::
  "(log_event \<Rightarrow> string option) \<Rightarrow> logger \<Rightarrow> string \<Rightarrow> log_level \<Rightarrow> string \<Rightarrow> log_output \<Rightarrow> log_output" where
  "logger_log_always to_json lg ts level message s =
     (let line = always_line to_json lg ts level message in
      to_file False line (s\<lparr>terminal := terminal s @ line\<rparr>))"

text \<open>\<open>Drop\<close> of the logger flushes; when that fails, dropping the writer tries once more.\<close>

definition drop_logger :: "log_output \<Rightarrow> log_output" where
  "drop_logger s = (if writer s = None then s else drop_writer (snd (flush_buf s)))"

section \<open>A run of the logger\<close>

datatype log_call = Log log_level string log_context | LogAlways log_level string

text \<open>The calls of a run with their time stamps, from a logger that has not opened its file.\<close>

fun do_call :: "(log_event \<Rightarrow> string option) \<Rightarrow> logger \<Rightarrow> string \<times> log_call \<Rightarrow> log_output \<Rightarrow> log_output" where
  "do_call to_json lg (ts, Log level message c) = log_with_context to_json lg ts level message c"
| "do_call to_json lg (ts, LogAlways level message) = logger_log_always to_json lg ts level message"

fun line_of :: "(log_event \<Rightarrow> string option) \<Rightarrow> logger \<Rightarrow> string \<times> log_call \<Rightarrow> string" where
  "line_of to_json lg (ts, Log level message c) = log_line to_json lg ts level message c"
| "line_of to_json lg (ts, LogAlways level message) = always_line to_json lg ts level message"

definition log_output_of :: "(log_event \<Rightarrow> string option) \<Rightarrow> logger \<Rightarrow> string \<Rightarrow> nat option list \<Rightarrow>
    (string \<times> log_call) list \<Rightarrow> log_output" where
  "log_output_of to_json lg old faults calls =
     fold (do_call to_json lg) calls \<lparr>terminal = [], file_text = old, writer = None, outcomes = faults\<rparr>"

end
