(* ===== verification/Logging_Facts.thy ===== *)
theory Logging_Facts
  imports Logging
begin

text \<open>
  The logger keeps every line: with no fault of the file, what is on disk and in the buffer is all that was
  logged; with faults, what is on disk is what was logged with parts missing, never out of order or twice.
  The names of the rotated files.
\<close>

section \<open>The file and the buffer together\<close>

definition held :: "log_output \<Rightarrow> string" where
  "held s = file_text s @ (case writer s of Some b \<Rightarrow> b | None \<Rightarrow> [])"

definition within_buffer :: "log_output \<Rightarrow> bool" where
  "within_buffer s = (case writer s of Some b \<Rightarrow> length b \<le> LOG_BUFFER_SIZE | None \<Rightarrow> True)"

lemma file_write_result:
  assumes "file_write bytes s = ((ok, n), t)"
  shows "file_text t = file_text s @ take n bytes" "writer t = writer s" "n \<le> length bytes"
    "ok \<longleftrightarrow> n = length bytes" "terminal t = terminal s"
    "outcomes s = [] \<Longrightarrow> ok \<and> outcomes t = []"
  using assms
  by (cases bytes; auto simp: file_write_def next_outcome_def Let_def min_def
        split: if_splits list.splits option.splits prod.splits)+

text \<open>A flush moves bytes from the buffer to the file.\<close>

lemma flush_result:
  assumes "flush_buf s = (ok, t)" "within_buffer s"
  shows "held t = held s" "within_buffer t" "terminal t = terminal s" "writer t = None \<longleftrightarrow> writer s = None"
    "outcomes s = [] \<Longrightarrow> ok \<and> outcomes t = []" "ok \<Longrightarrow> file_text t = held s"
    "ok \<Longrightarrow> writer s \<noteq> None \<Longrightarrow> writer t = Some []"
proof -
  have "held t = held s \<and> within_buffer t \<and> terminal t = terminal s \<and> (writer t = None \<longleftrightarrow> writer s = None)
      \<and> (outcomes s = [] \<longrightarrow> ok \<and> outcomes t = []) \<and> (ok \<longrightarrow> file_text t = held s)
      \<and> (ok \<longrightarrow> writer s \<noteq> None \<longrightarrow> writer t = Some [])"
  proof (cases "writer s")
    case None
    with assms show ?thesis by (auto simp: flush_buf_def held_def)
  next
    case (Some b)
    obtain ok' n u where w: "file_write b s = ((ok', n), u)" by (metis surj_pair)
    with assms(1) Some have "ok = ok'" "t = u\<lparr>writer := Some (drop n b)\<rparr>" by (simp_all add: flush_buf_def)
    with file_write_result [OF w] assms(2) Some show ?thesis by (auto simp: held_def within_buffer_def)
  qed
  then show "held t = held s" "within_buffer t" "terminal t = terminal s" "writer t = None \<longleftrightarrow> writer s = None"
    "outcomes s = [] \<Longrightarrow> ok \<and> outcomes t = []" "ok \<Longrightarrow> file_text t = held s"
    "ok \<Longrightarrow> writer s \<noteq> None \<Longrightarrow> writer t = Some []" by simp_all
qed

text \<open>What a step of the file handling does to a line: all of it is held, or some of it is missing.\<close>

definition keeps :: "string \<Rightarrow> log_output \<Rightarrow> log_output \<Rightarrow> bool" where
  "keeps line s t =
     (subseq (held t) (held s @ line) \<and> within_buffer t \<and> terminal t = terminal s
      \<and> (outcomes s = [] \<longrightarrow> held t = held s @ line \<and> outcomes t = []))"

lemma buffered_write_result:
  assumes "buffered_write line s = (ok, t)" "within_buffer s" "writer s \<noteq> None"
  shows "keeps line s t \<and> (ok \<longrightarrow> held t = held s @ line) \<and> (outcomes s = [] \<longrightarrow> ok) \<and> writer t \<noteq> None"
proof -
  obtain b where b: "writer s = Some b" using assms(3) by blast
  show ?thesis
  proof (cases "length line < LOG_BUFFER_SIZE - length b")
    case True
    with assms(1) b have "ok" "t = s\<lparr>writer := Some (b @ line)\<rparr>" by (simp_all add: buffered_write_def)
    with True b show ?thesis by (auto simp: keeps_def held_def within_buffer_def)
  next
    case large: False
    obtain room u where u: "(if LOG_BUFFER_SIZE - length b < length line then flush_buf s else (True, s)) = (room, u)"
      by fastforce
    have flushed: "held u = held s" "within_buffer u" "terminal u = terminal s" "writer u \<noteq> None"
      "outcomes s = [] \<Longrightarrow> room \<and> outcomes u = []"
      "room \<Longrightarrow> writer u = Some (if LOG_BUFFER_SIZE - length b < length line then [] else b)"
      using u flush_result [of s room u] assms(2) b by (auto split: if_splits)
    have b_fits: "length b \<le> LOG_BUFFER_SIZE" using assms(2) b by (simp add: within_buffer_def)
    consider "\<not> room" | "room" "LOG_BUFFER_SIZE \<le> length line" | "room" "length line < LOG_BUFFER_SIZE" by fastforce
    then show ?thesis
    proof cases
      case 1
      with assms(1) b large u have "\<not> ok \<and> t = u" by (simp add: buffered_write_def)
      with 1 flushed show ?thesis by (auto simp: keeps_def)
    next
      case 2
      obtain ok' n v where v: "file_write line u = ((ok', n), v)" by (metis surj_pair)
      with assms(1) b large u 2 have tv: "ok = ok'" "t = v" by (simp_all add: buffered_write_def)
      have "b = []" if "\<not> LOG_BUFFER_SIZE - length b < length line"
        using that 2(2) b_fits by (cases b) (auto simp: LOG_BUFFER_SIZE_def)
      with flushed(6) [OF 2(1)] have "writer u = Some []" by auto
      with file_write_result [OF v] flushed have "held t = held s @ take n line" "writer t = Some []"
        "terminal t = terminal s" "ok \<longleftrightarrow> n = length line" "outcomes s = [] \<longrightarrow> ok \<and> outcomes t = []"
        unfolding tv by (auto simp: held_def)
      moreover have "subseq (take n line) line" by (simp add: take_is_prefix prefix_imp_subseq)
      then have "subseq (held s @ take n line) (held s @ line)" by (rule list_emb_append_mono [OF subseq_order.refl])
      ultimately show ?thesis by (auto simp: keeps_def within_buffer_def)
    next
      case 3
      with assms(1) b large u have "ok" "t = u\<lparr>writer := map_option (\<lambda>b. b @ line) (writer u)\<rparr>"
        by (simp_all add: buffered_write_def)
      moreover from this have "held t = held u @ line" "within_buffer t"
        using flushed(6) 3 large b_fits by (auto simp: held_def within_buffer_def)
      ultimately show ?thesis using flushed by (auto simp: keeps_def)
    qed
  qed
qed

lemma drop_writer_keeps:
  assumes "within_buffer s"
  shows "keeps [] s (drop_writer s)" "outcomes s = [] \<Longrightarrow> file_text (drop_writer s) = held s"
proof -
  obtain ok t where t: "flush_buf s = (ok, t)" by fastforce
  have "prefix (file_text t) (held t)" by (simp add: held_def)
  with flush_result [OF t assms] show "keeps [] s (drop_writer s)"
    "outcomes s = [] \<Longrightarrow> file_text (drop_writer s) = held s"
    by (auto simp: keeps_def drop_writer_def t within_buffer_def held_def intro: prefix_imp_subseq)
qed

lemma keeps_trans: "keeps a s t \<Longrightarrow> keeps b t u \<Longrightarrow> keeps (a @ b) s u"
  unfolding keeps_def
  by (auto simp flip: append_assoc intro: subseq_order.trans list_emb_append_mono)

lemma ensure_result:
  assumes "ensure_file_handle s = (ok, t)" "within_buffer s"
  shows "keeps [] s t" "writer t = None \<longleftrightarrow> \<not> ok" "outcomes s = [] \<Longrightarrow> ok"
  using assms
  by (auto simp: ensure_file_handle_def next_outcome_def keeps_def held_def within_buffer_def
      split: if_splits list.splits option.splits)

lemma to_file_keeps:
  assumes "within_buffer s"
  shows "keeps line s (to_file flush_now line s)"
    "outcomes s = [] \<Longrightarrow> flush_now \<Longrightarrow> file_text (to_file flush_now line s) = held s @ line"
proof -
  obtain ok t where t: "ensure_file_handle s = (ok, t)" by fastforce
  note opened = ensure_result [OF t assms]
  have t_fits: "within_buffer t" using opened(1) by (simp add: keeps_def)
  have "keeps line s (to_file flush_now line s) \<and>
    (outcomes s = [] \<and> flush_now \<longrightarrow> file_text (to_file flush_now line s) = held s @ line)"
  proof (cases ok)
    case False
    then have "to_file flush_now line s = t" by (simp add: to_file_def t)
    with False opened show ?thesis
      by (auto simp: keeps_def intro: subseq_order.trans [OF _ list_emb_append2])
  next
    case True
    obtain ok' u where u: "buffered_write line t = (ok', u)" by fastforce
    have written: "keeps line t u" "ok' \<Longrightarrow> held u = held t @ line" "outcomes t = [] \<Longrightarrow> ok'"
      using buffered_write_result [OF u t_fits] opened(2) True by simp_all
    have so_far: "keeps line s u" using keeps_trans [OF opened(1) written(1)] by simp
    then have u_fits: "within_buffer u" by (simp add: keeps_def)
    show ?thesis
    proof (cases ok')
      case False
      then have dropped: "to_file flush_now line s = drop_writer u" using True by (simp add: to_file_def t u)
      have "outcomes s \<noteq> []" using False written(3) opened(1) by (auto simp: keeps_def)
      with keeps_trans [OF so_far drop_writer_keeps(1) [OF u_fits]] show ?thesis by (simp add: dropped)
    next
      case stored: True
      obtain ok3 v where v: "flush_buf u = (ok3, v)" by fastforce
      have whole: "to_file flush_now line s = (if flush_now then v else u)" using True stored by (simp add: to_file_def t u v)
      from flush_result [OF v u_fits] have "keeps [] u v" by (simp add: keeps_def)
      from keeps_trans [OF so_far this] have "keeps line s v" by simp
      moreover have "outcomes s = [] \<longrightarrow> file_text v = held s @ line"
        using flush_result(5,6) [OF v u_fits] so_far by (auto simp: keeps_def)
      ultimately show ?thesis using so_far unfolding whole by simp
    qed
  qed
  then show "keeps line s (to_file flush_now line s)"
    "outcomes s = [] \<Longrightarrow> flush_now \<Longrightarrow> file_text (to_file flush_now line s) = held s @ line" by blast+
qed

section \<open>A run of the logger\<close>

text \<open>What a call prints.\<close>

fun printed :: "(log_event \<Rightarrow> string option) \<Rightarrow> logger \<Rightarrow> string \<times> log_call \<Rightarrow> string" where
  "printed to_json lg (ts, Log level message c) =
     (if silence_mode lg then [] else log_line to_json lg ts level message c)"
| "printed to_json lg (ts, LogAlways level message) = always_line to_json lg ts level message"

lemma do_call_eq:
  "\<exists>flush_now. do_call to_json lg c s =
     to_file flush_now (line_of to_json lg c) (s\<lparr>terminal := terminal s @ printed to_json lg c\<rparr>)"
proof (cases c)
  case (Pair ts call)
  then show ?thesis
    by (cases call) (auto simp: log_with_context_def logger_log_always_def Let_def)
qed

definition follows :: "string \<Rightarrow> string \<Rightarrow> log_output \<Rightarrow> log_output \<Rightarrow> bool" where
  "follows lines shown s t =
     (subseq (held t) (held s @ lines) \<and> within_buffer t \<and> terminal t = terminal s @ shown
      \<and> (outcomes s = [] \<longrightarrow> held t = held s @ lines \<and> outcomes t = []))"

lemma do_call_follows:
  assumes "within_buffer s"
  shows "follows (line_of to_json lg c) (printed to_json lg c) s (do_call to_json lg c s)"
proof -
  let ?s = "s\<lparr>terminal := terminal s @ printed to_json lg c\<rparr>"
  obtain flush_now where call: "do_call to_json lg c s = to_file flush_now (line_of to_json lg c) ?s"
    using do_call_eq by blast
  have "held ?s = held s" "within_buffer ?s" using assms by (simp_all add: held_def within_buffer_def)
  with to_file_keeps(1) [of ?s "line_of to_json lg c" flush_now] show ?thesis
    by (simp add: call keeps_def follows_def)
qed

lemma follows_trans: "follows a x s t \<Longrightarrow> follows b y t u \<Longrightarrow> follows (a @ b) (x @ y) s u"
  unfolding follows_def
  by (auto simp flip: append_assoc intro: subseq_order.trans list_emb_append_mono)

lemma calls_follow:
  "within_buffer s \<Longrightarrow>
     follows (concat (map (line_of to_json lg) calls)) (concat (map (printed to_json lg) calls)) s
       (fold (do_call to_json lg) calls s)"
proof (induction calls arbitrary: s)
  case Nil
  then show ?case by (simp add: follows_def)
next
  case (Cons c calls)
  note first = do_call_follows [OF Cons.prems, of to_json lg c]
  then have "within_buffer (do_call to_json lg c s)" by (simp add: follows_def)
  from follows_trans [OF first Cons.IH [OF this]] show ?case by simp
qed

lemma drop_logger_result:
  assumes "within_buffer s"
  shows "subseq (file_text (drop_logger s)) (held s)" "outcomes s = [] \<Longrightarrow> file_text (drop_logger s) = held s"
proof -
  obtain ok t where t: "flush_buf s = (ok, t)" by fastforce
  note flushed = flush_result [OF t assms]
  have gone: "file_text (drop_writer t) = held (drop_writer t)" by (simp add: held_def drop_writer_def)
  have "subseq (file_text (drop_logger s)) (held s) \<and> (outcomes s = [] \<longrightarrow> file_text (drop_logger s) = held s)"
  proof (cases "writer s")
    case None
    then show ?thesis by (simp add: drop_logger_def held_def)
  next
    case (Some b)
    with drop_writer_keeps [OF flushed(2)] flushed(1,5) gone show ?thesis
      by (auto simp: drop_logger_def t keeps_def)
  qed
  then show "subseq (file_text (drop_logger s)) (held s)" "outcomes s = [] \<Longrightarrow> file_text (drop_logger s) = held s"
    by blast+
qed

definition fresh :: "string \<Rightarrow> nat option list \<Rightarrow> log_output" where
  "fresh old faults = \<lparr>terminal = [], file_text = old, writer = None, outcomes = faults\<rparr>"

lemma fresh [simp]:
  "held (fresh old faults) = old" "within_buffer (fresh old faults)" "outcomes (fresh old faults) = faults"
  "terminal (fresh old faults) = []"
  by (simp_all add: fresh_def held_def within_buffer_def)

lemma log_output_follows:
  "follows (concat (map (line_of to_json lg) calls)) (concat (map (printed to_json lg) calls)) (fresh old faults)
     (log_output_of to_json lg old faults calls)"
  using calls_follow [OF fresh(2)] by (simp add: log_output_of_def fresh_def)

lemma error_line_flushed:
  assumes "within_buffer s" "outcomes s = []"
  shows "file_text (do_call to_json lg (ts, Log ErrorLevel msg c) s) = held s @ log_line to_json lg ts ErrorLevel msg c"
proof -
  let ?s = "if silence_mode lg then s else s\<lparr>terminal := terminal s @ log_line to_json lg ts ErrorLevel msg c\<rparr>"
  have "held ?s = held s" "within_buffer ?s" "outcomes ?s = []" using assms by (simp_all add: held_def within_buffer_def)
  with to_file_keeps(2) [of ?s True "log_line to_json lg ts ErrorLevel msg c"] show ?thesis
    by (simp add: log_with_context_def Let_def)
qed

text \<open>
  C39: The log file holds what was logged. With no fault of the file system it holds, once the logger is gone,
  every line of every call in order after its old contents, and an error logged with \<open>log\<close> is on disk as soon as
  it is logged (a line of \<open>log_always\<close>, such as that of a lost connection, may stay in the buffer until then).
  With any faults of opening and writing it holds what was logged with parts missing, but nothing twice and
  nothing out of order. At no time are more than the 8192 bytes of the buffer still to be written, and the terminal
  shows every line, or in silence mode those that are always shown.
\<close>

theorem log_keeps_every_line:
  "file_text (drop_logger (log_output_of to_json lg old [] calls)) = old @ concat (map (line_of to_json lg) calls)
   \<and> file_text (log_output_of to_json lg old [] (calls @ [(ts, Log ErrorLevel msg c)])) =
       old @ concat (map (line_of to_json lg) (calls @ [(ts, Log ErrorLevel msg c)]))
   \<and> subseq (file_text (drop_logger (log_output_of to_json lg old faults calls)))
       (old @ concat (map (line_of to_json lg) calls))
   \<and> (case writer (log_output_of to_json lg old faults calls) of Some b \<Rightarrow> length b \<le> 8192 | None \<Rightarrow> True)
   \<and> terminal (log_output_of to_json lg old faults calls) = concat (map (printed to_json lg) calls)"
proof (intro conjI)
  have clean: "follows (concat (map (line_of to_json lg) calls)) (concat (map (printed to_json lg) calls)) (fresh old [])
      (log_output_of to_json lg old [] calls)" by (rule log_output_follows)
  then have fits: "within_buffer (log_output_of to_json lg old [] calls)"
    and all: "held (log_output_of to_json lg old [] calls) = old @ concat (map (line_of to_json lg) calls)"
      "outcomes (log_output_of to_json lg old [] calls) = []"
    by (simp_all add: follows_def)
  show "file_text (drop_logger (log_output_of to_json lg old [] calls)) = old @ concat (map (line_of to_json lg) calls)"
    using drop_logger_result(2) [OF fits all(2)] all(1) by simp
  show "file_text (log_output_of to_json lg old [] (calls @ [(ts, Log ErrorLevel msg c)])) =
      old @ concat (map (line_of to_json lg) (calls @ [(ts, Log ErrorLevel msg c)]))"
    using error_line_flushed [OF fits all(2)] all(1) by (simp add: log_output_of_def)
  have faulty: "follows (concat (map (line_of to_json lg) calls)) (concat (map (printed to_json lg) calls))
      (fresh old faults) (log_output_of to_json lg old faults calls)" by (rule log_output_follows)
  then have "within_buffer (log_output_of to_json lg old faults calls)"
    "subseq (held (log_output_of to_json lg old faults calls)) (old @ concat (map (line_of to_json lg) calls))"
    by (simp_all add: follows_def)
  then show "subseq (file_text (drop_logger (log_output_of to_json lg old faults calls)))
      (old @ concat (map (line_of to_json lg) calls))"
    using drop_logger_result(1) subseq_order.trans by blast
  show "case writer (log_output_of to_json lg old faults calls) of Some b \<Rightarrow> length b \<le> 8192 | None \<Rightarrow> True"
    using faulty by (auto simp: follows_def within_buffer_def LOG_BUFFER_SIZE_def split: option.splits)
  show "terminal (log_output_of to_json lg old faults calls) = concat (map (printed to_json lg) calls)"
    using faulty by (simp add: follows_def)
qed

section \<open>The files of the days\<close>

lemma digits_of_length [simp]: "length (digits_of k n) = k"
  by (induction k arbitrary: n) simp_all

lemma digit_inj: "(char_of (48 + m mod 10) :: char) = char_of (48 + n mod 10) \<Longrightarrow> m mod 10 = n mod 10" for m n :: nat
proof -
  assume "(char_of (48 + m mod 10) :: char) = char_of (48 + n mod 10)"
  then have "(of_char (char_of (48 + m mod 10) :: char) :: nat) = of_char (char_of (48 + n mod 10) :: char)" by (rule arg_cong)
  moreover have "48 + m mod 10 < 256" "48 + n mod 10 < 256" by simp_all
  ultimately show ?thesis by (simp only: of_char_of mod_less add_left_cancel)
qed

lemma digits_of_inj: "digits_of k m = digits_of k n \<Longrightarrow> m mod 10 ^ k = n mod 10 ^ k"
proof (induction k arbitrary: m n)
  case (Suc k)
  from Suc.prems have "digits_of k (m div 10) = digits_of k (n div 10)"
    "(char_of (48 + m mod 10) :: char) = char_of (48 + n mod 10)"
    by (simp_all only: digits_of.simps append1_eq_conv)
  from Suc.IH [OF this(1)] digit_inj [OF this(2)] show ?case by (simp add: mod_mult2_eq)
qed simp

definition valid_date :: "naive_date \<Rightarrow> bool" where
  "valid_date d = (date_year d < 10000 \<and> date_month d \<le> 12 \<and> date_day d \<le> 31)"

lemma date_string_inj:
  assumes "valid_date d" "valid_date d'" "date_string d = date_string d'"
  shows "d = d'"
proof -
  from assms(3) have "digits_of 4 (date_year d) = digits_of 4 (date_year d')"
    "digits_of 2 (date_month d) = digits_of 2 (date_month d')" "digits_of 2 (date_day d) = digits_of 2 (date_day d')"
    by (simp_all add: date_string_def)
  from this [THEN digits_of_inj] assms(1,2) show ?thesis by (simp add: valid_date_def)
qed

lemma rotated_parts: "\<exists>a b. \<forall>d. rotated_log_path f Daily d = a @ date_string d @ b"
proof -
  obtain stem ext where parts: "(case file_name f of Some n \<Rightarrow> split_file_at_dot n | None \<Rightarrow> ([], None)) = (stem, ext)"
    by fastforce
  let ?a = "if parent_dir f = [] then stem @ ''-'' else if last (parent_dir f) = slash then parent_dir f @ stem @ ''-''
    else parent_dir f @ [slash] @ stem @ ''-''"
  have "rotated_log_path f Daily d = ?a @ date_string d @ (case ext of Some e \<Rightarrow> dot # e | None \<Rightarrow> [])" for d
    by (simp add: rotated_log_path_def parts)
  then show ?thesis by blast
qed

text \<open>The usual path: a file with an extension in a directory.\<close>

lemma split_on_last: "slash \<notin> set name \<Longrightarrow> split_on slash (dir @ slash # name) = split_on slash dir @ [name]"
  by (induction dir) (auto simp: split_on_no_sep split: list.split)

lemma trim_parts_last: "xs \<noteq> [] \<Longrightarrow> \<not> skipped_part (last xs) \<Longrightarrow> trim_parts xs = xs"
  by (cases xs rule: rev_cases) (simp_all add: trim_parts_def)

lemma path_head_dir:
  assumes "\<not> skipped_part (last (split_on slash dir))"
  obtains h b where "dir = h @ b" "path_head (dir @ slash # name) = (h, b @ slash # name)"
    "\<not> skipped_part (last (split_on slash b))"
proof (cases dir)
  case Nil
  with assms show thesis by (simp add: skipped_part_def)
next
  case (Cons c r)
  consider "c = slash" | "c = dot" "r = []" | r' where "c = dot" "r = slash # r'"
    | "c \<noteq> slash" "c \<noteq> dot \<or> (r \<noteq> [] \<and> hd r \<noteq> slash)"
    by (cases r) auto
  then show thesis
  proof cases
    case 1
    with Cons assms that [of "[slash]" r] show thesis by (simp add: path_head_def)
  next
    case 2
    with Cons assms show thesis by (simp add: skipped_part_def)
  next
    case (3 r')
    with Cons assms that [of "[dot]" "slash # r'"] show thesis by (simp add: path_head_def)
  next
    case 4
    with Cons assms that [of "[]" dir] show thesis by (auto simp: path_head_def)
  qed
qed

lemma rotated_plain:
  assumes dir: "\<not> skipped_part (last (split_on slash dir))"
    and name: "stem \<noteq> []" "slash \<notin> set stem" "ext \<noteq> []" "slash \<notin> set ext" "dot \<notin> set ext"
  shows "rotated_log_path (dir @ slash # stem @ dot # ext) Daily d = dir @ slash # stem @ ''-'' @ date_string d @ dot # ext"
proof -
  let ?name = "stem @ dot # ext"
  from dir obtain h b where h: "dir = h @ b" "path_head (dir @ slash # ?name) = (h, b @ slash # ?name)"
    "\<not> skipped_part (last (split_on slash b))" by (rule path_head_dir)
  have plain: "\<not> skipped_part ?name" "?name \<noteq> ''..''" "slash \<notin> set ?name"
    using name by (auto simp: skipped_part_def append_eq_Cons_conv)
  then have parts: "path_parts (dir @ slash # ?name) = split_on slash b @ [?name]"
    using h(2) by (simp add: path_parts_def split_on_last trim_parts_last del: append.simps)
  then have "parent_dir (dir @ slash # ?name) = dir" "file_name (dir @ slash # ?name) = Some ?name"
    using h plain(2) by (simp_all add: parent_dir_def file_name_def trim_parts_last join_split_on)
  moreover have "split_file_at_dot ?name = (stem, Some ext)"
    using name rsplit_once_Some [of dot ?name stem ext] by (simp add: split_file_at_dot_def)
  moreover have "dir \<noteq> []" using dir by (auto simp: skipped_part_def)
  moreover have "last dir \<noteq> slash"
    using dir \<open>dir \<noteq> []\<close> split_on_last [of "[]"] by (cases dir rule: rev_cases) (auto simp: skipped_part_def)
  ultimately show ?thesis by (simp add: rotated_log_path_def)
qed

text \<open>
  C40: Under daily rotation every day has a file of its own: whatever the configured path, two days give the same
  name only if they are the same day; and without rotation the path is the configured one. A file with an
  extension in a directory stays in that directory, with the date between its name and its extension.
\<close>

theorem rotated_file_per_day:
  assumes "valid_date d" "valid_date d'"
    and "\<not> skipped_part (last (split_on slash dir))" "stem \<noteq> []" "slash \<notin> set stem"
    and "ext \<noteq> []" "slash \<notin> set ext" "dot \<notin> set ext"
  shows "(rotated_log_path f Daily d = rotated_log_path f Daily d') = (d = d')
     \<and> rotated_log_path f NoRotation d = f
     \<and> rotated_log_path (dir @ slash # stem @ dot # ext) Daily d = dir @ slash # stem @ ''-'' @ date_string d @ dot # ext"
proof (intro conjI)
  obtain a b where "\<forall>d. rotated_log_path f Daily d = a @ date_string d @ b" using rotated_parts by blast
  with date_string_inj [OF assms(1,2)]
  show "(rotated_log_path f Daily d = rotated_log_path f Daily d') = (d = d')" by auto
qed (simp_all add: rotated_log_path_def [of _ NoRotation] rotated_plain assms(3-))

theorem rotated_file_per_day_witness:
  "rotated_log_path ''/var/log/maintainer.log'' Daily \<lparr>date_year = 2026, date_month = 9, date_day = 13\<rparr> =
     ''/var/log/maintainer-2026-09-13.log''"
proof -
  let ?d = "\<lparr>date_year = 2026, date_month = 9, date_day = 13\<rparr>"
  have "\<not> skipped_part (last (split_on slash ''/var/log''))" "date_string ?d = ''2026-09-13''" by code_simp+
  with rotated_file_per_day [of ?d ?d "''/var/log''" "''maintainer''" "''log''"] show ?thesis
    by (simp add: valid_date_def)
qed

end
