(* ===== verification/Messages.thy ===== *)
theory Messages
  imports Logging_Facts Readable
begin

text \<open>
  What is printed for the log messages of a run: the text of every kind of message (the \<open>format!\<close> lines of
  \<open>src/operations.rs\<close>, among them \<open>describe_standby\<close>), and the calls of the logger that the events of a run stand
  for, with the fields of the JSON line where the code sets them. The wall clock, which one message shows
  the distance to, is an argument.
\<close>

section \<open>The text of a message\<close>

definition describe_standby :: "standby_lag \<Rightarrow> string" where
  "describe_standby s =
     (let name = (if application_name s = [] then ''<unnamed>'' else application_name s);
          states = '' ('' @ standby_state s @ '', '' @ sync_state s @ '') ''
      in case replay_lag_seconds s of
           Some seconds \<Rightarrow> name @ states @ show_fixed 1 seconds @ ''s behind''
         | None \<Rightarrow> name @ states @ ''caught up'')"

text \<open>What a dry run says about a candidate of each phase.\<close>

definition live_dead_detail :: "int \<Rightarrow> int \<Rightarrow> string" where
  "live_dead_detail n_live n_dead = ''  (live='' @ dec_int n_live @ '', dead='' @ dec_int n_dead @ '')''"

definition live_detail :: "int \<Rightarrow> string" where
  "live_detail n_live = ''  (live='' @ dec_int n_live @ '')''"

definition bloat_detail :: "f64 \<Rightarrow> string" where
  "bloat_detail pct = ''  (bloat='' @ show_fixed 1 pct @ ''%)''"

definition threshold_detail :: "int \<Rightarrow> int \<Rightarrow> bool \<Rightarrow> string" where
  "threshold_detail n_dead threshold via_max =
     ''  (dead_tup='' @ dec_int n_dead @ '', threshold='' @ dec_int threshold @
     (if via_max then ''; found by max-threshold pass'' else []) @ '')''"

definition vacuumed_detail :: "f64 \<Rightarrow> int \<Rightarrow> int \<Rightarrow> string" where
  "vacuumed_detail days n_live n_dead =
     ''  (last vacuumed '' @ show_fixed 1 days @ '' days ago, live='' @ dec_int n_live @ '', dead='' @
     dec_int n_dead @ '')''"

definition analyzed_detail :: "f64 \<Rightarrow> int \<Rightarrow> string" where
  "analyzed_detail days mods = ''  (last analyzed '' @ show_fixed 1 days @ '' days ago, mods='' @ dec_int mods @ '')''"

fun detail_text :: "dry_run_detail \<Rightarrow> string" where
  "detail_text NoDetail = []"
| "detail_text (Live n_live) = live_detail n_live"
| "detail_text (LiveDead n_live n_dead) = live_dead_detail n_live n_dead"
| "detail_text (BloatPct pct) = bloat_detail pct"
| "detail_text (DeadThreshold n_dead threshold via_max) = threshold_detail n_dead threshold via_max"
| "detail_text (LastVacuumed days n_live n_dead) = vacuumed_detail days n_live n_dead"
| "detail_text (LastAnalyzed days mods) = analyzed_detail days mods"

definition dash :: string where "dash = '' '' @ em_dash @ '' ''"

text \<open>The messages of the lag gate.\<close>

named_theorems message_defs \<open>the texts of the messages about a table\<close>

definition lag_exceeds :: "f64 \<Rightarrow> f64 \<Rightarrow> string" where
  "lag_exceeds observed threshold = show_fixed 1 observed @ ''s exceeds '' @ show_fixed 1 threshold @ ''s''"

definition would_wait_text :: "string \<Rightarrow> string \<Rightarrow> f64 \<Rightarrow> f64 \<Rightarrow> string" where
  [message_defs]: "would_wait_text schema table observed threshold =
     ''[DRY RUN] Would wait before '' @ quoted schema table @ dash @ ''replication lag '' @ lag_exceeds observed threshold"

definition no_budget_text :: "string \<Rightarrow> string \<Rightarrow> f64 \<Rightarrow> f64 \<Rightarrow> string" where
  [message_defs]: "no_budget_text schema table observed threshold =
     ''Skipping '' @ quoted schema table @ dash @ ''replication lag '' @ lag_exceeds observed threshold @
     '' and --max-replica-lag-wait-seconds is 0''"

definition waiting_text :: "string \<Rightarrow> string \<Rightarrow> f64 \<Rightarrow> f64 \<Rightarrow> nat \<Rightarrow> string" where
  [message_defs]: "waiting_text schema table observed threshold budget =
     ''Replication lag '' @ lag_exceeds observed threshold @ dash @ ''waiting up to '' @ dec budget @ ''s before '' @
     quoted schema table"

definition waited_text :: "nat \<Rightarrow> string" where
  "waited_text waited = show_fixed 0 (as_secs_f64 waited) @ ''s''"

definition lag_timeout_text :: "string \<Rightarrow> string \<Rightarrow> nat \<Rightarrow> string" where
  [message_defs]: "lag_timeout_text schema table waited =
     ''Skipping '' @ quoted schema table @ dash @ ''replication lag did not recover within '' @ waited_text waited"

definition still_over_text :: "string \<Rightarrow> string \<Rightarrow> f64 \<Rightarrow> nat \<Rightarrow> standby_lag option \<Rightarrow> string" where
  [message_defs]: "still_over_text schema table current waited worst =
     ''Skipping '' @ quoted schema table @ dash @ ''replication lag still '' @ show_fixed 1 current @
     ''s after waiting '' @ waited_text waited @ '' (worst: '' @
     (case worst of Some s \<Rightarrow> describe_standby s | None \<Rightarrow> ''unknown standby'') @ '')''"

definition recovered_text :: "string \<Rightarrow> string \<Rightarrow> f64 \<Rightarrow> nat \<Rightarrow> string" where
  [message_defs]: "recovered_text schema table current waited =
     ''Replication lag recovered to '' @ show_fixed 1 current @ ''s after '' @ waited_text waited @ dash @
     ''proceeding with '' @ quoted schema table"

definition gate_active_text :: "f64 \<Rightarrow> nat \<Rightarrow> nat \<Rightarrow> standby_lag list \<Rightarrow> string" where
  "gate_active_text threshold budget n standbys =
     ''Replication-lag gating active at '' @ show_fixed 1 threshold @ ''s (max wait '' @ dec budget @ ''s)'' @ dash @
     dec n @ '' standby(s): '' @ join ''; '' (map describe_standby standbys)"

text \<open>The other messages about a table.\<close>

definition candidate_text :: "int \<Rightarrow> freeze_table_info \<Rightarrow> string" where
  [message_defs]: "candidate_text wall t =
     ''Wraparound candidate: '' @ quoted (schema_name t) (table_name t) @ dash @ ''XID age '' @ dec_int (xid_age t) @
     '' ('' @ show_fixed 1 (pct_toward_wraparound t) @ ''% of freeze_max_age '' @ dec_int (freeze_max_age t) @
     ''), size='' @ format_bytes_readable (freeze_size_bytes t) @ '', last_maintained='' @
     format_last_maintained wall (freeze_last_maintained t)"

definition retrying_text :: "string \<Rightarrow> string \<Rightarrow> nat \<Rightarrow> nat \<Rightarrow> nat \<Rightarrow> string" where
  [message_defs]: "retrying_text schema table attempt retries delay_ms =
     quoted schema table @ '' hit lock_timeout'' @ dash @ ''retrying ('' @ dec attempt @ ''/'' @ dec retries @
     '') in '' @ dec delay_ms @ ''ms''"

definition would_run_text :: "string \<Rightarrow> string \<Rightarrow> string \<Rightarrow> dry_run_detail \<Rightarrow> string" where
  [message_defs]: "would_run_text command schema table d =
     ''[DRY RUN] Would run: '' @ command @ '' '' @ quoted schema table @ detail_text d"

fun message_text :: "int \<Rightarrow> log_msg \<Rightarrow> string" where
  "message_text wall (Text s) = s"
| "message_text wall (Retrying schema table attempt retries delay_ms) =
     retrying_text schema table attempt retries delay_ms"
| "message_text wall (LostConnection lost) = connection_lost_display lost"
| "message_text wall (TableStart num n schema table op) = fst (snd (table_start num n schema table op))"
| "message_text wall (TableSuccess schema table op elapsed) =
     fst (snd (table_success schema table op (show_duration elapsed) (as_secs_f64 elapsed)))"
| "message_text wall (TableFailed schema table op reason) = fst (snd (table_failed schema table op reason))"
| "message_text wall (DryRunWouldWait schema table observed threshold) = would_wait_text schema table observed threshold"
| "message_text wall (SkipNoWaitBudget schema table observed threshold) = no_budget_text schema table observed threshold"
| "message_text wall (WaitingForLag schema table observed threshold budget) =
     waiting_text schema table observed threshold budget"
| "message_text wall (LagTimeout schema table waited) = lag_timeout_text schema table waited"
| "message_text wall (LagStillOver schema table current waited worst) =
     still_over_text schema table current waited worst"
| "message_text wall (LagRecovered schema table current waited) = recovered_text schema table current waited"
| "message_text wall (LagGateActive threshold budget n standbys) = gate_active_text threshold budget n standbys"
| "message_text wall (WraparoundCandidate t) = candidate_text wall t"
| "message_text wall (WouldRun command schema table d) = would_run_text command schema table d"

section \<open>The calls of the logger\<close>

text \<open>The fields that go with a message; all other messages are logged without.\<close>

fun message_context :: "log_msg \<Rightarrow> log_context" where
  "message_context (TableStart num n schema table op) = snd (snd (table_start num n schema table op))"
| "message_context (TableSuccess schema table op elapsed) =
     snd (snd (table_success schema table op (show_duration elapsed) (as_secs_f64 elapsed)))"
| "message_context (TableFailed schema table op reason) = snd (snd (table_failed schema table op reason))"
| "message_context (WraparoundCandidate t) =
     no_context\<lparr>lc_schema := Some (schema_name t), lc_table := Some (table_name t), lc_xid_age := Some (xid_age t)\<rparr>"
| "message_context _ = no_context"

text \<open>Every event with its time stamp and the wall clock at it.\<close>

fun calls_of :: "(string \<times> int) list \<Rightarrow> event list \<Rightarrow> (string \<times> log_call) list" where
  "calls_of ((ts, wall) # stamps) (ELog level m # es) =
     (ts, Log level (message_text wall m) (message_context m)) # calls_of stamps es"
| "calls_of ((ts, wall) # stamps) (ELogAlways level m # es) =
     (ts, LogAlways level (message_text wall m)) # calls_of stamps es"
| "calls_of (_ # stamps) (_ # es) = calls_of stamps es"
| "calls_of _ _ = []"

section \<open>The messages name their table\<close>

text \<open>
  A message about a table shows its quoted name, so that its line in the log can be found by it.
\<close>

fun about_table :: "log_msg \<Rightarrow> (string \<times> string) option" where
  "about_table (Retrying schema table attempt retries delay_ms) = Some (schema, table)"
| "about_table (TableStart num n schema table op) = Some (schema, table)"
| "about_table (TableSuccess schema table op elapsed) = Some (schema, table)"
| "about_table (TableFailed schema table op reason) = Some (schema, table)"
| "about_table (DryRunWouldWait schema table observed threshold) = Some (schema, table)"
| "about_table (SkipNoWaitBudget schema table observed threshold) = Some (schema, table)"
| "about_table (WaitingForLag schema table observed threshold budget) = Some (schema, table)"
| "about_table (LagTimeout schema table waited) = Some (schema, table)"
| "about_table (LagStillOver schema table current waited worst) = Some (schema, table)"
| "about_table (LagRecovered schema table current waited) = Some (schema, table)"
| "about_table (WraparoundCandidate t) = Some (schema_name t, table_name t)"
| "about_table (WouldRun command schema table d) = Some (schema, table)"
| "about_table _ = None"

lemma sublist_parts:
  "sublist x y \<Longrightarrow> sublist x (a @ y)" "sublist x y \<Longrightarrow> sublist x (y @ a)" "sublist x (x @ a)" "sublist x (a @ x)"
  by (auto simp: sublist_append)

lemma quoted_table_eq: "quoted_table schema table = quoted schema table"
  by (simp add: quoted_table_def quoted_def)

lemma message_names_table:
  "about_table m = Some (schema, table) \<Longrightarrow> sublist (quoted schema table) (message_text wall m)"
  by (cases m; simp only: about_table.simps option.inject prod.inject option.distinct;
      auto simp: table_start_def table_success_def table_failed_def message_defs quoted_table_eq
        simp del: append.simps intro!: sublist_parts(1,3,4))

text \<open>The calls of the events, one for each log event, in order.\<close>

lemma calls_of_log:
  "ELog level m \<in> set es \<Longrightarrow> length es \<le> length stamps \<Longrightarrow>
     \<exists>ts wall. (ts, Log level (message_text wall m) (message_context m)) \<in> set (calls_of stamps es)"
  by (induction stamps es rule: calls_of.induct) (auto; blast)+

lemma line_in_file:
  assumes "call \<in> set calls"
  shows "sublist (line_of to_json lg call) (file_text (drop_logger (log_output_of to_json lg old [] calls)))"
proof -
  have clean: "follows (concat (map (line_of to_json lg) calls)) (concat (map (printed to_json lg) calls)) (fresh old [])
      (log_output_of to_json lg old [] calls)" by (rule log_output_follows)
  then have "within_buffer (log_output_of to_json lg old [] calls)"
    "held (log_output_of to_json lg old [] calls) = old @ concat (map (line_of to_json lg) calls)"
    "outcomes (log_output_of to_json lg old [] calls) = []" by (simp_all add: follows_def)
  then have "file_text (drop_logger (log_output_of to_json lg old [] calls)) = old @ concat (map (line_of to_json lg) calls)"
    using drop_logger_result(2) by simp
  moreover obtain xs ys where "calls = xs @ call # ys" using assms by (meson split_list)
  ultimately show ?thesis by (auto intro: sublist_parts)
qed

text \<open>
  The log of a run can be searched by table: with no fault of the file, every message about a table that the run
  logged is in the log file as one line (in the text format), which shows its level and the quoted name of the table.
\<close>

theorem messages_in_log:
  assumes "ELog level m \<in> set (trace s)" "length (trace s) \<le> length stamps" "\<not> json_mode lg"
    and "about_table m = Some (schema, table)"
  shows "\<exists>ts text. sublist (''['' @ ts @ ''] ['' @ level_str level @ ''] '' @ text @ [newline])
         (file_text (drop_logger (log_output_of to_json lg old [] (calls_of stamps (trace s)))))
       \<and> sublist (quoted schema table) text"
proof -
  from calls_of_log [OF assms(1,2)] obtain ts wall where
    call: "(ts, Log level (message_text wall m) (message_context m)) \<in> set (calls_of stamps (trace s))" by blast
  from line_in_file [OF this, of to_json lg old] assms(3)
  have "sublist (''['' @ ts @ ''] ['' @ level_str level @ ''] '' @ message_text wall m @ [newline])
      (file_text (drop_logger (log_output_of to_json lg old [] (calls_of stamps (trace s)))))"
    by (simp add: log_line_def text_line_def)
  with message_names_table [OF assms(4)] show ?thesis by blast
qed

end
