(* ===== verification/Work_Bounds.thy ===== *)
theory Work_Bounds
  imports Runner_Facts
begin

text \<open>
  How long a phase can take on its own account: the waits of the lag gate and of the lock retry and the
  number of statements are bounded by the settings and the number of candidates, whatever the server
  answers. (How long the server takes for its answers is its own affair.)
\<close>

section \<open>The wait budget of the gate\<close>

text \<open>No operation changes the budget that the gate was made with.\<close>

definition budget :: "'w st \<Rightarrow> nat option" where
  "budget s = map_option max_wait_seconds (lag_gate_state s)"

definition keeps_budget :: "('w, 'a) run \<Rightarrow> bool" where
  "keeps_budget m = (\<forall>s. budget (snd (run_state m s)) = budget s)"

named_theorems budget_intros \<open>rules for programs that keep the wait budget\<close>

lemma keeps_budgetD: "keeps_budget m \<Longrightarrow> run_state m s = (r, s') \<Longrightarrow> budget s' = budget s"
  unfolding keeps_budget_def by (metis snd_conv)

lemma budget_primitives [budget_intros]:
  "keeps_budget (ret x)" "keeps_budget (emit e)" "keeps_budget now" "keeps_budget (is_closed env)"
  "keeps_budget shutdown_requested" "keeps_budget get_gate" "keeps_budget (call_env f ev)"
  by (simp_all add: keeps_budget_def budget_def)

lemma budget_bind [budget_intros]:
  "keeps_budget m \<Longrightarrow> (\<And>x. keeps_budget (f x)) \<Longrightarrow> keeps_budget (State_Monad.bind m f)"
  unfolding keeps_budget_def by (auto split: prod.splits) (metis snd_conv)

lemma budget_cases [budget_intros]:
  "(b \<Longrightarrow> keeps_budget m) \<Longrightarrow> (\<not> b \<Longrightarrow> keeps_budget n) \<Longrightarrow> keeps_budget (if b then m else n)"
  "keeps_budget m \<Longrightarrow> (\<And>y. keeps_budget (f y)) \<Longrightarrow> keeps_budget (case x of None \<Rightarrow> m | Some y \<Rightarrow> f y)"
  "(\<And>y. keeps_budget (g y)) \<Longrightarrow> (\<And>y. keeps_budget (h y)) \<Longrightarrow> keeps_budget (case z of Inl y \<Rightarrow> g y | Inr y \<Rightarrow> h y)"
  "(\<And>a b. keeps_budget (k a b)) \<Longrightarrow> keeps_budget (case p of (a, b) \<Rightarrow> k a b)"
  "keeps_budget m1 \<Longrightarrow> keeps_budget m2 \<Longrightarrow> keeps_budget m3 \<Longrightarrow> keeps_budget m4 \<Longrightarrow>
     keeps_budget (case kind of LockTimeout \<Rightarrow> m1 | ConnectionLost \<Rightarrow> m2 | ShutdownInterrupted \<Rightarrow> m3 | OtherError \<Rightarrow> m4)"
  by (auto split: option.split sum.split prod.split op_error_kind.split)

lemma budget_try [budget_intros]: "keeps_budget m \<Longrightarrow> (\<And>x. keeps_budget (f x)) \<Longrightarrow> keeps_budget (try_run m f)"
  unfolding try_run_def by (intro budget_intros)

lemma budget_map_error [budget_intros]: "keeps_budget m \<Longrightarrow> keeps_budget (map_error h m)"
  unfolding map_error_def by (intro budget_intros)

lemma budget_execute [budget_intros]: "keeps_budget (execute env sql)"
  unfolding execute_def by (intro budget_intros)

lemma budget_sleep [budget_intros]: "keeps_budget (sleep_or_shutdown env d)"
  by (auto simp: keeps_budget_def budget_def sleep_or_shutdown_def Let_def split: option.splits)

lemma budget_update [budget_intros]:
  "keeps_budget (update_gate (add_waited n))" "keeps_budget (update_gate record_skip)" "keeps_budget (update_gate disable)"
  by (auto simp: keeps_budget_def budget_def add_waited_def record_skip_def disable_def option.map_comp comp_def)

subsection \<open>The lag gate\<close>

lemma budget_observe [budget_intros]: "keeps_budget (observe_replica_lag env)"
  unfolding observe_replica_lag_def by (intro budget_intros)

lemma budget_round: "keeps_budget (wait_round env g sch tab started)"
  unfolding wait_round_def lag_decision_def Let_def by (intro budget_intros)

lemma budget_wait_loop: "budget (snd (wait_loop env g sch tab started s)) = budget s"
proof (induction env g sch tab started s rule: wait_loop.induct)
  case (1 env g sch tab started s)
  obtain r1 s1 where round: "run_state (wait_round env g sch tab started) s = (r1, s1)" by fastforce
  from keeps_budgetD [OF budget_round round] 1 [OF round [symmetric]] show ?case
    by (auto simp: wait_loop.simps [of env g sch tab started s] round split: sum.splits option.splits)
qed

lemma budget_wait [budget_intros]: "keeps_budget (wait_for_replica_lag env g sch tab policy)"
proof -
  have "keeps_budget (State (wait_loop env g sch tab started))" for started
    unfolding keeps_budget_def by (simp add: budget_wait_loop)
  then show ?thesis unfolding wait_for_replica_lag_def Let_def by (intro budget_intros)
qed

lemma budget_pass_lag_gate [budget_intros]: "keeps_budget (pass_lag_gate env policy sch tab k)"
  by (induction k) (auto intro!: budget_intros)

subsection \<open>The rest of a table\<close>

lemma budget_command [budget_intros]: "keeps_budget (run_command env v c sch tab)"
  by (cases c) (auto simp: vacuum_table_def analyze_table_def freeze_table_def vacuum_analyze_table_def
      dead_tuple_count_def intro!: budget_intros)

lemma budget_retry: "keeps_budget op \<Longrightarrow> keeps_budget (retry_loop env policy sch tab op n d)"
proof (induction "lock_timeout_retries policy - n" arbitrary: n d)
  case 0
  then show ?case by (subst retry_loop.simps) (auto intro!: budget_intros)
next
  case (Suc k)
  then have "keeps_budget (retry_loop env policy sch tab op (n + 1) (u64_saturating_mul d 2))" by simp
  with Suc.prems show ?case by (subst retry_loop.simps) (intro budget_intros)
qed

lemma budget_active [budget_intros]: "keeps_budget (handle_active_vacuums env sch tab policy sm)"
proof -
  have "keeps_budget (terminate_backends env pids)" for pids
    by (induction pids) (auto intro!: budget_intros)
  then show ?thesis
    unfolding handle_active_vacuums_def find_active_vacuums_def clear_autovacuums_def clear_manual_vacuums_def
      clear_sessions_def Let_def
    by (intro budget_intros)
qed

lemma budget_report [budget_intros]: "keeps_budget (report_result k env policy sch tab res)"
  by (cases k)
    (auto simp: report_change_def report_change_with_horizon_def report_positive_change_def
      describe_worst_xmin_blocker_def observe_xmin_horizon_def Let_def intro!: budget_intros
      split: horizon_observation.split list.split)

lemma budget_operation:
  "keeps_budget (run_operation env policy v ph i n sch tab sm)"
  unfolding run_operation_def with_lock_timeout_retry_def record_success_def record_failure_def
    handle_shutdown_interrupt_def connection_lost_error_def log_maintenance_operation_def Let_def
  by (intro budget_intros budget_retry)

lemma budget_maintain_table: "keeps_budget (maintain_table env policy v ph i n t sm)"
  unfolding maintain_table_def guarded_operation_def connection_lost_error_def Let_def
  by (intro budget_intros budget_operation)

section \<open>What a table costs\<close>

text \<open>Programs that neither wait nor send a statement.\<close>

fun idle_event :: "event \<Rightarrow> bool" where
  "idle_event (ESql sql r n) = False"
| "idle_event (ESleep d) = False"
| "idle_event _ = True"

lemma idle_events: "\<forall>e\<in>set es. idle_event e \<Longrightarrow> total_slept es = 0 \<and> statements es = []"
proof (induction es)
  case (Cons e es)
  then show ?case by (cases e) auto
qed simp

lemma idle_run:
  assumes "emits idle_event m" "run_state m s = (r, s')"
  obtains es where "trace s' = trace s @ es" "total_slept es = 0" "statements es = []"
  using emitsD [OF assms] idle_events unfolding evolves_def by blast

definition costs :: "nat \<Rightarrow> nat \<Rightarrow> 'w st \<Rightarrow> 'w st \<Rightarrow> bool" where
  "costs w n s s' = (\<exists>es. trace s' = trace s @ es \<and> total_slept es \<le> w \<and> length (statements es) \<le> n)"

lemma costs_trans:
  assumes "costs w n s s1" "costs w' n' s1 s2"
  shows "costs (w + w') (n + n') s s2"
proof -
  from assms obtain es fs where "trace s1 = trace s @ es" "total_slept es \<le> w" "length (statements es) \<le> n"
    "trace s2 = trace s1 @ fs" "total_slept fs \<le> w'" "length (statements fs) \<le> n'"
    unfolding costs_def by blast
  then show ?thesis unfolding costs_def by (intro exI [of _ "es @ fs"]) simp
qed

lemma costs_mono: "costs w n s s' \<Longrightarrow> w \<le> w' \<Longrightarrow> n \<le> n' \<Longrightarrow> costs w' n' s s'"
  unfolding costs_def by (meson order_trans)

lemma costs_refl: "costs 0 0 s s"
  by (simp add: costs_def)

lemma idle_costs: "emits idle_event m \<Longrightarrow> run_state m s = (r, s') \<Longrightarrow> costs 0 0 s s'"
  by (rule idle_run) (auto simp: costs_def)

definition retry_wait :: "run_policy \<Rightarrow> nat" where
  "retry_wait policy = ms (lock_timeout_retry_delay_ms policy * (2 ^ lock_timeout_retries policy - 1))"

definition gate_wait :: "'w st \<Rightarrow> nat" where
  "gate_wait s = (case budget s of None \<Rightarrow> 0 | Some seconds \<Rightarrow> secs seconds)"

lemma gate_costs:
  assumes "run_state (pass_lag_gate env policy sch tab k) s = (r, s')"
  shows "costs (k * gate_wait s) 0 s s'"
  using assms
proof (induction k arbitrary: s)
  case 0
  then show ?case by (simp add: costs_refl)
next
  case (Suc k)
  show ?case
  proof (cases "lag_gate_state s")
    case None
    with Suc.prems have "run_state (pass_lag_gate env policy sch tab k) s = (r, s')" by simp
    from Suc.IH [OF this] show ?thesis by (rule costs_mono) simp_all
  next
    case (Some g)
    obtain r1 s1 where wait: "run_state (wait_for_replica_lag env g sch tab policy) s = (r1, s1)" by fastforce
    from wait_for_replica_lag_spec [OF this Some] obtain es where
      "trace s1 = trace s @ es" "statements es = []" "total_slept es \<le> secs (max_wait_seconds g)"
      by (auto split: if_splits)
    then have one: "costs (gate_wait s) 0 s s1"
      by (auto simp: costs_def gate_wait_def budget_def Some)
    show ?thesis
    proof (cases "r1 = Inr Proceed")
      case True
      with Suc.prems wait Some have "run_state (pass_lag_gate env policy sch tab k) s1 = (r, s')" by simp
      from costs_trans [OF one Suc.IH [OF this]] keeps_budgetD [OF budget_wait wait] show ?thesis
        by (simp add: gate_wait_def)
    next
      case False
      with Suc.prems wait Some have "s' = s1" by (auto split: sum.splits)
      with one show ?thesis by (auto elim: costs_mono)
    qed
  qed
qed

lemma operation_costs:
  assumes "run_state (run_operation env policy v ph i n sch tab sm) s = (r, s')"
  shows "costs (retry_wait policy) (lock_timeout_retries policy + 1) s s'"
proof -
  let ?m = "ELog Info (TableStart i n sch tab (op_label ph))"
  let ?s = "s\<lparr>trace := trace s @ [?m]\<rparr>"
  obtain x s1 where op: "run_state (with_lock_timeout_retry env policy sch tab
      (run_command env v (phase_command ph) sch tab)) ?s = (x, s1)" by fastforce
  from command.retry_trace [OF this [unfolded with_lock_timeout_retry_def]]
  have "costs (retry_wait policy) (lock_timeout_retries policy + 1) ?s s1"
    by (auto simp: costs_def retry_wait_def)
  moreover have "costs 0 0 s ?s" by (simp add: costs_def)
  moreover have "costs 0 0 s1 s'"
  proof (cases x)
    case (Inl e)
    with assms op have "run_state (record_failure env policy ph i n sch tab (clock s) e sm) s1 = (r, s')"
      by (simp add: run_operation_def)
    then show ?thesis
      by (rule idle_costs [rotated]) (auto simp: record_failure_def Let_def intro!: emits_intros)
  next
    case (Inr res)
    with assms op have "run_state (record_success env policy ph sch tab (clock s) res sm) s1 = (r, s')"
      by (simp add: run_operation_def)
    then show ?thesis
      by (rule idle_costs [rotated]) (auto simp: record_success_def Let_def intro!: emits_intros)
  qed
  ultimately show ?thesis using costs_trans [of 0 0 s ?s] costs_trans [of _ _ s s1 0 0 s'] by fastforce
qed

text \<open>The costs of one table: every pass of the gate, and the command with its retries.\<close>

definition table_wait :: "run_policy \<Rightarrow> 'z phase \<Rightarrow> 'w st \<Rightarrow> nat" where
  "table_wait policy ph s = gate_passes ph * gate_wait s + retry_wait policy"

lemma gate_wait_kept: "keeps_budget m \<Longrightarrow> run_state m s = (r, s') \<Longrightarrow> gate_wait s' = gate_wait s"
  by (simp add: gate_wait_def keeps_budgetD)

lemma guarded_costs:
  assumes "run_state (guarded_operation env policy v ph i n t sm) s = (r, s')"
  shows "costs (table_wait policy ph s) (lock_timeout_retries policy + 1) s s'"
proof -
  let ?s = "schema_name t" and ?t = "table_name t"
  let ?goal = "costs (table_wait policy ph s) (lock_timeout_retries policy + 1) s s'"
  obtain g s1 where gate: "run_state (pass_lag_gate env policy ?s ?t (gate_passes ph)) s = (g, s1)" by fastforce
  note passed = gate_costs [OF gate]
  show ?goal
  proof (cases "g = Inr Proceed")
    case False
    with assms gate have "s' = s1" by (auto simp: run_guarded split: sum.splits lag_gate_verdict.splits)
    with passed show ?goal by (auto simp: table_wait_def elim: costs_mono)
  next
    case True
    obtain a s2 where act: "run_state (handle_active_vacuums env ?s ?t policy sm) s1 = (a, s2)" by fastforce
    have "costs 0 0 s1 s2" by (rule idle_costs [OF _ act]) (auto intro!: emits_intros)
    from costs_trans [OF passed this] have cleared: "costs (gate_passes ph * gate_wait s) 0 s s2" by simp
    show ?goal
    proof (cases "\<exists>sm'. a = Inr (True, sm') \<and> \<not> dry_run policy")
      case True
      then obtain sm' where "a = Inr (True, sm')" "\<not> dry_run policy" by blast
      with assms gate act \<open>g = Inr Proceed\<close>
      have "run_state (run_operation env policy v ph i n ?s ?t sm') s2 = (r, s')" by (simp add: run_guarded)
      from costs_trans [OF cleared operation_costs [OF this]] show ?goal by (simp add: table_wait_def)
    next
      case False
      have "costs 0 0 s2 s'"
        using assms gate act \<open>g = Inr Proceed\<close> False
        by (auto simp: run_guarded costs_def split: sum.splits if_splits)
      from costs_trans [OF cleared this] show ?goal by (auto simp: table_wait_def elim: costs_mono)
    qed
  qed
qed

lemma maintain_costs:
  assumes "run_state (maintain_table env policy v ph i n t sm) s = (r, s')"
  shows "costs (table_wait policy ph s) (lock_timeout_retries policy + 1) s s'"
proof (cases "costs 0 0 s s'")
  case True
  then show ?thesis by (rule costs_mono) simp_all
next
  case False
  have "run_state (guarded_operation env policy v ph i n t sm) s = (r, s')"
    using assms False
    by (auto simp: run_maintain_table costs_def Let_def split: if_splits)
  then show ?thesis by (rule guarded_costs)
qed

lemma for_tables_costs:
  assumes "run_state (for_tables env policy v ph i n ts sm) s = (r, s')"
  shows "costs (length ts * table_wait policy ph s) (length ts * (lock_timeout_retries policy + 1)) s s'"
  using assms
proof (induction ts arbitrary: i sm s)
  case Nil
  then show ?case by (simp add: costs_refl)
next
  case (Cons t ts)
  obtain x s1 where table: "run_state (maintain_table env policy v ph i n t sm) s = (x, s1)" by fastforce
  note one = maintain_costs [OF table]
  have kept: "table_wait policy ph s1 = table_wait policy ph s"
    by (simp add: table_wait_def gate_wait_kept [OF budget_maintain_table table])
  show ?case
  proof (cases "\<exists>sm'. x = Inr (NextTable, sm')")
    case True
    then obtain sm' where "x = Inr (NextTable, sm')" by blast
    with Cons.prems table have "run_state (for_tables env policy v ph (i + 1) n ts sm') s1 = (r, s')" by simp
    from costs_trans [OF one Cons.IH [OF this]] show ?thesis by (simp add: kept algebra_simps)
  next
    case False
    with Cons.prems table have "s' = s1" by (auto split: sum.splits flow.splits prod.splits)
    with one show ?thesis by (auto elim: costs_mono)
  qed
qed

section \<open>What a phase costs\<close>

lemma budget_log_all [budget_intros]: "keeps_budget (log_all msgs)"
  by (induction msgs rule: log_all.induct) (auto intro!: budget_intros)

lemma budget_for_tables [budget_intros]: "keeps_budget (for_tables env policy v ph i n ts sm)"
proof (induction ts arbitrary: i sm)
  case (Cons t ts)
  then show ?case by (auto intro!: budget_intros budget_maintain_table split: flow.split)
qed (simp add: budget_intros)

lemma budget_run_phase: "keeps_budget (run_phase env policy v ph ts)"
  unfolding run_phase_def Let_def by (intro budget_intros)

lemma run_phase_costs:
  assumes "run_state (run_phase env policy v ph ts) s = (r, s')"
  shows "costs (length ts * table_wait policy ph s) (length ts * (lock_timeout_retries policy + 1)) s s'"
proof (cases "ts = []")
  case True
  with assms show ?thesis by (auto simp: run_phase_def costs_def)
next
  case False
  obtain u s1 where logs: "run_state (do {
      log (fst (found_message ph (length ts))) (Text (snd (found_message ph (length ts))));
      log_all (concat (map (announce ph) ts)) }) s = (u, s1)" by (metis surj_pair)
  then have "costs 0 0 s s1" by (rule idle_costs [rotated]) (auto intro!: emits_intros)
  moreover have "table_wait policy ph s1 = table_wait policy ph s"
    unfolding table_wait_def
    by (subst gate_wait_kept [OF _ logs]) (auto intro!: budget_intros)
  moreover have "run_state (for_tables env policy v ph 1 (length ts) ts (empty_summary (length ts))) s1 = (r, s')"
    using assms False logs by (auto simp: run_phase_def Let_def)
  from for_tables_costs [OF this]
  have "costs (length ts * table_wait policy ph s1) (length ts * (lock_timeout_retries policy + 1)) s1 s'" .
  ultimately show ?thesis using costs_trans by fastforce
qed

text \<open>
  C17: A phase ends, and what it does on its own account is bounded by the settings and the number of its
  candidates, against any server: for each candidate it waits at most the lag gate's budget for each pass of
  the gate, and the doubling delays between the attempts to get the lock; and it sends the maintenance
  command at most once more often than the retries. The budget is that of the gate at the start.
\<close>

theorem phase_work_bounded:
  assumes "run_state (run_phase env policy v ph ts) s = (r, s')"
  shows "\<exists>es. trace s' = trace s @ es
     \<and> total_slept es \<le> length ts * (gate_passes ph * gate_wait s
          + ms (lock_timeout_retry_delay_ms policy * (2 ^ lock_timeout_retries policy - 1)))
     \<and> length (statements es) \<le> length ts * (lock_timeout_retries policy + 1)
     \<and> gate_wait s' = gate_wait s"
proof -
  have "costs (length ts * table_wait policy ph s) (length ts * (lock_timeout_retries policy + 1)) s s'"
    by (rule run_phase_costs [OF assms])
  moreover have "gate_wait s' = gate_wait s" by (rule gate_wait_kept [OF budget_run_phase assms])
  ultimately show ?thesis by (auto simp: costs_def table_wait_def retry_wait_def)
qed

theorem phase_work_bounded_witness:
  "total_slept (trace (snd (example_run (retry_policy 2)
     (initial_state [Inl (server_error LOCK_NOT_AVAILABLE), Inl (server_error LOCK_NOT_AVAILABLE)])))) \<le> ms 300"
  using phase_work_bounded [OF example_pair [of "retry_policy 2"
      "initial_state [Inl (server_error LOCK_NOT_AVAILABLE), Inl (server_error LOCK_NOT_AVAILABLE)]"]]
  by (auto simp: initial_state_def retry_policy_def gate_wait_def budget_def example_tables_def ms_def)

end
