(* ===== verification/Spec2Isabelle.thy ===== *)
theory Spec2Isabelle
  imports Run_Outcome Dsn_Facts Catalog_Facts Credentials Shutdown_Facts Messages Work_Bounds
begin

text \<open>
  pg-maintainer: a program that finds PostgreSQL tables in need of VACUUM, FREEZE or ANALYZE and maintains
  them one after the other.

  The program and its parts. \<open>main\<close> (\<open>src/main.rs\<close>) merges the command line, a configuration file and a
  connection string into the settings of the run, validates them, and opens one session. It takes an advisory
  lock on the schemas of the run, sets the session up, and goes through its modes: each asks the catalogs for
  candidates (\<open>src/queries.rs\<close>, \<open>src/operations.rs\<close>) and hands them to a runner. A runner takes the tables
  one by one: it holds a table back while replicas lag, deals with VACUUMs already running on it, sends the
  command, repeats it while the lock is not available, and writes the outcome to a logbook table
  (\<open>src/schema.rs\<close>). Beside it the shutdown watcher (\<open>src/shutdown.rs\<close>) waits for signals and, over a
  connection of its own, cancels or terminates the statement of the run. Everything is written to a log
  (\<open>src/logging.rs\<close>).

  How effects are modelled. The server, the clock and the files of the machine are a world that the calls of
  an environment observe and change (theory \<open>World\<close>); each call takes some time, and nothing is assumed about
  its answers. A component is a program of the library's state monad over that world, the time, the arrival
  of the first shutdown signal, the lag gate, and the trace of what was done; a fallible one returns a sum.
  \<open>emits Q\<close> says that a program traces only events that satisfy \<open>Q\<close>, with one rule for each construct, so
  that most safety properties are found by going through the program with \<open>emits_intros\<close>. An early return
  is a branch, an error a value; \<open>Crashed\<close> is a panic.

  The theories, in the order in which they build on each other:

  \<^item> \<open>Rust_Prelude\<close>: strings of UTF-8 bytes, white space, splitting, decimal numbers.
  \<^item> \<open>Binary64\<close>, \<open>Rust_Numbers\<close>, \<open>Float_Text\<close>, \<open>Readable\<close>: the rounding of IEEE double precision on exact
    rationals; \<open>f64\<close> as a rational, an infinity or NaN with its comparisons, arithmetic and casts; saturating
    and wrapping integers of 64 bits; \<open>f64\<close> as text (the shortest decimal that gives the number back, or a fixed
    number of digits); sizes and durations in log lines.
  \<^item> \<open>Config\<close> (\<open>src/config.rs\<close>), \<open>Types\<close>, \<open>Settings\<close>, \<open>Tables\<close>, \<open>Lag\<close> (\<open>src/types.rs\<close>,
    \<open>src/vacuum_output.rs\<close>): constants, enumerations with their text, candidate records, the explicit table
    list, observations of lag and the gate's counters. The locale \<open>text_enum\<close> is the contract between an
    enumeration's \<open>Display\<close> and \<open>FromStr\<close>, interpreted for all six.
  \<^item> \<open>Db_Error\<close> (\<open>src/db_error.rs\<close>): error chains, lost connections, exit codes.
  \<^item> \<open>Vacuum_Sql\<close>: the text of the statements; the locale \<open>vacuum_command\<close> reads each kind of them back.
  \<^item> \<open>Tls\<close>, \<open>Connection\<close> (\<open>src/connection.rs\<close>), \<open>Credentials\<close> (\<open>src/credentials.rs\<close>), \<open>Keyword_Strings\<close>,
    \<open>Dsn\<close>, \<open>Dsn_Facts\<close> (\<open>src/dsn.rs\<close>): what is asked of the driver and of the TLS library, connection
    parameters and the connection string, the checks of a new session, the password file, DSN parsing,
    extraction of the SSL parameters, redaction. The two writers of keyword values are interpretations of the
    locale \<open>value_codec\<close>, whose lemmas read a written string back.
  \<^item> \<open>Table_Ops\<close>, \<open>Lag_Gate\<close>, \<open>Active_Vacuum\<close>, \<open>Xmin_Horizon\<close>, \<open>Runners\<close>, \<open>Runner_Facts\<close>, \<open>Work_Bounds\<close>
    (\<open>src/operations.rs\<close>): the commands with their retry, the bounded wait for replicas, running VACUUMs, the
    vacuum horizon, the loop over the candidates. The eight runners of the source are eight copies of one
    loop; \<open>run_phase\<close> is that loop, and each runner its labels, command, skip set and messages. The locale
    \<open>table_operation\<close> is what the retry needs to know of a command.
  \<^item> \<open>Catalog\<close>, \<open>Catalog_Facts\<close> (\<open>src/queries.rs\<close>): the discovery queries as functions on a snapshot of the
    catalogs, with \<open>best_of\<close> as the meaning of \<open>WHERE\<close>, \<open>ORDER BY\<close> and \<open>LIMIT\<close> together (locale
    \<open>row_source\<close>). \<open>Monitoring\<close>: the queries on sessions, slots, standbys, running VACUUMs and dead tuples, as
    functions on a snapshot of the monitoring views.
  \<^item> \<open>Discovery\<close> (\<open>src/operations.rs\<close>, \<open>src/schema.rs\<close>), \<open>Options\<close>, \<open>Validate\<close>, \<open>Session_Setup\<close>, \<open>Run\<close>,
    with \<open>Run_Facts\<close>, \<open>Run_Modes\<close>, \<open>Run_Outcome\<close> (\<open>src/main.rs\<close>): settings and their validation, the lock,
    the modes in order, the exit code. The locales \<open>phase_runner\<close> and \<open>maintenance_mode\<close> are the contracts
    of a runner and of a mode; the schedule of a run is checked against the eight interpretations.
  \<^item> \<open>Shutdown\<close>, \<open>Shutdown_Facts\<close> (\<open>src/shutdown.rs\<close>): the watcher as a program over a queue of signals, its
    protocol as a step relation, and the refinement of the one by the other.
  \<^item> \<open>Logging\<close>, \<open>Logging_Facts\<close> (\<open>src/logging.rs\<close>): the name of the log file, the lines, the buffered file
    with its faults. \<open>Messages\<close>: the text of every message of a run, and the calls of the logger for a trace.

  What is shown. Whole runs: maintenance only under the lock and in its schemas, a dry run changes nothing,
  the stretches of the trace that belong to the modes keep apart where a mode consults what earlier ones
  noted, the exit code tells the outcome, every connection
  has the protection that the settings ask for. Phases: the summary agrees with the logbook, only open
  candidates are touched, a shutdown or a lost connection ends the phase, waits and statements are bounded.
  The watcher acts only with a reason and deals with a statement that does not stop. Components: statements,
  table lists, connection strings, DSNs and password files read back; the queries find exactly the tables
  that their conditions describe, and their merging meets its specification; validation accepts exactly the settings that are stated; the wait for replicas and the retry
  keep their budgets; the log keeps every line.

  Termination, fuel and bounds. Every function here is total and none is cut off by fuel: the wait for
  replicas ends because each round takes time and the deadline does not move (a measure on the clock), the
  retry because the attempts are counted, the watcher because each round receives a signal. The only bound
  that is not the code's is the 17 digits that \<open>shortest\<close> looks at, and \<open>seventeen_digits\<close> shows that they are
  enough. A run of the watcher is one over the signals that come; that the task lives as long as the process is
  not stated.

  Numbers. Nanoseconds, milliseconds and counters are natural numbers where the code's type cannot overflow
  in a run, and wrap or saturate where the code says so. Arithmetic on \<open>f64\<close>, in the program and in the SQL text
  of its queries, is the exact result rounded as IEEE double precision rounds it; negative zero is zero, an
  overflow in SQL gives an infinity instead of an error, and a quotient of type \<open>numeric\<close> is taken exactly.

  Not modelled, with the reason:

  \<^item> The PostgreSQL server, the driver and the TLS library are code outside the repository. Their calls are
    fields of \<open>env\<close>, \<open>control\<close> and \<open>tls_library\<close>; queries on catalogs are functions on a snapshot, as their SQL
    text says.
  \<^item> The parsing of the command line (\<open>clap\<close>), of TOML and JSON, and time stamps (\<open>chrono\<close>) are libraries: the
    model starts from their results, or takes them as arguments.
  \<^item> Registering signal handlers, and a second signal before a session exists: the handlers only set the flag
    and queue the name. They exist once the settings are accepted (\<open>handlers_installed\<close>), so a refused run does
    not look at the flag.
  \<^item> \<open>src/lib.rs\<close> (module declarations) and the tests.
\<close>

end
